(* ===== verification/Prelude.thy ===== *)
theory Prelude
  imports Main "HOL-Library.Word" "HOL-Library.Char_ord" "HOL-Library.List_Lexorder"
begin

text \<open>
  The vocabulary the component theories share: the result type of code that can stop the
  process, the decimal strings of \<open>std::to_string\<close>, and \<open>std::map\<close> as a sorted
  association list.
\<close>

section \<open>Code that can stop the process\<close>

text \<open>
  No function of the daemon catches an exception, so an exception, a failed \<open>assert\<close>, a call
  of \<open>abort\<close> or \<open>exit\<close>, an integer division by zero and an access to memory the program does
  not own all end the run. \<open>Running\<close> is the value of a loop whose fuel is used up: the
  loop is still running.
\<close>

datatype halt =
    Uncaught string
  | Aborted
  | AssertFailed
  | Exited nat
  | ArithTrap
  | BadAccess
  | Running

type_synonym 'a run = "halt + 'a"

definition rbind :: "'a run \<Rightarrow> ('a \<Rightarrow> 'b run) \<Rightarrow> 'b run" where
  "rbind m f = (case m of Inl h \<Rightarrow> Inl h | Inr x \<Rightarrow> f x)"

text \<open>An operation of a library that either gives a value or throws.\<close>

definition throws :: "string \<Rightarrow> 'a option \<Rightarrow> 'a run" where
  "throws what r = (case r of None \<Rightarrow> Inl (Uncaught what) | Some x \<Rightarrow> Inr x)"

definition require :: "bool \<Rightarrow> halt \<Rightarrow> unit run" where
  "require b h = (if b then Inr () else Inl h)"

named_theorems run_simps \<open>evaluation of the run type\<close>

lemma rbind_Inl [simp, run_simps]: "rbind (Inl h) f = Inl h"
  by (simp add: rbind_def)

lemma rbind_Inr [simp, run_simps]: "rbind (Inr x) f = f x"
  by (simp add: rbind_def)

lemma rbind_unit [simp]: "rbind m Inr = m"
  by (cases m) simp_all

lemma rbind_assoc: "rbind (rbind m f) g = rbind m (\<lambda>x. rbind (f x) g)"
  by (cases m) simp_all

lemma rbind_eq_Inr: "rbind m f = Inr y \<longleftrightarrow> (\<exists>x. m = Inr x \<and> f x = Inr y)"
  by (cases m) simp_all

lemma rbind_eq_Inl: "rbind m f = Inl h \<longleftrightarrow> m = Inl h \<or> (\<exists>x. m = Inr x \<and> f x = Inl h)"
  by (cases m) simp_all

lemma rbind_InrE:
  assumes "rbind m f = Inr y"
  obtains x where "m = Inr x" and "f x = Inr y"
  using assms by (auto simp: rbind_eq_Inr)

lemma rbind_cong [fundef_cong]:
  "m = m' \<Longrightarrow> (\<And>x. m' = Inr x \<Longrightarrow> f x = f' x) \<Longrightarrow> rbind m f = rbind m' f'"
  by (cases m') simp_all

lemma throws_None [simp, run_simps]: "throws w None = Inl (Uncaught w)"
  by (simp add: throws_def)

lemma throws_Some [simp, run_simps]: "throws w (Some x) = Inr x"
  by (simp add: throws_def)

lemma throws_eq_Inr [simp]: "throws w r = Inr x \<longleftrightarrow> r = Some x"
  by (cases r) simp_all

lemma throws_not_Running [simp]: "throws w r \<noteq> Inl Running"
  by (cases r) simp_all

lemma require_True [simp, run_simps]: "require True h = Inr ()"
  by (simp add: require_def)

lemma require_False [simp, run_simps]: "require False h = Inl h"
  by (simp add: require_def)

lemma require_eq_Inr: "require b h = Inr u \<longleftrightarrow> b"
  by (simp add: require_def)

text \<open>A computation that does not spin: it gives a value or ends the process.\<close>

definition settles :: "'a run \<Rightarrow> bool" where
  "settles m \<longleftrightarrow> m \<noteq> Inl Running"

lemma settles_Inr [simp, intro]: "settles (Inr x)"
  by (simp add: settles_def)

lemma settles_Inl [simp]: "settles (Inl h) \<longleftrightarrow> h \<noteq> Running"
  by (simp add: settles_def)

lemma settles_throws [simp, intro]: "settles (throws w r)"
  by (simp add: settles_def)

lemma settles_require: "settles (require b h) \<longleftrightarrow> b \<or> h \<noteq> Running"
  by (simp add: settles_def require_def)

lemma settles_rbind [intro!]:
  "settles m \<Longrightarrow> (\<And>x. m = Inr x \<Longrightarrow> settles (f x)) \<Longrightarrow> settles (rbind m f)"
  by (cases m) simp_all

section \<open>Words\<close>

lemma unat_lt_32: "unat (w :: 32 word) < 2 ^ 32"
  using unsigned_less [of w] by simp

lemma unat_of_small: "n < 2 ^ 32 \<Longrightarrow> unat (word_of_nat n :: 32 word) = n"
  by (simp add: unsigned_of_nat take_bit_nat_eq_self)

section \<open>Decimal strings\<close>

text \<open>
  \<open>std::to_string\<close> and \<open>sprintf("%u")\<close> write the decimal digits without leading zeros; a negative
  number has a minus sign in front.
\<close>

definition digit :: "nat \<Rightarrow> char" where
  "digit n = char_of (48 + n)"

definition is_digit :: "char \<Rightarrow> bool" where
  "is_digit c \<longleftrightarrow> (48::nat) \<le> of_char c \<and> of_char c \<le> (57::nat)"

definition digit_val :: "char \<Rightarrow> nat" where
  "digit_val c = of_char c - 48"

fun nat_to_string :: "nat \<Rightarrow> string" where
  "nat_to_string n = (if n < 10 then [digit n] else nat_to_string (n div 10) @ [digit (n mod 10)])"

declare nat_to_string.simps [simp del]

definition int_to_string :: "int \<Rightarrow> string" where
  "int_to_string i = (if i < 0 then CHR ''-'' # nat_to_string (nat (- i)) else nat_to_string (nat i))"

text \<open>The white space that the formatted input of the library skips.\<close>

definition is_space :: "char \<Rightarrow> bool" where
  "is_space c \<longleftrightarrow> c \<in> {CHR '' '', CHR 0x09, CHR 0x0A, CHR 0x0B, CHR 0x0C, CHR 0x0D}"

text \<open>The value \<open>std::stoi\<close> reads from a string of digits.\<close>

definition dec_value :: "string \<Rightarrow> nat" where
  "dec_value s = foldl (\<lambda>a c. 10 * a + digit_val c) 0 s"

lemma of_char_digit: "n < 10 \<Longrightarrow> of_char (digit n) = 48 + n"
  by (simp add: digit_def)

lemma is_digit_digit [simp]: "n < 10 \<Longrightarrow> is_digit (digit n)"
  by (simp add: is_digit_def of_char_digit)

lemma digit_val_digit [simp]: "n < 10 \<Longrightarrow> digit_val (digit n) = n"
  by (simp add: digit_val_def of_char_digit)

lemma dec_value_Nil [simp]: "dec_value [] = 0"
  by (simp add: dec_value_def)

lemma dec_value_snoc [simp]: "dec_value (s @ [c]) = 10 * dec_value s + digit_val c"
  by (simp add: dec_value_def)

lemma dec_value_nat_to_string [simp]: "dec_value (nat_to_string n) = n"
proof (induction n rule: nat_to_string.induct)
  case (1 n)
  show ?case
  proof (cases "n < 10")
    case True
    then have "nat_to_string n = [] @ [digit n]" by (subst nat_to_string.simps) simp
    then have "dec_value (nat_to_string n) = digit_val (digit n)"
      by (simp only: dec_value_snoc) simp
    with True show ?thesis by simp
  next
    case False
    with "1" show ?thesis by (subst nat_to_string.simps) simp
  qed
qed

lemma nat_to_string_inj: "nat_to_string m = nat_to_string n \<Longrightarrow> m = n"
  by (metis dec_value_nat_to_string)

lemma nat_to_string_digits: "c \<in> set (nat_to_string n) \<Longrightarrow> is_digit c"
proof (induction n rule: nat_to_string.induct)
  case (1 n)
  then show ?case
    by (cases "n < 10") (auto simp: nat_to_string.simps [of n])
qed

lemma nat_to_string_nonempty [simp]: "nat_to_string n \<noteq> []"
  by (subst nat_to_string.simps) simp

lemma length_nat_to_string_pos [simp]: "0 < length (nat_to_string n)"
  by simp

lemma length_nat_to_string: "n < 10 ^ k \<Longrightarrow> 0 < k \<Longrightarrow> length (nat_to_string n) \<le> k"
proof (induction n arbitrary: k rule: nat_to_string.induct)
  case (1 n)
  show ?case
  proof (cases "n < 10")
    case True
    with "1.prems" show ?thesis by (subst nat_to_string.simps) simp
  next
    case False
    have "1 < k"
    proof (rule ccontr)
      assume "\<not> 1 < k"
      with "1.prems" have "k = 1" by simp
      with "1.prems" False show False by simp
    qed
    then obtain j where k: "k = Suc j" and j: "0 < j" by (cases k) auto
    from "1.prems" k have "n div 10 < 10 ^ j" by (simp add: less_mult_imp_div_less)
    with "1.IH" False j have "length (nat_to_string (n div 10)) \<le> j" by simp
    with k False show ?thesis by (subst nat_to_string.simps) simp
  qed
qed

lemma not_digit_minus [simp]: "\<not> is_digit (CHR ''-'')"
  by (simp add: is_digit_def)

lemma int_to_string_nonneg: "0 \<le> i \<Longrightarrow> int_to_string i = nat_to_string (nat i)"
  by (simp add: int_to_string_def)

lemma int_to_string_inj: "int_to_string i = int_to_string j \<Longrightarrow> i = j"
proof -
  assume eq: "int_to_string i = int_to_string j"
  have no_sign: "nat_to_string n \<noteq> CHR ''-'' # s" for n s
  proof
    assume "nat_to_string n = CHR ''-'' # s"
    then have "CHR ''-'' \<in> set (nat_to_string n)" by simp
    then have "is_digit (CHR ''-'')" by (rule nat_to_string_digits)
    then show False by simp
  qed
  note no_sign' = no_sign [symmetric]
  show "i = j"
  proof (cases "i < 0"; cases "j < 0")
    assume "i < 0" "j < 0"
    with eq have "nat (- i) = nat (- j)"
      by (auto simp: int_to_string_def dest: nat_to_string_inj)
    with \<open>i < 0\<close> \<open>j < 0\<close> show ?thesis by simp
  next
    assume "\<not> i < 0" "\<not> j < 0"
    with eq have "nat i = nat j"
      by (auto simp: int_to_string_def dest: nat_to_string_inj)
    with \<open>\<not> i < 0\<close> \<open>\<not> j < 0\<close> show ?thesis by simp
  qed (use eq no_sign no_sign' in \<open>auto simp: int_to_string_def\<close>)
qed

section \<open>Ordered maps\<close>

text \<open>
  \<open>std::map\<close> iterates in key order: it is an association list with strictly increasing keys.
  \<open>smap_upd\<close> is \<open>m[k] = f(m[k])\<close>, where \<open>operator[]\<close> first inserts \<open>d\<close> for an absent key.
\<close>

fun smap_upd :: "'v \<Rightarrow> ('v \<Rightarrow> 'v) \<Rightarrow> 'k::linorder \<Rightarrow> ('k \<times> 'v) list \<Rightarrow> ('k \<times> 'v) list" where
  "smap_upd d f k [] = [(k, f d)]"
| "smap_upd d f k ((k', v) # m) =
     (if k = k' then (k', f v) # m
      else if k < k' then (k, f d) # (k', v) # m
      else (k', v) # smap_upd d f k m)"

definition smap_ok :: "('k::linorder \<times> 'v) list \<Rightarrow> bool" where
  "smap_ok m \<longleftrightarrow> sorted_wrt (<) (map fst m)"

lemma smap_ok_Nil [simp]: "smap_ok []"
  by (simp add: smap_ok_def)

lemma smap_ok_Cons: "smap_ok ((k, v) # m) \<longleftrightarrow> (\<forall>k' \<in> fst ` set m. k < k') \<and> smap_ok m"
  by (auto simp: smap_ok_def)

lemma fst_set_smap_upd: "fst ` set (smap_upd d f k m) = insert k (fst ` set m)"
  by (induction d f k m rule: smap_upd.induct) auto

lemma smap_ok_upd [simp]: "smap_ok m \<Longrightarrow> smap_ok (smap_upd d f k m)"
proof (induction d f k m rule: smap_upd.induct)
  case (1 d f k)
  show ?case by (simp add: smap_ok_def)
next
  case (2 d f k k' v m)
  consider "k = k'" | "k < k'" | "k' < k" by fastforce
  then show ?case
  proof cases
    case 3
    with 2 have "smap_ok (smap_upd d f k m)" by (simp add: smap_ok_Cons not_less_iff_gr_or_eq)
    moreover from 2 3 have "\<forall>x \<in> fst ` set (smap_upd d f k m). k' < x"
      unfolding fst_set_smap_upd by (simp add: smap_ok_Cons)
    ultimately show ?thesis using 3 by (auto simp: smap_ok_Cons)
  qed (use 2 in \<open>auto simp: smap_ok_Cons\<close>)
qed

lemma map_of_smap_absent: "smap_ok ((k', v) # m) \<Longrightarrow> k < k' \<Longrightarrow> map_of m k = None"
  by (auto simp: map_of_eq_None_iff smap_ok_Cons)

text \<open>The one law of the update: it changes one key.\<close>

lemma map_of_smap_upd:
  "smap_ok m \<Longrightarrow> map_of (smap_upd d f k m) =
     (map_of m)(k \<mapsto> f (case map_of m k of None \<Rightarrow> d | Some v \<Rightarrow> v))"
proof (induction d f k m rule: smap_upd.induct)
  case (1 d f k)
  show ?case by simp
next
  case (2 d f k k' v m)
  consider "k = k'" | "k < k'" | "k' < k" by fastforce
  then show ?case
  proof cases
    case 1
    then show ?thesis by auto
  next
    case 2
    with \<open>smap_ok ((k', v) # m)\<close> have "map_of m k = None" by (rule map_of_smap_absent)
    with 2 show ?thesis by auto
  next
    case 3
    with 2 show ?thesis by (auto simp: smap_ok_Cons not_less_iff_gr_or_eq)
  qed
qed

text \<open>A counter map \<open>stats[msg]++\<close> and the sum of its counters.\<close>

definition count_msg :: "string \<Rightarrow> (string \<times> int) list \<Rightarrow> (string \<times> int) list" where
  "count_msg k m = smap_upd 0 (\<lambda>n. n + 1) k m"

definition total_count :: "(string \<times> int) list \<Rightarrow> int" where
  "total_count m = sum_list (map snd m)"

lemma total_count_Nil [simp]: "total_count [] = 0"
  by (simp add: total_count_def)

lemma total_count_count_msg [simp]: "total_count (count_msg k m) = total_count m + 1"
proof -
  have "sum_list (map snd (smap_upd 0 (\<lambda>n. n + 1) k m)) = sum_list (map snd m) + (1::int)"
    by (induction "0::int" "\<lambda>n::int. n + 1" k m rule: smap_upd.induct) auto
  then show ?thesis by (simp add: total_count_def count_msg_def)
qed

lemma smap_ok_count_msg [simp]: "smap_ok m \<Longrightarrow> smap_ok (count_msg k m)"
  by (simp add: count_msg_def)

lemma map_of_count_msg:
  "smap_ok m \<Longrightarrow> map_of (count_msg k m) =
     (map_of m)(k \<mapsto> (case map_of m k of None \<Rightarrow> 1 | Some n \<Rightarrow> n + 1))"
  by (auto simp: count_msg_def map_of_smap_upd split: option.split)

end
