(* ===== verification/Json.thy ===== *)
theory Json
  imports Prelude
begin

text \<open>
  The JSON library is not part of the repository (\<open>src/contrib/json-cpp\<close> is a submodule).
  Its value type is the type variable of every theory below and its operations are one
  record of functions, the argument \<open>J\<close> of every definition that reads or writes JSON. An
  operation that throws on a value of the wrong kind gives \<open>None\<close>.
\<close>

section \<open>The interface\<close>

record 'j json_api =
  j_null :: 'j                                    \<comment> \<open>\<open>Json::Value()\<close>\<close>
  j_object :: 'j                                  \<comment> \<open>\<open>Json::Value(Json::objectValue)\<close>\<close>
  j_array :: 'j                                   \<comment> \<open>\<open>Json::Value(Json::arrayValue)\<close>\<close>
  j_str :: "string \<Rightarrow> 'j"
  j_int :: "int \<Rightarrow> 'j"
  j_bool :: "bool \<Rightarrow> 'j"
  j_get :: "'j \<Rightarrow> string \<Rightarrow> 'j option"            \<comment> \<open>\<open>operator[](const char*)\<close>\<close>
  j_at :: "'j \<Rightarrow> int \<Rightarrow> 'j option"                \<comment> \<open>\<open>operator[](int)\<close>\<close>
  j_set :: "'j \<Rightarrow> string \<Rightarrow> 'j \<Rightarrow> 'j option"      \<comment> \<open>\<open>v[k] = x\<close>\<close>
  j_clear :: "'j \<Rightarrow> 'j option"
  j_append :: "'j \<Rightarrow> 'j \<Rightarrow> 'j option"
  j_asString :: "'j \<Rightarrow> string option"
  j_asUInt :: "'j \<Rightarrow> 32 word option"
  j_asInt :: "'j \<Rightarrow> int option"
  j_asInt64 :: "'j \<Rightarrow> int option"
  j_asUInt64 :: "'j \<Rightarrow> nat option"
  j_asCString :: "'j \<Rightarrow> string option"
  j_asBool :: "'j \<Rightarrow> bool option"
  j_truth :: "'j \<Rightarrow> bool"                         \<comment> \<open>\<open>asTruthVal()\<close>\<close>
  j_isNull :: "'j \<Rightarrow> bool"                        \<comment> \<open>\<open>isNull()\<close> and \<open>operator!\<close>\<close>
  j_isArray :: "'j \<Rightarrow> bool"
  j_isObject :: "'j \<Rightarrow> bool"
  j_isString :: "'j \<Rightarrow> bool"
  j_isUInt :: "'j \<Rightarrow> bool"
  j_isMember :: "'j \<Rightarrow> string \<Rightarrow> bool option"
  j_size :: "'j \<Rightarrow> 32 word"
  j_elems :: "'j \<Rightarrow> 'j list"                      \<comment> \<open>what an iterator from \<open>begin()\<close> to \<open>end()\<close> visits\<close>
  j_write :: "'j \<Rightarrow> string"                       \<comment> \<open>\<open>FastWriter().write\<close>\<close>
  j_parse :: "string \<Rightarrow> string + 'j"              \<comment> \<open>\<open>Reader.parse\<close>, or its formatted errors\<close>

section \<open>Reads and writes as the code chains them\<close>

definition jfield :: "('j, 'x) json_api_scheme \<Rightarrow> 'j \<Rightarrow> string \<Rightarrow> 'j run" where
  "jfield J v k = throws ''Json'' (j_get J v k)"

definition jitem :: "('j, 'x) json_api_scheme \<Rightarrow> 'j \<Rightarrow> int \<Rightarrow> 'j run" where
  "jitem J v i = throws ''Json'' (j_at J v i)"

definition jset :: "('j, 'x) json_api_scheme \<Rightarrow> 'j \<Rightarrow> string \<Rightarrow> 'j \<Rightarrow> 'j run" where
  "jset J v k x = throws ''Json'' (j_set J v k x)"

definition jappend :: "('j, 'x) json_api_scheme \<Rightarrow> 'j \<Rightarrow> 'j \<Rightarrow> 'j run" where
  "jappend J v x = throws ''Json'' (j_append J v x)"

definition jasString :: "('j, 'x) json_api_scheme \<Rightarrow> 'j \<Rightarrow> string run" where
  "jasString J v = throws ''Json'' (j_asString J v)"

definition jstr :: "('j, 'x) json_api_scheme \<Rightarrow> 'j \<Rightarrow> string \<Rightarrow> string run" where
  "jstr J v k = rbind (jfield J v k) (jasString J)"

definition juint :: "('j, 'x) json_api_scheme \<Rightarrow> 'j \<Rightarrow> string \<Rightarrow> 32 word run" where
  "juint J v k = rbind (jfield J v k) (\<lambda>x. throws ''Json'' (j_asUInt J x))"

definition jint :: "('j, 'x) json_api_scheme \<Rightarrow> 'j \<Rightarrow> string \<Rightarrow> int run" where
  "jint J v k = rbind (jfield J v k) (\<lambda>x. throws ''Json'' (j_asInt J x))"

definition jint64 :: "('j, 'x) json_api_scheme \<Rightarrow> 'j \<Rightarrow> string \<Rightarrow> int run" where
  "jint64 J v k = rbind (jfield J v k) (\<lambda>x. throws ''Json'' (j_asInt64 J x))"

definition jbool :: "('j, 'x) json_api_scheme \<Rightarrow> 'j \<Rightarrow> string \<Rightarrow> bool run" where
  "jbool J v k = rbind (jfield J v k) (\<lambda>x. throws ''Json'' (j_asBool J x))"

definition jtruth :: "('j, 'x) json_api_scheme \<Rightarrow> 'j \<Rightarrow> string \<Rightarrow> bool run" where
  "jtruth J v k = rbind (jfield J v k) (\<lambda>x. Inr (j_truth J x))"

text \<open>\<open>if (!v[k])\<close>: \<open>operator!\<close> asks whether the member is null, which it is when absent.\<close>

definition jmissing :: "('j, 'x) json_api_scheme \<Rightarrow> 'j \<Rightarrow> string \<Rightarrow> bool run" where
  "jmissing J v k = rbind (jfield J v k) (\<lambda>x. Inr (j_isNull J x))"

text \<open>A C string, such as \<open>asCString\<close> returns, ends at its first null character.\<close>

definition c_string :: "string \<Rightarrow> string" where
  "c_string s = takeWhile (\<lambda>c. c \<noteq> CHR 0x00) s"

text \<open>A sequence of member assignments.\<close>

fun jset_all :: "('j, 'x) json_api_scheme \<Rightarrow> 'j \<Rightarrow> (string \<times> 'j) list \<Rightarrow> 'j run" where
  "jset_all J v [] = Inr v"
| "jset_all J v ((k, x) # kxs) = rbind (jset J v k x) (\<lambda>v'. jset_all J v' kxs)"

lemmas json_read_defs = jfield_def jitem_def jasString_def jstr_def juint_def jint_def jint64_def jbool_def
  jtruth_def jmissing_def

lemmas json_write_defs = jset_def jappend_def

lemma settles_jfield [simp, intro]: "settles (jfield J v k)"
  by (simp add: jfield_def)

lemma settles_jitem [simp, intro]: "settles (jitem J v i)"
  by (simp add: jitem_def)

lemma settles_jset [simp, intro]: "settles (jset J v k x)"
  by (simp add: jset_def)

lemma settles_jasString [simp, intro]: "settles (jasString J v)"
  by (simp add: jasString_def)

lemma settles_json_reads [simp, intro]:
  "settles (jstr J v k)" "settles (juint J v k)" "settles (jint J v k)" "settles (jbool J v k)"
  "settles (jint64 J v k)"
  "settles (jtruth J v k)" "settles (jmissing J v k)"
  by (auto simp: jstr_def juint_def jint_def jint64_def jbool_def jtruth_def jmissing_def)

lemma settles_jset_all [simp, intro]: "settles (jset_all J v kxs)"
  by (induction kxs arbitrary: v) auto

section \<open>What the code relies on\<close>

text \<open>
  How the documented writer escapes the characters of a string: a quote and a backslash get a
  backslash in front, the control characters that have one become a two-character escape.
\<close>

definition json_escape_char :: "char \<Rightarrow> string" where
  "json_escape_char c =
     (if c = CHR 0x22 \<or> c = CHR 0x5C then [CHR 0x5C, c]
      else if c = CHR 0x08 then [CHR 0x5C, CHR ''b'']
      else if c = CHR 0x0C then [CHR 0x5C, CHR ''f'']
      else if c = CHR 0x0A then [CHR 0x5C, CHR ''n'']
      else if c = CHR 0x0D then [CHR 0x5C, CHR ''r'']
      else if c = CHR 0x09 then [CHR 0x5C, CHR ''t'']
      else [c])"

definition json_escape :: "string \<Rightarrow> string" where
  "json_escape s = concat (map json_escape_char s)"

text \<open>
  The documented behaviour of the library: a member assignment works on a null value and on
  an object and gives an object; a read after it finds the member; an absent member reads as
  null; a string or a number is read back as it was stored.
\<close>

locale json_object =
  fixes J :: "'j json_api"
  assumes set_null: "\<exists>v. j_set J (j_null J) k x = Some v"
    and set_object: "j_isObject J v \<Longrightarrow> \<exists>v'. j_set J v k x = Some v'"
    and set_isObject: "j_set J v k x = Some v' \<Longrightarrow> j_isObject J v'"
    and get_set: "j_set J v k x = Some v' \<Longrightarrow>
      j_get J v' k' = (if k' = k then Some x else j_get J v k')"
    and get_null: "j_get J (j_null J) k = Some (j_null J)"
    and get_object: "j_get J (j_object J) k = Some (j_null J)"
    and isObject_object: "j_isObject J (j_object J)"
    and isNull_null: "j_isNull J v \<longleftrightarrow> v = j_null J"
    and asString_str: "j_asString J (j_str J s) = Some s"
    and asInt_int: "- (2 ^ 31) \<le> i \<Longrightarrow> i < 2 ^ 31 \<Longrightarrow> j_asInt J (j_int J i) = Some i"
begin

definition settable :: "'j \<Rightarrow> bool" where
  "settable v \<longleftrightarrow> v = j_null J \<or> j_isObject J v"

lemma settable_null [simp]: "settable (j_null J)"
  by (simp add: settable_def)

lemma settable_object [simp]: "settable (j_object J)"
  by (simp add: settable_def isObject_object)

lemma jset_ok:
  assumes "settable v"
  obtains v' where "jset J v k x = Inr v'" and "settable v'"
    and "\<And>k'. j_get J v' k' = (if k' = k then Some x else j_get J v k')"
proof -
  obtain v' where v': "j_set J v k x = Some v'"
    using assms set_null [of k x] set_object [of v k x] by (auto simp: settable_def)
  then show thesis
    using that set_isObject get_set by (simp add: jset_def settable_def)
qed

text \<open>Building an object succeeds and the last assignment to a member is what a read finds.\<close>

lemma jset_all_ok:
  assumes "settable v"
  obtains v' where "jset_all J v kxs = Inr v'" and "settable v'"
    and "\<And>k. j_get J v' k = (case map_of (rev kxs) k of None \<Rightarrow> j_get J v k | Some x \<Rightarrow> Some x)"
  using assms
proof (induction kxs arbitrary: v thesis)
  case Nil
  then show ?case by simp
next
  case (Cons kx kxs)
  obtain k x where kx: "kx = (k, x)" by (cases kx)
  obtain v1 where v1: "jset J v k x = Inr v1" "settable v1"
    "\<And>k'. j_get J v1 k' = (if k' = k then Some x else j_get J v k')"
    using jset_ok [OF \<open>settable v\<close>] by blast
  obtain v' where v': "jset_all J v1 kxs = Inr v'" "settable v'"
    "\<And>k. j_get J v' k = (case map_of (rev kxs) k of None \<Rightarrow> j_get J v1 k | Some x \<Rightarrow> Some x)"
    using Cons.IH [OF _ \<open>settable v1\<close>] by blast
  show ?case
  proof (rule Cons.prems(1))
    show "jset_all J v (kx # kxs) = Inr v'" by (simp add: kx v1(1) v'(1))
    show "settable v'" by (rule v'(2))
    fix k'
    show "j_get J v' k' =
        (case map_of (rev (kx # kxs)) k' of None \<Rightarrow> j_get J v k' | Some x \<Rightarrow> Some x)"
      by (auto simp: kx v'(3) v1(3) map_add_def split: option.splits)
  qed
qed

end

text \<open>The arrays of the library, for the reports that build one.\<close>

locale json_array = json_object +
  assumes isArray_array: "j_isArray J (j_array J)"
    and elems_array: "j_elems J (j_array J) = []"
    and append_ok: "j_isArray J v \<Longrightarrow> \<exists>v'. j_append J v x = Some v' \<and> j_isArray J v' \<and>
      j_elems J v' = j_elems J v @ [x]"
begin

lemma jappend_ok:
  assumes "j_isArray J v"
  obtains v' where "jappend J v x = Inr v'" and "j_isArray J v'" and "j_elems J v' = j_elems J v @ [x]"
  using append_ok [OF assms, of x] by (auto simp: jappend_def)

end

end
