(* ===== verification/Protostrings.thy ===== *)
theory Protostrings
  imports Prelude
begin

text \<open>
  The member names of the JSON protocol, one abbreviation per macro of
  \<open>src/protostrings.h\<close>, in the order of the file.
\<close>

abbreviation (input) CBSDKD_MSGFLD_REQID :: string where
  "CBSDKD_MSGFLD_REQID \<equiv> ''ReqID''"

abbreviation (input) CBSDKD_MSGFLD_CMD :: string where
  "CBSDKD_MSGFLD_CMD \<equiv> ''Command''"

abbreviation (input) CBSDKD_MSGFLD_HID :: string where
  "CBSDKD_MSGFLD_HID \<equiv> ''Handle''"

abbreviation (input) CBSDKD_MSGFLD_REQDATA :: string where
  "CBSDKD_MSGFLD_REQDATA \<equiv> ''CommandData''"

abbreviation (input) CBSDKD_MSGFLD_RESDATA :: string where
  "CBSDKD_MSGFLD_RESDATA \<equiv> ''ResponseData''"

abbreviation (input) CBSDKD_MSGFLD_DSREQ_DSTYPE :: string where
  "CBSDKD_MSGFLD_DSREQ_DSTYPE \<equiv> ''DSType''"

abbreviation (input) CBSDKD_MSGFLD_DSREQ_DS :: string where
  "CBSDKD_MSGFLD_DSREQ_DS \<equiv> ''DS''"

abbreviation (input) CBSDKD_MSGFLD_STATUS :: string where
  "CBSDKD_MSGFLD_STATUS \<equiv> ''Status''"

abbreviation (input) CBSDKD_MSGFLD_ERRSTR :: string where
  "CBSDKD_MSGFLD_ERRSTR \<equiv> ''ErrorString''"

abbreviation (input) CBSDKD_MSGFLD_DS_PRELOAD :: string where
  "CBSDKD_MSGFLD_DS_PRELOAD \<equiv> ''Preload''"

abbreviation (input) CBSDKD_MSGFLD_DSSEED_KSIZE :: string where
  "CBSDKD_MSGFLD_DSSEED_KSIZE \<equiv> ''KSize''"

abbreviation (input) CBSDKD_MSGFLD_DSSEED_VSIZE :: string where
  "CBSDKD_MSGFLD_DSSEED_VSIZE \<equiv> ''VSize''"

abbreviation (input) CBSDKD_MSGFLD_DSSEED_COUNT :: string where
  "CBSDKD_MSGFLD_DSSEED_COUNT \<equiv> ''Count''"

abbreviation (input) CBSDKD_MSGFLD_DSSEED_KSEED :: string where
  "CBSDKD_MSGFLD_DSSEED_KSEED \<equiv> ''KSeed''"

abbreviation (input) CBSDKD_MSGFLD_DSSEED_VSEED :: string where
  "CBSDKD_MSGFLD_DSSEED_VSEED \<equiv> ''VSeed''"

abbreviation (input) CBSDKD_MSGFLD_DSSEED_REPEAT :: string where
  "CBSDKD_MSGFLD_DSSEED_REPEAT \<equiv> ''Repeat''"

abbreviation (input) CBSDKD_MSGFLD_DSINLINE_ITEMS :: string where
  "CBSDKD_MSGFLD_DSINLINE_ITEMS \<equiv> ''Items''"

abbreviation (input) CBSDKD_MSGFLD_DS_ID :: string where
  "CBSDKD_MSGFLD_DS_ID \<equiv> ''ID''"

abbreviation (input) CBSDKD_MSGFLD_DSREQ_OPTS :: string where
  "CBSDKD_MSGFLD_DSREQ_OPTS \<equiv> ''Options''"

abbreviation (input) CBSDKD_MSGFLD_DSREQ_DELAY :: string where
  "CBSDKD_MSGFLD_DSREQ_DELAY \<equiv> ''DelayMsec''"

abbreviation (input) CBSDKD_MSGFLD_DSREQ_DELAY_MIN :: string where
  "CBSDKD_MSGFLD_DSREQ_DELAY_MIN \<equiv> ''DelayMin''"

abbreviation (input) CBSDKD_MSGLFD_DSREQ_DELAY_MAX :: string where
  "CBSDKD_MSGLFD_DSREQ_DELAY_MAX \<equiv> ''DelayMax''"

abbreviation (input) CBSDKD_MSGFLD_DSREQ_FULL :: string where
  "CBSDKD_MSGFLD_DSREQ_FULL \<equiv> ''Detailed''"

abbreviation (input) CBSDKD_MSGFLD_DSREQ_MULTI :: string where
  "CBSDKD_MSGFLD_DSREQ_MULTI \<equiv> ''Multi''"

abbreviation (input) CBSDKD_MSGFLD_DSREQ_EXPIRY :: string where
  "CBSDKD_MSGFLD_DSREQ_EXPIRY \<equiv> ''Expiry''"

abbreviation (input) CBSDKD_MSGFLD_DSREQ_ITERWAIT :: string where
  "CBSDKD_MSGFLD_DSREQ_ITERWAIT \<equiv> ''IterWait''"

abbreviation (input) CBSDKD_MSGFLD_DSREQ_CONTINUOUS :: string where
  "CBSDKD_MSGFLD_DSREQ_CONTINUOUS \<equiv> ''Continuous''"

abbreviation (input) CBSDKD_MSGFLD_DSREQ_TIMERES :: string where
  "CBSDKD_MSGFLD_DSREQ_TIMERES \<equiv> ''TimeRes''"

abbreviation (input) CBSDKD_MSGFLD_DSREQ_PERSIST :: string where
  "CBSDKD_MSGFLD_DSREQ_PERSIST \<equiv> ''PersistTo''"

abbreviation (input) CBSDKD_MSGFLD_DSREQ_REPLICATE :: string where
  "CBSDKD_MSGFLD_DSREQ_REPLICATE \<equiv> ''ReplicateTo''"

abbreviation (input) CBSDKD_MSGFLD_DSRES_STATS :: string where
  "CBSDKD_MSGFLD_DSRES_STATS \<equiv> ''Summary''"

abbreviation (input) CBSDKD_MSGFLD_DSRES_FULL :: string where
  "CBSDKD_MSGFLD_DSRES_FULL \<equiv> ''Details''"

abbreviation (input) CBSDKD_MSGFLD_DRES_TIMINGS :: string where
  "CBSDKD_MSGFLD_DRES_TIMINGS \<equiv> ''Timings''"

abbreviation (input) CBSDKD_MSGFLD_TMS_BASE :: string where
  "CBSDKD_MSGFLD_TMS_BASE \<equiv> ''Base''"

abbreviation (input) CBSDKD_MSGFLD_TMS_COUNT :: string where
  "CBSDKD_MSGFLD_TMS_COUNT \<equiv> ''Count''"

abbreviation (input) CBSDKD_MSGFLD_TMS_MIN :: string where
  "CBSDKD_MSGFLD_TMS_MIN \<equiv> ''Min''"

abbreviation (input) CBSDKD_MSGFLD_TMS_MAX :: string where
  "CBSDKD_MSGFLD_TMS_MAX \<equiv> ''Max''"

abbreviation (input) CBSDKD_MSGFLD_TMS_PERCENTILE :: string where
  "CBSDKD_MSGFLD_TMS_PERCENTILE \<equiv> ''Percentile''"

abbreviation (input) CBSDKD_MSGFLD_TMS_AVG :: string where
  "CBSDKD_MSGFLD_TMS_AVG \<equiv> ''Avg''"

abbreviation (input) CBSDKD_MSGFLD_TMS_ECS :: string where
  "CBSDKD_MSGFLD_TMS_ECS \<equiv> ''Errors''"

abbreviation (input) CBSDKD_MSGFLD_TMS_WINS :: string where
  "CBSDKD_MSGFLD_TMS_WINS \<equiv> ''Windows''"

abbreviation (input) CBSDKD_MSGFLD_TMS_STEP :: string where
  "CBSDKD_MSGFLD_TMS_STEP \<equiv> ''Step''"

abbreviation (input) CBSDKD_MSGFLD_HANDLE_HOSTNAME :: string where
  "CBSDKD_MSGFLD_HANDLE_HOSTNAME \<equiv> ''Hostname''"

abbreviation (input) CBSDKD_MSGFLD_HANDLE_PORT :: string where
  "CBSDKD_MSGFLD_HANDLE_PORT \<equiv> ''Port''"

abbreviation (input) CBSDKD_MSGFLD_HANDLE_BUCKET :: string where
  "CBSDKD_MSGFLD_HANDLE_BUCKET \<equiv> ''Bucket''"

abbreviation (input) CBSDKD_MSGFLD_HANDLE_USERNAME :: string where
  "CBSDKD_MSGFLD_HANDLE_USERNAME \<equiv> ''Username''"

abbreviation (input) CBSDKD_MSGFLD_HANDLE_PASSWORD :: string where
  "CBSDKD_MSGFLD_HANDLE_PASSWORD \<equiv> ''Password''"

abbreviation (input) CBSDKD_MSGFLD_HANDLE_COLLECTIONS_TYPE :: string where
  "CBSDKD_MSGFLD_HANDLE_COLLECTIONS_TYPE \<equiv> ''Collections_type''"

abbreviation (input) CBSDKD_MSGFLD_HANDLE_SCOPES :: string where
  "CBSDKD_MSGFLD_HANDLE_SCOPES \<equiv> ''Scopes''"

abbreviation (input) CBSDKD_MSGFLD_HANDLE_COLLECTIONS :: string where
  "CBSDKD_MSGFLD_HANDLE_COLLECTIONS \<equiv> ''Collections''"

abbreviation (input) CBSDKD_MSGFLD_HANDLE_OPTIONS :: string where
  "CBSDKD_MSGFLD_HANDLE_OPTIONS \<equiv> ''Options''"

abbreviation (input) CBSDKD_MSGFLD_HANDLE_OPT_TMO :: string where
  "CBSDKD_MSGFLD_HANDLE_OPT_TMO \<equiv> ''Timeout''"

abbreviation (input) CBSDKD_MSGFLD_HANDLE_OPT_BACKUPS :: string where
  "CBSDKD_MSGFLD_HANDLE_OPT_BACKUPS \<equiv> ''OtherNodes''"

abbreviation (input) CBSDKD_MSGFLD_HANDLE_OPT_CLUSTERCERT :: string where
  "CBSDKD_MSGFLD_HANDLE_OPT_CLUSTERCERT \<equiv> ''ClusterCertificate''"

abbreviation (input) CBSDKD_MSGFLD_HANDLE_OPT_SSL :: string where
  "CBSDKD_MSGFLD_HANDLE_OPT_SSL \<equiv> ''SSL''"

abbreviation (input) CBSDKD_MSGFLD_TTL_SECONDS :: string where
  "CBSDKD_MSGFLD_TTL_SECONDS \<equiv> ''Seconds''"

abbreviation (input) CBSDKD_MSGFLD_QVOPT_STALE :: string where
  "CBSDKD_MSGFLD_QVOPT_STALE \<equiv> ''stale''"

abbreviation (input) CBSDKD_MSGFLD_QVOPT_LIMIT :: string where
  "CBSDKD_MSGFLD_QVOPT_LIMIT \<equiv> ''limit''"

abbreviation (input) CBSDKD_MSGFLD_QVOPT_ONERR :: string where
  "CBSDKD_MSGFLD_QVOPT_ONERR \<equiv> ''on_error''"

abbreviation (input) CBSDKD_MSGFLD_QVOPT_DESC :: string where
  "CBSDKD_MSGFLD_QVOPT_DESC \<equiv> ''descending''"

abbreviation (input) CBSDKD_MSGFLD_QVOPT_SKIP :: string where
  "CBSDKD_MSGFLD_QVOPT_SKIP \<equiv> ''skip''"

abbreviation (input) CBSDKD_MSGFLD_QVOPT_REDUCE :: string where
  "CBSDKD_MSGFLD_QVOPT_REDUCE \<equiv> ''reduce''"

abbreviation (input) CBSDKD_MSGFLD_QVOPT_INCDOCS :: string where
  "CBSDKD_MSGFLD_QVOPT_INCDOCS \<equiv> ''include_docs''"

abbreviation (input) CBSDKD_MSGFLD_QV_ONERR_CONTINUE :: string where
  "CBSDKD_MSGFLD_QV_ONERR_CONTINUE \<equiv> ''continue''"

abbreviation (input) CBSDKD_MSGFLD_QV_ONERR_STOP :: string where
  "CBSDKD_MSGFLD_QV_ONERR_STOP \<equiv> ''stop''"

abbreviation (input) CBSDKD_MSGFLD_QV_STALE_UPDATEAFTER :: string where
  "CBSDKD_MSGFLD_QV_STALE_UPDATEAFTER \<equiv> ''update_after''"

abbreviation (input) CBSDKD_MSGFLD_V_SCHEMA :: string where
  "CBSDKD_MSGFLD_V_SCHEMA \<equiv> ''Schema''"

abbreviation (input) CBSDKD_MSGFLD_V_INFLATEBASE :: string where
  "CBSDKD_MSGFLD_V_INFLATEBASE \<equiv> ''InflateContent''"

abbreviation (input) CBSDKD_MSGFLD_V_INFLATECOUNT :: string where
  "CBSDKD_MSGFLD_V_INFLATECOUNT \<equiv> ''InflateLevel''"

abbreviation (input) CBSDKD_MSGFLD_V_KIDENT :: string where
  "CBSDKD_MSGFLD_V_KIDENT \<equiv> ''KIdent''"

abbreviation (input) CBSDKD_MSGFLD_V_KSEQ :: string where
  "CBSDKD_MSGFLD_V_KSEQ \<equiv> ''KVSequence''"

abbreviation (input) CBSDKD_MSGFLD_V_DESNAME :: string where
  "CBSDKD_MSGFLD_V_DESNAME \<equiv> ''DesignName''"

abbreviation (input) CBSDKD_MSGFLD_V_MRNAME :: string where
  "CBSDKD_MSGFLD_V_MRNAME \<equiv> ''ViewName''"

abbreviation (input) CBSDKD_MSGFLD_V_QOPTS :: string where
  "CBSDKD_MSGFLD_V_QOPTS \<equiv> ''ViewParameters''"

abbreviation (input) CBSDKD_MSGFLD_V_QDELAY :: string where
  "CBSDKD_MSGFLD_V_QDELAY \<equiv> ''ViewQueryDelay''"

abbreviation (input) CBSDKD_MSGFLD_V_QITERCOUNT :: string where
  "CBSDKD_MSGFLD_V_QITERCOUNT \<equiv> ''ViewQueryCount''"

abbreviation (input) CBSDKD_MSDGFLD_SAMPLING_INTERVAL :: string where
  "CBSDKD_MSDGFLD_SAMPLING_INTERVAL \<equiv> ''Interval''"

abbreviation (input) CBSDKD_MSGFLD_NQ_PARAM :: string where
  "CBSDKD_MSGFLD_NQ_PARAM \<equiv> ''NQParam''"

abbreviation (input) CBSDKD_MSGFLD_NQ_PARAMVALUES :: string where
  "CBSDKD_MSGFLD_NQ_PARAMVALUES \<equiv> ''NQParamValues''"

abbreviation (input) CBSDKD_MSGFLD_NQ_INDEX_ENGINE :: string where
  "CBSDKD_MSGFLD_NQ_INDEX_ENGINE \<equiv> ''NQIndexEngine''"

abbreviation (input) CBSDKD_MSGFLD_NQ_INDEX_TYPE :: string where
  "CBSDKD_MSGFLD_NQ_INDEX_TYPE \<equiv> ''NQIndexType''"

abbreviation (input) CBSDKD_MSGFLD_NQ_PREPARED :: string where
  "CBSDKD_MSGFLD_NQ_PREPARED \<equiv> ''NQPrepared''"

abbreviation (input) CBSDKD_MSGFLD_NQ_FLEX :: string where
  "CBSDKD_MSGFLD_NQ_FLEX \<equiv> ''NQFlex''"

abbreviation (input) CBSDKD_MSGFLD_NQ_PARAMETERIZED :: string where
  "CBSDKD_MSGFLD_NQ_PARAMETERIZED \<equiv> ''NQParameterized''"

abbreviation (input) CBSDKD_MSGFLD_NQ_DEFAULT_INDEX_NAME :: string where
  "CBSDKD_MSGFLD_NQ_DEFAULT_INDEX_NAME \<equiv> ''NQDefaultIndexName''"

abbreviation (input) CBSDKD_MSGFLD_NQ_SCANCONSISTENCY :: string where
  "CBSDKD_MSGFLD_NQ_SCANCONSISTENCY \<equiv> ''NQScanConsistency''"

abbreviation (input) CBSDKD_MSGFLD_NQ_BATCHCOUNT :: string where
  "CBSDKD_MSGFLD_NQ_BATCHCOUNT \<equiv> ''NQBatchCount''"

abbreviation (input) CBSDKD_MSGFLD_NQ_COUNT :: string where
  "CBSDKD_MSGFLD_NQ_COUNT \<equiv> ''NQCount''"

abbreviation (input) CBSDKD_MSGFLD_SD_SCHEMA :: string where
  "CBSDKD_MSGFLD_SD_SCHEMA \<equiv> ''SDSchema''"

abbreviation (input) CBSDKD_MSGFLD_SD_PATH :: string where
  "CBSDKD_MSGFLD_SD_PATH \<equiv> ''SDPath''"

abbreviation (input) CBSDKD_MSGFLD_SD_VALUE :: string where
  "CBSDKD_MSGFLD_SD_VALUE \<equiv> ''SDValue''"

abbreviation (input) CBSDKD_MSGFLD_SD_COMMAND :: string where
  "CBSDKD_MSGFLD_SD_COMMAND \<equiv> ''SDCommand''"

abbreviation (input) CBSDKD_MSGFLD_SD_COUNT :: string where
  "CBSDKD_MSGFLD_SD_COUNT \<equiv> ''Count''"

abbreviation (input) CBSDKD_MSGFLD_FTS_INDEXNAME :: string where
  "CBSDKD_MSGFLD_FTS_INDEXNAME \<equiv> ''FTSIndexName''"

abbreviation (input) CBSDKD_MSGFLD_FTS_LIMIT :: string where
  "CBSDKD_MSGFLD_FTS_LIMIT \<equiv> ''FTSLimit''"

abbreviation (input) CBSDKD_MSGFLD_FTS_COUNT :: string where
  "CBSDKD_MSGFLD_FTS_COUNT \<equiv> ''Count''"

abbreviation (input) CBSDKD_MSGFLD_FTS_CONSISTENCY :: string where
  "CBSDKD_MSGFLD_FTS_CONSISTENCY \<equiv> ''FTSConsistency''"

abbreviation (input) CBSDKD_MSGFLD_FTS_COLLECTIONS :: string where
  "CBSDKD_MSGFLD_FTS_COLLECTIONS \<equiv> ''FTSCollections''"

abbreviation (input) CBSDKD_MSGFLD_CBAS_COUNT :: string where
  "CBSDKD_MSGFLD_CBAS_COUNT \<equiv> ''Count''"

abbreviation (input) CBSDKD_MSGFLD_S3_BUCKET :: string where
  "CBSDKD_MSGFLD_S3_BUCKET \<equiv> ''S3_BUCKET''"

abbreviation (input) CBSDKD_MSGFLD_S3_ACCESSS :: string where
  "CBSDKD_MSGFLD_S3_ACCESSS \<equiv> ''access_key''"

abbreviation (input) CBSDKD_MSGFLD_S3_SECRET :: string where
  "CBSDKD_MSGFLD_S3_SECRET \<equiv> ''secret_key''"

end
