(* ===== verification/Messages.thy ===== *)
theory Messages
  imports Json Errors Protostrings
begin

text \<open>
  The messages of the protocol: \<open>Command\<close> and \<open>Message\<close> (\<open>src/Message.h\<close>,
  \<open>src/Message.cpp\<close>), \<open>Request\<close> (\<open>src/Request.cpp\<close>) and \<open>Response\<close>
  (\<open>src/Response.cpp\<close>). A class that inherits from \<open>Message\<close> keeps the base object in a
  field. A constructor that leaves members uninitialised takes the memory it is built in as an
  argument \<open>u\<close>.
\<close>

section \<open>Commands\<close>

datatype Code =
    BEGIN_COMMAND
  | MC_DS_MUTATE_SET
  | MC_DS_MUTATE_APPEND
  | MC_DS_MUTATE_PREPEND
  | MC_DS_MUTATE_ADD
  | MC_DS_MUTATE_REPLACE
  | MC_DS_DELETE
  | MC_DS_TOUCH
  | MC_DS_GET
  | MC_DS_GETREPLICA
  | MC_DS_ENDURE
  | MC_DS_ENDURESEQNO
  | MC_DS_OBSERVE
  | MC_DS_STATS
  | MC_DS_SD_LOAD
  | MC_DS_SD_RUN
  | CB_VIEW_LOAD
  | CB_VIEW_QUERY
  | CB_N1QL_CREATE_INDEX
  | CB_N1QL_QUERY
  | CB_N1QL_LOAD
  | CB_FTS_LOAD
  | CB_FTS_QUERY
  | CB_AS_LOAD
  | CB_AS_QUERY
  | NEWHANDLE
  | CLOSEHANDLE
  | NEWDATASET
  | DELDATASET
  | GOODBYE
  | CANCEL
  | INFO
  | TTL
  | GETUSAGE
  | UPLOADLOGS
  | INVALID_COMMAND

text \<open>The macro \<open>CBSDKD_XCOMMAND\<close> and the name \<open>#c\<close> of each command.\<close>

definition XCOMMAND :: "Code list" where
  "XCOMMAND =
  [MC_DS_MUTATE_SET, MC_DS_MUTATE_APPEND, MC_DS_MUTATE_PREPEND, MC_DS_MUTATE_ADD,
   MC_DS_MUTATE_REPLACE, MC_DS_DELETE, MC_DS_TOUCH, MC_DS_GET,
   MC_DS_GETREPLICA, MC_DS_ENDURE, MC_DS_ENDURESEQNO, MC_DS_OBSERVE,
   MC_DS_STATS, MC_DS_SD_LOAD, MC_DS_SD_RUN, CB_VIEW_LOAD,
   CB_VIEW_QUERY, CB_N1QL_CREATE_INDEX, CB_N1QL_QUERY, CB_N1QL_LOAD,
   CB_FTS_LOAD, CB_FTS_QUERY, CB_AS_LOAD, CB_AS_QUERY,
   NEWHANDLE, CLOSEHANDLE, NEWDATASET, DELDATASET,
   GOODBYE, CANCEL, INFO, TTL,
   GETUSAGE, UPLOADLOGS]"

primrec code_name :: "Code \<Rightarrow> string" where
  "code_name BEGIN_COMMAND = ''_BEGIN''"
| "code_name MC_DS_MUTATE_SET = ''MC_DS_MUTATE_SET''"
| "code_name MC_DS_MUTATE_APPEND = ''MC_DS_MUTATE_APPEND''"
| "code_name MC_DS_MUTATE_PREPEND = ''MC_DS_MUTATE_PREPEND''"
| "code_name MC_DS_MUTATE_ADD = ''MC_DS_MUTATE_ADD''"
| "code_name MC_DS_MUTATE_REPLACE = ''MC_DS_MUTATE_REPLACE''"
| "code_name MC_DS_DELETE = ''MC_DS_DELETE''"
| "code_name MC_DS_TOUCH = ''MC_DS_TOUCH''"
| "code_name MC_DS_GET = ''MC_DS_GET''"
| "code_name MC_DS_GETREPLICA = ''MC_DS_GETREPLICA''"
| "code_name MC_DS_ENDURE = ''MC_DS_ENDURE''"
| "code_name MC_DS_ENDURESEQNO = ''MC_DS_ENDURESEQNO''"
| "code_name MC_DS_OBSERVE = ''MC_DS_OBSERVE''"
| "code_name MC_DS_STATS = ''MC_DS_STATS''"
| "code_name MC_DS_SD_LOAD = ''MC_DS_SD_LOAD''"
| "code_name MC_DS_SD_RUN = ''MC_DS_SD_RUN''"
| "code_name CB_VIEW_LOAD = ''CB_VIEW_LOAD''"
| "code_name CB_VIEW_QUERY = ''CB_VIEW_QUERY''"
| "code_name CB_N1QL_CREATE_INDEX = ''CB_N1QL_CREATE_INDEX''"
| "code_name CB_N1QL_QUERY = ''CB_N1QL_QUERY''"
| "code_name CB_N1QL_LOAD = ''CB_N1QL_LOAD''"
| "code_name CB_FTS_LOAD = ''CB_FTS_LOAD''"
| "code_name CB_FTS_QUERY = ''CB_FTS_QUERY''"
| "code_name CB_AS_LOAD = ''CB_AS_LOAD''"
| "code_name CB_AS_QUERY = ''CB_AS_QUERY''"
| "code_name NEWHANDLE = ''NEWHANDLE''"
| "code_name CLOSEHANDLE = ''CLOSEHANDLE''"
| "code_name NEWDATASET = ''NEWDATASET''"
| "code_name DELDATASET = ''DELDATASET''"
| "code_name GOODBYE = ''GOODBYE''"
| "code_name CANCEL = ''CANCEL''"
| "code_name INFO = ''INFO''"
| "code_name TTL = ''TTL''"
| "code_name GETUSAGE = ''GETUSAGE''"
| "code_name UPLOADLOGS = ''UPLOADLOGS''"
| "code_name INVALID_COMMAND = ''INVALID_COMMAND''"

text \<open>\<open>operator int\<close>: the position in the enumeration, by which commands are compared.\<close>

primrec Code_int :: "Code \<Rightarrow> nat" where
  "Code_int BEGIN_COMMAND = 0"
| "Code_int MC_DS_MUTATE_SET = 1"
| "Code_int MC_DS_MUTATE_APPEND = 2"
| "Code_int MC_DS_MUTATE_PREPEND = 3"
| "Code_int MC_DS_MUTATE_ADD = 4"
| "Code_int MC_DS_MUTATE_REPLACE = 5"
| "Code_int MC_DS_DELETE = 6"
| "Code_int MC_DS_TOUCH = 7"
| "Code_int MC_DS_GET = 8"
| "Code_int MC_DS_GETREPLICA = 9"
| "Code_int MC_DS_ENDURE = 10"
| "Code_int MC_DS_ENDURESEQNO = 11"
| "Code_int MC_DS_OBSERVE = 12"
| "Code_int MC_DS_STATS = 13"
| "Code_int MC_DS_SD_LOAD = 14"
| "Code_int MC_DS_SD_RUN = 15"
| "Code_int CB_VIEW_LOAD = 16"
| "Code_int CB_VIEW_QUERY = 17"
| "Code_int CB_N1QL_CREATE_INDEX = 18"
| "Code_int CB_N1QL_QUERY = 19"
| "Code_int CB_N1QL_LOAD = 20"
| "Code_int CB_FTS_LOAD = 21"
| "Code_int CB_FTS_QUERY = 22"
| "Code_int CB_AS_LOAD = 23"
| "Code_int CB_AS_QUERY = 24"
| "Code_int NEWHANDLE = 25"
| "Code_int CLOSEHANDLE = 26"
| "Code_int NEWDATASET = 27"
| "Code_int DELDATASET = 28"
| "Code_int GOODBYE = 29"
| "Code_int CANCEL = 30"
| "Code_int INFO = 31"
| "Code_int TTL = 32"
| "Code_int GETUSAGE = 33"
| "Code_int UPLOADLOGS = 34"
| "Code_int INVALID_COMMAND = 35"

record Command =
  cmdstr :: string
  cmd_code :: Code

text \<open>
  \<open>Command(Code)\<close> sets the name only of a code the macro lists (\<open>old\<close> is the empty string
  of the member's own constructor otherwise).
\<close>

definition Command_of_code :: "Code \<Rightarrow> Command" where
  "Command_of_code c =
     \<lparr>cmdstr = foldl (\<lambda>s c'. if c = c' then code_name c' else s) [] XCOMMAND, cmd_code = c\<rparr>"

definition Command_of_string :: "string \<Rightarrow> Command" where
  "Command_of_string str =
     \<lparr>cmdstr = str,
      cmd_code = foldl (\<lambda>k c. if str = code_name c then c else k) INVALID_COMMAND XCOMMAND\<rparr>"

subsection \<open>The table is a bijection\<close>

lemma Code_int_nth: "(BEGIN_COMMAND # XCOMMAND @ [INVALID_COMMAND]) ! Code_int c = c"
  by (cases c) (simp_all add: XCOMMAND_def)

lemma Code_int_inj: "Code_int c = Code_int d \<longleftrightarrow> c = d"
  by (metis Code_int_nth)

instantiation Code :: linorder
begin

definition less_eq_Code :: "Code \<Rightarrow> Code \<Rightarrow> bool" where
  "less_eq_Code c d \<longleftrightarrow> Code_int c \<le> Code_int d"

definition less_Code :: "Code \<Rightarrow> Code \<Rightarrow> bool" where
  "less_Code c d \<longleftrightarrow> Code_int c < Code_int d"

instance
  by standard (auto simp: less_eq_Code_def less_Code_def Code_int_inj)

end

lemma distinct_code_names: "distinct (map code_name XCOMMAND)"
  by (simp add: XCOMMAND_def)

lemma foldl_lookup:
  assumes "distinct (map f xs)"
  shows "foldl (\<lambda>k c. if s = f c then c else k) d xs =
    (case find (\<lambda>c. s = f c) xs of None \<Rightarrow> d | Some c \<Rightarrow> c)"
  using assms
proof (induction xs arbitrary: d)
  case Nil
  then show ?case by simp
next
  case (Cons x xs)
  have *: "foldl (\<lambda>k c. if s = f c then c else k) x xs = x" if "s = f x"
  proof -
    have "find (\<lambda>c. s = f c) xs = None"
      using that Cons.prems by (auto simp: find_None_iff)
    with Cons show ?thesis by simp
  qed
  show ?case
  proof (cases "s = f x")
    case True
    with * show ?thesis by simp
  next
    case False
    with Cons show ?thesis by simp
  qed
qed

lemma find_distinct_image:
  assumes "distinct (map f xs)" and "x \<in> set xs"
  shows "find (\<lambda>c. f x = f c) xs = Some x"
  using assms by (induction xs) (auto simp: image_iff)

lemma Command_of_string_name [simp]:
  "c \<in> set XCOMMAND \<Longrightarrow> cmd_code (Command_of_string (code_name c)) = c"
  by (simp add: Command_of_string_def foldl_lookup [OF distinct_code_names]
      find_distinct_image [OF distinct_code_names])

lemma INVALID_not_listed [simp]: "INVALID_COMMAND \<notin> set XCOMMAND"
  by (simp add: XCOMMAND_def)

lemma cmd_code_Command_of_string:
  "cmd_code (Command_of_string s) =
     (case find (\<lambda>c. s = code_name c) XCOMMAND of None \<Rightarrow> INVALID_COMMAND | Some c \<Rightarrow> c)"
  by (simp add: Command_of_string_def foldl_lookup [OF distinct_code_names])

lemma Command_of_string_unknown:
  "cmd_code (Command_of_string s) = INVALID_COMMAND \<longleftrightarrow> s \<notin> code_name ` set XCOMMAND"
proof (cases "find (\<lambda>c. s = code_name c) XCOMMAND")
  case None
  then have "s \<notin> code_name ` set XCOMMAND" by (auto simp only: find_None_iff)
  with None show ?thesis by (simp add: cmd_code_Command_of_string)
next
  case (Some d)
  then have d: "d \<in> set XCOMMAND" "s = code_name d" by (auto simp only: find_Some_iff in_set_conv_nth)
  then have "d \<noteq> INVALID_COMMAND" by (metis INVALID_not_listed)
  with Some d show ?thesis by (simp add: cmd_code_Command_of_string)
qed

lemma cmdstr_Command_of_string [simp]: "cmdstr (Command_of_string s) = s"
  by (simp add: Command_of_string_def)

section \<open>Messages and requests\<close>

record 'j Message =
  reqid :: "64 word"
  handle_id :: "64 word"
  command :: Command
  payload :: 'j
  msg_err :: Error

text \<open>\<open>Message() { }\<close>: the numbers and the command's code stay what the memory held.\<close>

definition Message_new :: "'j json_api \<Rightarrow> 'j Message \<Rightarrow> 'j Message" where
  "Message_new J u =
     u\<lparr>command := \<lparr>cmdstr = [], cmd_code = cmd_code (command u)\<rparr>,
       payload := j_null J, msg_err := Error_new\<rparr>"

definition Message_reset :: "'j json_api \<Rightarrow> 'j Message \<Rightarrow> 'j Message run" where
  "Message_reset J m =
     rbind (throws ''Json'' (j_clear J (payload m))) (\<lambda>p.
     Inr (m\<lparr>reqid := 0, handle_id := 0,
            command := \<lparr>cmdstr = [], cmd_code = INVALID_COMMAND\<rparr>,
            payload := p, msg_err := assign_int 0 (msg_err m)\<rparr>))"

definition Message_refreshWith ::
    "'j json_api \<Rightarrow> string \<Rightarrow> bool \<Rightarrow> 'j Message \<Rightarrow> (bool \<times> 'j Message) run" where
  "Message_refreshWith J str reset m =
     rbind (if reset then Message_reset J m else Inr m) (\<lambda>m0.
     case j_parse J str of
       Inl msg \<Rightarrow> Inr (False, m0\<lparr>msg_err := Error_of SUBSYSf_SDKD SDKD_EINVAL msg\<rparr>)
     | Inr json \<Rightarrow>
         rbind (juint J json CBSDKD_MSGFLD_REQID) (\<lambda>r.
         rbind (juint J json CBSDKD_MSGFLD_HID) (\<lambda>h.
         rbind (jstr J json CBSDKD_MSGFLD_CMD) (\<lambda>c.
         Inr (True, m0\<lparr>reqid := ucast r, handle_id := ucast h,
                       command := Command_of_string c, payload := json\<rparr>)))))"

definition Request_refreshWith ::
    "'j json_api \<Rightarrow> string \<Rightarrow> bool \<Rightarrow> 'j Message \<Rightarrow> (bool \<times> 'j Message) run" where
  "Request_refreshWith J str reset m =
     rbind (Message_refreshWith J str reset m) (\<lambda>(ret, m1).
     if ret then
       rbind (jfield J (payload m1) CBSDKD_MSGFLD_REQDATA) (\<lambda>p.
       let m2 = m1\<lparr>payload := p\<rparr> in
       if j_isNull J p
       then Inr (False, m2\<lparr>msg_err := Error_of SUBSYSf_SDKD SDKD_EINVAL ''Couldn't find CommandData ''\<rparr>)
       else Inr (True, m2))
     else Inr (ret, m1))"

text \<open>
  \<open>Request(string)\<close>: the base constructor parses the string with the base method, then the
  body parses it again with the derived one.
\<close>

definition Request_of_string :: "'j json_api \<Rightarrow> 'j Message \<Rightarrow> string \<Rightarrow> 'j Message run" where
  "Request_of_string J u str =
     rbind (Message_refreshWith J str False (Message_new J u)) (\<lambda>(_, m).
     rbind (Request_refreshWith J str False m) (\<lambda>(_, m'). Inr m'))"

definition Request_isValid :: "'j Message \<Rightarrow> bool" where
  "Request_isValid m \<longleftrightarrow> is_error (msg_err m) = False"

text \<open>\<open>errp\<close> is the value behind the pointer, \<open>None\<close> for a null pointer.\<close>

definition Request_decode ::
    "'j json_api \<Rightarrow> 'j Message \<Rightarrow> string \<Rightarrow> Error option \<Rightarrow> bool
      \<Rightarrow> ('j Message option \<times> Error option) run" where
  "Request_decode J u str errp keep_on_error =
     rbind (Request_of_string J u str) (\<lambda>ret.
     if Request_isValid ret then Inr (Some ret, errp)
     else Inr (if keep_on_error then Some ret else None, map_option (\<lambda>_. msg_err ret) errp))"

lemmas request_defs = Message_new_def Message_reset_def Message_refreshWith_def
  Request_refreshWith_def Request_of_string_def Request_isValid_def Request_decode_def

section \<open>Responses\<close>

record 'j Response =
  resp_msg :: "'j Message"
  response_data :: 'j

definition Response_new :: "'j json_api \<Rightarrow> 'j Message \<Rightarrow> Error \<Rightarrow> 'j Response" where
  "Response_new J req err =
     \<lparr>resp_msg = (if is_error err then req\<lparr>msg_err := err\<rparr> else req), response_data = j_null J\<rparr>"

definition setResponseData :: "'j \<Rightarrow> 'j Response \<Rightarrow> 'j Response" where
  "setResponseData rdata r = r\<lparr>response_data := rdata\<rparr>"

text \<open>\<open>(int)x\<close> of an unsigned long keeps the low 32 bits and reads them as signed.\<close>

definition int_of_ulong :: "64 word \<Rightarrow> int" where
  "int_of_ulong w = sint (ucast w :: 32 word)"

definition response_members :: "'j json_api \<Rightarrow> 'j Response \<Rightarrow> (string \<times> 'j) list" where
  "response_members J r =
     (let m = resp_msg r in
      [(CBSDKD_MSGFLD_CMD, j_str J (cmdstr (command m))),
       (CBSDKD_MSGFLD_REQID, j_int J (int_of_ulong (reqid m))),
       (CBSDKD_MSGFLD_HID, j_int J (int_of_ulong (handle_id m))),
       (CBSDKD_MSGFLD_RESDATA,
          if j_isNull J (response_data r) then j_object J else response_data r)] @
      (if is_error (msg_err m)
       then [(CBSDKD_MSGFLD_STATUS, j_int J (uint (code (msg_err m)))),
             (CBSDKD_MSGFLD_ERRSTR, j_str J (errstr (msg_err m)))]
       else [(CBSDKD_MSGFLD_STATUS, j_int J 0)]))"

definition response_root :: "'j json_api \<Rightarrow> 'j Response \<Rightarrow> 'j run" where
  "response_root J r = jset_all J (j_null J) (response_members J r)"

definition encode :: "'j json_api \<Rightarrow> 'j Response \<Rightarrow> string run" where
  "encode J r = rbind (response_root J r) (\<lambda>root. Inr (j_write J root))"

lemma settles_encode [simp, intro]: "settles (encode J r)"
  by (auto simp: encode_def response_root_def)

lemma int_of_ulong_small: "uint w < 2 ^ 31 \<Longrightarrow> int_of_ulong w = uint w"
proof -
  assume w: "uint w < 2 ^ 31"
  have "uint (ucast w :: 32 word) = uint w mod 2 ^ 32"
    by (simp add: unsigned_ucast_eq take_bit_eq_mod)
  also have "\<dots> = uint w"
    using w by simp
  finally have u: "uint (ucast w :: 32 word) = uint w" .
  have "sint (ucast w :: 32 word) = signed_take_bit 31 (uint (ucast w :: 32 word))"
    by (simp add: sint_uint)
  also have "\<dots> = uint w"
    unfolding u by (rule signed_take_bit_int_eq_self)
      (use w uint_ge_0 [of w] in \<open>simp_all, linarith?\<close>)
  finally show ?thesis by (simp add: int_of_ulong_def)
qed

lemma int_of_ulong_unat: "unat w < 2 ^ 31 \<Longrightarrow> int_of_ulong w = int (unat w)"
proof -
  assume "unat w < 2 ^ 31"
  then have "int (unat w) < int (2 ^ 31)" by (simp only: of_nat_less_iff)
  then have "uint w < 2 ^ 31" by (simp only: uint_nat of_nat_power of_nat_numeral)
  from int_of_ulong_small [OF this] show ?thesis by (simp only: uint_nat)
qed

lemma int_of_ulong_range: "- (2 ^ 31) \<le> int_of_ulong w \<and> int_of_ulong w < 2 ^ 31"
  using sint_ge [of "ucast w :: 32 word"] sint_lt [of "ucast w :: 32 word"]
  by (simp add: int_of_ulong_def)

context json_object
begin

lemma response_root_ok:
  obtains root where "response_root J r = Inr root"
    and "\<And>k x. map_of (rev (response_members J r)) k = Some x \<Longrightarrow> j_get J root k = Some x"
proof -
  obtain root where "jset_all J (j_null J) (response_members J r) = Inr root"
    and "\<And>k. j_get J root k = (case map_of (rev (response_members J r)) k of
           None \<Rightarrow> j_get J (j_null J) k | Some x \<Rightarrow> Some x)"
    using jset_all_ok [OF settable_null, of "response_members J r"] by blast
  then show thesis by (intro that [of root]) (simp_all only: response_root_def option.case)
qed

end

end
