(* ===== verification/Json_Ref.thy ===== *)
theory Json_Ref
  imports Json "HOL-Library.AList"
begin

text \<open>
  JSON values as a datatype, with the operations of the interface on them. The theorems about
  the program hold for any JSON library that keeps the laws of \<open>json_object\<close>; this one keeps
  them, and the examples evaluate on it. Parsing stays an argument.
\<close>

datatype jval =
    JNull
  | JBool bool
  | JInt int
  | JStr string
  | JArr "jval list"
  | JObj "(string \<times> jval) list"

definition jv_member :: "(string \<times> jval) list \<Rightarrow> string \<Rightarrow> jval" where
  "jv_member m k = (case map_of m k of None \<Rightarrow> JNull | Some v \<Rightarrow> v)"

fun jv_get :: "jval \<Rightarrow> string \<Rightarrow> jval option" where
  "jv_get JNull k = Some JNull"
| "jv_get (JObj m) k = Some (jv_member m k)"
| "jv_get _ k = None"

fun jv_at :: "jval \<Rightarrow> int \<Rightarrow> jval option" where
  "jv_at JNull i = (if i < 0 then None else Some JNull)"
| "jv_at (JArr xs) i = (if i < 0 then None else Some (if nat i < length xs then xs ! nat i else JNull))"
| "jv_at _ i = None"

text \<open>Objects keep their members in key order.\<close>

fun jv_insert :: "string \<Rightarrow> jval \<Rightarrow> (string \<times> jval) list \<Rightarrow> (string \<times> jval) list" where
  "jv_insert k x [] = [(k, x)]"
| "jv_insert k x ((k', v) # m) =
     (if k = k' then (k, x) # m else if k < k' then (k, x) # (k', v) # m
      else (k', v) # jv_insert k x m)"

fun jv_set :: "jval \<Rightarrow> string \<Rightarrow> jval \<Rightarrow> jval option" where
  "jv_set JNull k x = Some (JObj [(k, x)])"
| "jv_set (JObj m) k x = Some (JObj (if k \<in> fst ` set m then AList.update k x m else jv_insert k x m))"
| "jv_set _ k x = None"

fun jv_clear :: "jval \<Rightarrow> jval option" where
  "jv_clear JNull = Some JNull"
| "jv_clear (JArr _) = Some (JArr [])"
| "jv_clear (JObj _) = Some (JObj [])"
| "jv_clear _ = None"

fun jv_append :: "jval \<Rightarrow> jval \<Rightarrow> jval option" where
  "jv_append JNull x = Some (JArr [x])"
| "jv_append (JArr xs) x = Some (JArr (xs @ [x]))"
| "jv_append _ x = None"

fun jv_asString :: "jval \<Rightarrow> string option" where
  "jv_asString JNull = Some []"
| "jv_asString (JBool b) = Some (if b then ''true'' else ''false'')"
| "jv_asString (JInt i) = Some (int_to_string i)"
| "jv_asString (JStr s) = Some s"
| "jv_asString _ = None"

fun jv_asUInt :: "jval \<Rightarrow> 32 word option" where
  "jv_asUInt JNull = Some 0"
| "jv_asUInt (JBool b) = Some (if b then 1 else 0)"
| "jv_asUInt (JInt i) = (if 0 \<le> i \<and> i < 2 ^ 32 then Some (word_of_int i) else None)"
| "jv_asUInt _ = None"

fun jv_asInt :: "jval \<Rightarrow> int option" where
  "jv_asInt JNull = Some 0"
| "jv_asInt (JBool b) = Some (if b then 1 else 0)"
| "jv_asInt (JInt i) = (if - (2 ^ 31) \<le> i \<and> i < 2 ^ 31 then Some i else None)"
| "jv_asInt _ = None"

fun jv_asInt64 :: "jval \<Rightarrow> int option" where
  "jv_asInt64 JNull = Some 0"
| "jv_asInt64 (JBool b) = Some (if b then 1 else 0)"
| "jv_asInt64 (JInt i) = (if - (2 ^ 63) \<le> i \<and> i < 2 ^ 63 then Some i else None)"
| "jv_asInt64 _ = None"

fun jv_asUInt64 :: "jval \<Rightarrow> nat option" where
  "jv_asUInt64 JNull = Some 0"
| "jv_asUInt64 (JBool b) = Some (if b then 1 else 0)"
| "jv_asUInt64 (JInt i) = (if 0 \<le> i \<and> i < 2 ^ 64 then Some (nat i) else None)"
| "jv_asUInt64 _ = None"

fun jv_asCString :: "jval \<Rightarrow> string option" where
  "jv_asCString (JStr s) = Some s"
| "jv_asCString _ = None"

fun jv_truth :: "jval \<Rightarrow> bool" where
  "jv_truth JNull = False"
| "jv_truth (JBool b) = b"
| "jv_truth (JInt i) = (i \<noteq> 0)"
| "jv_truth (JStr s) = (s \<noteq> [])"
| "jv_truth (JArr xs) = (xs \<noteq> [])"
| "jv_truth (JObj m) = (m \<noteq> [])"

fun jv_asBool :: "jval \<Rightarrow> bool option" where
  "jv_asBool (JArr _) = None"
| "jv_asBool (JObj _) = None"
| "jv_asBool (JStr _) = None"
| "jv_asBool v = Some (jv_truth v)"

fun jv_isMember :: "jval \<Rightarrow> string \<Rightarrow> bool option" where
  "jv_isMember JNull k = Some False"
| "jv_isMember (JObj m) k = Some (k \<in> fst ` set m)"
| "jv_isMember _ k = None"

fun jv_size :: "jval \<Rightarrow> 32 word" where
  "jv_size (JArr xs) = word_of_nat (length xs)"
| "jv_size (JObj m) = word_of_nat (length m)"
| "jv_size _ = 0"

fun jv_elems :: "jval \<Rightarrow> jval list" where
  "jv_elems (JArr xs) = xs"
| "jv_elems (JObj m) = map snd m"
| "jv_elems _ = []"

definition jv_quote :: "string \<Rightarrow> string" where
  "jv_quote s = CHR 0x22 # json_escape s @ [CHR 0x22]"

text \<open>Joining with commas.\<close>

fun commas :: "string list \<Rightarrow> string" where
  "commas [] = []"
| "commas [s] = s"
| "commas (s # t # ss) = s @ '','' @ commas (t # ss)"

fun jv_text :: "jval \<Rightarrow> string" where
  "jv_text JNull = ''null''"
| "jv_text (JBool b) = (if b then ''true'' else ''false'')"
| "jv_text (JInt i) = int_to_string i"
| "jv_text (JStr s) = jv_quote s"
| "jv_text (JArr xs) = ''['' @ commas (map jv_text xs) @ '']''"
| "jv_text (JObj m) = ''{'' @ commas (map (\<lambda>(k, v). jv_quote k @ '':'' @ jv_text v) m) @ ''}''"

definition Jref_with :: "(string \<Rightarrow> string + jval) \<Rightarrow> jval json_api" where
  "Jref_with parse = \<lparr>
     j_null = JNull, j_object = JObj [], j_array = JArr [],
     j_str = JStr, j_int = JInt, j_bool = JBool,
     j_get = jv_get, j_at = jv_at, j_set = jv_set, j_clear = jv_clear, j_append = jv_append,
     j_asString = jv_asString, j_asUInt = jv_asUInt, j_asInt = jv_asInt,
     j_asInt64 = jv_asInt64, j_asUInt64 = jv_asUInt64, j_asCString = jv_asCString, j_asBool = jv_asBool,
     j_truth = jv_truth, j_isNull = (\<lambda>v. v = JNull),
     j_isArray = (\<lambda>v. case v of JArr _ \<Rightarrow> True | _ \<Rightarrow> False),
     j_isObject = (\<lambda>v. case v of JObj _ \<Rightarrow> True | _ \<Rightarrow> False),
     j_isString = (\<lambda>v. case v of JStr _ \<Rightarrow> True | _ \<Rightarrow> False),
     j_isUInt = (\<lambda>v. case v of JInt i \<Rightarrow> 0 \<le> i \<and> i < 2 ^ 32 | _ \<Rightarrow> False),
     j_isMember = jv_isMember, j_size = jv_size, j_elems = jv_elems,
     j_write = (\<lambda>v. jv_text v @ [CHR 0x0A]), j_parse = parse\<rparr>"

definition Jref :: "jval json_api" where
  "Jref = Jref_with (\<lambda>s. Inl ''* Line 1, Column 1'')"

lemma map_of_jv_insert: "k \<notin> fst ` set m \<Longrightarrow> map_of (jv_insert k x m) = (map_of m)(k \<mapsto> x)"
  by (induction k x m rule: jv_insert.induct) auto

lemma jv_member_insert:
  "k \<notin> fst ` set m \<Longrightarrow> jv_member (jv_insert k x m) k' = (if k' = k then x else jv_member m k')"
  by (simp add: jv_member_def map_of_jv_insert)

lemma jv_member_update: "jv_member (AList.update k x m) k' = (if k' = k then x else jv_member m k')"
  by (simp add: jv_member_def update_conv')

lemma jv_get_set:
  assumes "jv_set v k x = Some v'"
  shows "jv_get v' k' = (if k' = k then Some x else jv_get v k')"
proof (cases v)
  case JNull
  with assms show ?thesis by (auto simp: jv_member_def)
next
  case (JObj m)
  show ?thesis
  proof (cases "k \<in> fst ` set m")
    case True
    with JObj assms have "v' = JObj (AList.update k x m)" by simp
    with JObj show ?thesis by (simp add: jv_member_update)
  next
    case False
    with JObj assms have "v' = JObj (jv_insert k x m)" by simp
    with JObj False show ?thesis by (simp add: jv_member_insert)
  qed
qed (use assms in simp_all)

interpretation Jref: json_object "Jref_with parse" for parse
proof unfold_locales
  fix v v' k x
  assume "j_isObject (Jref_with parse) v"
  then show "\<exists>v'. j_set (Jref_with parse) v k x = Some v'"
    by (cases v) (simp_all add: Jref_with_def)
next
  fix v v' k x
  assume "j_set (Jref_with parse) v k x = Some v'"
  then show "j_isObject (Jref_with parse) v'"
    by (cases v) (auto simp: Jref_with_def)
next
  fix v v' k x k'
  assume "j_set (Jref_with parse) v k x = Some v'"
  then show "j_get (Jref_with parse) v' k' = (if k' = k then Some x else j_get (Jref_with parse) v k')"
    using jv_get_set by (simp add: Jref_with_def)
qed (simp_all add: Jref_with_def jv_member_def)

interpretation Jref_array: json_array "Jref_with parse" for parse
proof unfold_locales
  fix v x
  assume "j_isArray (Jref_with parse) v"
  then show "\<exists>v'. j_append (Jref_with parse) v x = Some v' \<and> j_isArray (Jref_with parse) v' \<and>
      j_elems (Jref_with parse) v' = j_elems (Jref_with parse) v @ [x]"
    by (cases v) (simp_all add: Jref_with_def)
qed (simp_all add: Jref_with_def)

lemma Jref_object: "json_object Jref"
  unfolding Jref_def by unfold_locales

lemma Jref_array: "json_array Jref"
  unfolding Jref_def by unfold_locales

end
