(* ===== verification/Protocol.thy ===== *)
theory Protocol
  imports Messages Json_Ref
begin

text \<open>
  What the messages promise: the command table and its inverse, what \<open>Request::decode\<close> accepts
  and what it reports, what a response carries back of its request, and how an error code is
  taken apart.
\<close>

section \<open>Reading a request\<close>

text \<open>A text that parses to an object with the four members the program reads.\<close>

definition request_text ::
    "'j json_api \<Rightarrow> string \<Rightarrow> 32 word \<Rightarrow> 32 word \<Rightarrow> string \<Rightarrow> 'j \<Rightarrow> bool" where
  "request_text J str r h c d \<longleftrightarrow>
     (case j_parse J str of
        Inl msg \<Rightarrow> False
      | Inr json \<Rightarrow>
          juint J json CBSDKD_MSGFLD_REQID = Inr r \<and>
          juint J json CBSDKD_MSGFLD_HID = Inr h \<and>
          jstr J json CBSDKD_MSGFLD_CMD = Inr c \<and>
          jfield J json CBSDKD_MSGFLD_REQDATA = Inr d)"

definition request_of :: "32 word \<Rightarrow> 32 word \<Rightarrow> string \<Rightarrow> 'j \<Rightarrow> Error \<Rightarrow> 'j Message" where
  "request_of r h c d e = \<lparr>reqid = ucast r, handle_id = ucast h,
     command = Command_of_string c, payload = d, msg_err = e\<rparr>"

lemma Request_of_string_text:
  assumes "request_text J str r h c d"
  shows "Request_of_string J u str = Inr (request_of r h c d
    (if j_isNull J d then Error_of SUBSYSf_SDKD SDKD_EINVAL ''Couldn't find CommandData ''
     else Error_new))"
  using assms
  by (cases "j_parse J str")
    (auto simp: request_text_def request_of_def request_defs Let_def)

lemma Request_of_string_bad:
  assumes "j_parse J str = Inl msg"
  shows "\<exists>m. Request_of_string J u str = Inr m \<and> msg_err m = Error_of SUBSYSf_SDKD SDKD_EINVAL msg"
  using assms by (simp add: request_defs)

lemma invalid_code [simp]: "is_error (Error_of SUBSYSf_SDKD SDKD_EINVAL s)"
  by (simp add: is_error_Error_of)

lemma foldl_match:
  "foldl (\<lambda>s c'. if c = c' then f c' else s) d xs = (if c \<in> set xs then f c else d)"
  by (induction xs arbitrary: d) auto

lemma int_of_ulong_ucast: "int_of_ulong (ucast (r :: 32 word)) = sint r"
proof -
  have "(ucast (ucast r :: 64 word) :: 32 word) = r"
    by (rule bit_word_eqI) (simp add: bit_ucast_iff)
  then show ?thesis by (simp add: int_of_ulong_def)
qed

lemma sint_upper_half:
  fixes r :: "32 word"
  assumes "2 ^ 31 \<le> uint r"
  shows "sint r = uint r - 2 ^ 32"
proof -
  have lt: "uint r < 2 ^ 32" using uint_lt2p [of r] by simp
  with assms have "uint r div 2 ^ 31 = 1" by (intro int_div_pos_eq [where r = "uint r - 2 ^ 31"]) auto
  then have "bit (uint r) 31" by (simp add: bit_iff_odd)
  then have "sint r = take_bit 32 (uint r) - 2 ^ 32"
    by (simp add: sint_uint signed_take_bit_eq_take_bit_minus)
  moreover have "take_bit 32 (uint r) = uint r" using lt by (simp add: take_bit_int_eq_self)
  ultimately show ?thesis by simp
qed

text \<open>The same request text in a JSON library that parses one text only.\<close>

definition example_json :: jval where
  "example_json = JObj [(''Command'', JStr ''CANCEL''), (''CommandData'', JObj []),
     (''Handle'', JInt 7), (''ReqID'', JInt 12)]"

definition Jexample :: "jval json_api" where
  "Jexample = Jref_with (\<lambda>s. if s = ''req'' then Inr example_json else Inl ''bad'')"

lemma Jexample_object: "json_object Jexample"
  unfolding Jexample_def by unfold_locales

section \<open>Properties\<close>

text \<open>
  The command table is a bijection between the listed codes and their names: building a
  command from a listed code and reading its name back gives the same command, and a string
  gets the code it names, or the invalid code when no listed code has that name.
\<close>

theorem command_table:
  "map (\<lambda>c. Command_of_string (cmdstr (Command_of_code c))) XCOMMAND = map Command_of_code XCOMMAND \<and>
   map (\<lambda>c. cmd_code (Command_of_code c)) XCOMMAND = XCOMMAND \<and>
   (cmd_code (Command_of_string s) = INVALID_COMMAND \<longleftrightarrow> s \<notin> code_name ` set XCOMMAND)"
proof (intro conjI)
  have "cmdstr (Command_of_code c) = code_name c" if "c \<in> set XCOMMAND" for c
    using that by (simp add: Command_of_code_def foldl_match)
  moreover have "cmd_code (Command_of_code c) = c" for c
    by (simp add: Command_of_code_def)
  ultimately show "map (\<lambda>c. Command_of_string (cmdstr (Command_of_code c))) XCOMMAND
      = map Command_of_code XCOMMAND"
    by (intro map_cong refl) (auto intro!: Command.equality)
qed (simp_all add: Command_of_code_def Command_of_string_unknown)

text \<open>
  Decoding a request that parses gives its fields exactly when it has command data; without
  command data the caller gets no request and the invalid-input code, or the invalid request
  itself when it asked to keep it.
\<close>

theorem decode_outcome:
  assumes "request_text J str r h c d"
  shows "Request_decode J u str (Some e0) keep =
    (if j_isNull J d
     then let e = Error_of SUBSYSf_SDKD SDKD_EINVAL ''Couldn't find CommandData ''
          in Inr (if keep then Some (request_of r h c d e) else None, Some e)
     else Inr (Some (request_of r h c d Error_new), Some e0))"
  using Request_of_string_text [OF assms, of u]
  by (simp add: Request_decode_def Request_isValid_def request_of_def Let_def)

theorem decode_outcome_witness:
  "\<forall>u. Request_decode Jexample u ''req'' (Some Error_new) False =
    Inr (Some (request_of 12 7 ''CANCEL'' (JObj []) Error_new), Some Error_new)"
proof (rule allI)
  fix u
  have "request_text Jexample ''req'' 12 7 ''CANCEL'' (JObj [])"
    by (simp add: request_text_def Jexample_def Jref_with_def example_json_def json_read_defs
        jv_member_def)
  from decode_outcome [OF this, of u Error_new False]
  show "Request_decode Jexample u ''req'' (Some Error_new) False =
      Inr (Some (request_of 12 7 ''CANCEL'' (JObj []) Error_new), Some Error_new)"
    by (simp add: Jexample_def Jref_with_def)
qed

text \<open>
  A text that is not JSON never becomes a request: the caller gets the invalid-input code
  with the parser's message, for any contents the members had before.
\<close>

theorem decode_rejects:
  assumes "j_parse J str = Inl msg"
  shows "Request_decode J u str (Some e0) False =
    Inr (None, Some (Error_of SUBSYSf_SDKD SDKD_EINVAL msg))"
  using Request_of_string_bad [OF assms, of u]
  by (auto simp: Request_decode_def Request_isValid_def)

theorem decode_rejects_witness:
  "Request_decode Jexample u ''{'' (Some Error_new) False =
    Inr (None, Some (Error_of SUBSYSf_SDKD SDKD_EINVAL ''bad''))"
  by (rule decode_rejects) (simp add: Jexample_def Jref_with_def)

text \<open>
  A response can always be written, and it carries the command name of its request, the
  status of the error it was given (0 when there is none), and the request and handle numbers
  when they are below \<open>2^31\<close>; its data member is an object even when no data was set.
\<close>

theorem response_echo:
  assumes "json_object J" and "msg_err req = Error_new"
    and "uint (reqid req) < 2 ^ 31" and "uint (handle_id req) < 2 ^ 31"
  shows "\<exists>root. response_root J (Response_new J req err) = Inr root \<and>
    j_get J root CBSDKD_MSGFLD_CMD = Some (j_str J (cmdstr (command req))) \<and>
    j_get J root CBSDKD_MSGFLD_REQID = Some (j_int J (uint (reqid req))) \<and>
    j_get J root CBSDKD_MSGFLD_HID = Some (j_int J (uint (handle_id req))) \<and>
    j_get J root CBSDKD_MSGFLD_STATUS = Some (j_int J (uint (code err))) \<and>
    j_get J root CBSDKD_MSGFLD_RESDATA = Some (j_object J)"
proof -
  let ?r = "Response_new J req err"
  obtain root where root: "response_root J ?r = Inr root"
    and get: "\<And>k x. map_of (rev (response_members J ?r)) k = Some x \<Longrightarrow> j_get J root k = Some x"
    using json_object.response_root_ok [OF assms(1), of ?r] by blast
  have null: "j_isNull J (j_null J)"
    using json_object.isNull_null [OF assms(1)] by blast
  note ints = int_of_ulong_small [OF assms(3)] int_of_ulong_small [OF assms(4)]
  show ?thesis
    by (intro exI [of _ root] conjI root get)
      (simp_all add: response_members_def Response_new_def assms(2) ints null Let_def
        is_error_def Error_new_def)
qed

theorem response_echo_witness:
  "\<exists>root. response_root Jexample (Response_new Jexample
      (request_of 12 7 ''CANCEL'' (JObj []) Error_new) Error_new) = Inr root \<and>
    j_get Jexample root ''ReqID'' = Some (JInt 12) \<and> j_get Jexample root ''Status'' = Some (JInt 0)"
proof -
  have int: "j_int Jexample = JInt" by (simp add: Jexample_def Jref_with_def)
  show ?thesis
    using response_echo [OF Jexample_object, of "request_of 12 7 ''CANCEL'' (JObj []) Error_new" Error_new]
    by (auto simp: request_of_def int Error_new_def)
qed

text \<open>
  A request number of \<open>2^31\<close> or more, which the parser accepts, is answered with a negative
  number.
\<close>

theorem response_reqid_wraps:
  assumes "json_object J" and "2 ^ 31 \<le> uint r"
  shows "\<exists>root. response_root J (Response_new J (request_of r h c d e) err) = Inr root \<and>
    j_get J root CBSDKD_MSGFLD_REQID = Some (j_int J (uint r - 2 ^ 32)) \<and> uint r - 2 ^ 32 < 0"
proof -
  let ?r = "Response_new J (request_of r h c d e) err"
  obtain root where root: "response_root J ?r = Inr root"
    and get: "\<And>k x. map_of (rev (response_members J ?r)) k = Some x \<Longrightarrow> j_get J root k = Some x"
    using json_object.response_root_ok [OF assms(1), of ?r] by blast
  have lt: "uint r < 2 ^ 32" using uint_lt2p [of r] by simp
  have "int_of_ulong (ucast r) = uint r - 2 ^ 32"
    using sint_upper_half [OF assms(2)] by (simp only: int_of_ulong_ucast)
  then have "j_get J root CBSDKD_MSGFLD_REQID = Some (j_int J (uint r - 2 ^ 32))"
    by (intro get) (simp add: response_members_def Response_new_def request_of_def Let_def)
  with root lt show ?thesis by auto
qed

theorem response_reqid_wraps_witness:
  "\<exists>root. response_root Jexample (Response_new Jexample
      (request_of 0x80000000 0 [] (JObj []) Error_new) Error_new) = Inr root \<and>
    j_get Jexample root ''ReqID'' = Some (j_int Jexample (- 2147483648))"
  using response_reqid_wraps [OF Jexample_object, where r = "0x80000000" and h = 0 and c = "[]"
      and d = "JObj []" and e = Error_new and err = Error_new]
  by auto

text \<open>
  An error built from a subsystem below 256 and a minor code that leaves the low byte free
  prints both parts back unchanged, and counts as an error unless both are zero.
\<close>

theorem error_parts:
  assumes "s AND 0xff = s" and "m AND 0xff = 0"
  shows "prettyPrint (Error_of s m t) =
      ''Subsystem: '' @ nat_to_string (unat s) @ '', Code: '' @ nat_to_string (unat (drop_bit 8 m))
        @ '', Desc: '' @ t \<and>
    (is_error (Error_of s m t) \<longleftrightarrow> s \<noteq> 0 \<or> m \<noteq> 0)"
  using subsys_of_code [OF assms] minor_of_code [OF assms(1), of m]
  by (simp add: prettyPrint_def Error_of_def is_error_Error_of [unfolded Error_of_def])

theorem error_parts_witness:
  "prettyPrint (Error_of SUBSYSf_SDKD SDKD_ENODS ''x'') = ''Subsystem: 32, Code: 5, Desc: x''"
proof -
  have "nat_to_string 32 = ''32''" "nat_to_string 5 = ''5''" by code_simp+
  then show ?thesis using error_parts [of SUBSYSf_SDKD SDKD_ENODS "''x''"] by (simp add: drop_bit_eq_div)
qed

text \<open>
  Clearing an error makes it no error but keeps its text, because the assignment of the
  literal 0 selects the integer operator; the operator for codes would empty the text.
\<close>

theorem clear_keeps_text:
  "\<not> is_error (clear_error e) \<and> errstr (clear_error e) = errstr e \<and>
   errstr (assign_code SUCCESS e) = []"
  by (simp add: error_defs)

end
