(* ===== verification/HandleOpts.thy ===== *)
theory HandleOpts
  imports Messages
begin

text \<open>
  The connection options of a handle (\<open>HandleOptions\<close> in \<open>src/Handle.h\<close>), read from the data of
  the request that opens it. Members the constructor does not set are what the memory held
  before, the argument \<open>u\<close>. Writing the certificate file is an effect on the file system: \<open>path\<close>
  is the name \<open>mktemp\<close> gives, \<open>None\<close> when it fails.
\<close>

record HandleOptions =
  hostname :: string
  username :: string
  password :: string
  bucket :: string
  useSSL :: bool
  useCollections :: bool
  certpath :: string
  timeout :: "64 word"
  scopes :: "64 word"
  collections :: "64 word"

text \<open>
  \<open>getExtraHosts\<close>: the answer and the string behind \<open>extras\<close>, which an early refusal leaves half
  filled. A separator follows every element, also one that is neither string nor array.
\<close>

fun extra_hosts :: "'j json_api \<Rightarrow> 'j list \<Rightarrow> string \<Rightarrow> (bool \<times> string) run" where
  "extra_hosts J [] extras = Inr (True, extras)"
| "extra_hosts J (curbu # rest) extras =
     (if j_isString J curbu then
        rbind (jasString J curbu) (\<lambda>s. extra_hosts J rest (extras @ s @ '';''))
      else if j_isArray J curbu then
        if 2 < j_size J curbu then Inr (False, extras)
        else rbind (jitem J curbu 0) (\<lambda>h.
          if \<not> j_isString J h then Inr (False, extras)
          else rbind (jasString J h) (\<lambda>s. extra_hosts J rest (extras @ s @ '';'')))
      else extra_hosts J rest (extras @ '';''))"

definition getExtraHosts :: "'j json_api \<Rightarrow> 'j \<Rightarrow> string \<Rightarrow> (bool \<times> string) run" where
  "getExtraHosts J opts extras =
     rbind (jfield J opts CBSDKD_MSGFLD_HANDLE_OPT_BACKUPS) (\<lambda>jothers.
     if j_isNull J jothers then Inr (True, extras)
     else if \<not> j_isArray J jothers then Inr (False, extras)
     else extra_hosts J (j_elems J jothers) extras)"

definition add_hosts :: "string \<Rightarrow> string \<Rightarrow> string" where
  "add_hosts host extra =
     (if extra \<noteq> [] then (if host \<noteq> [] then host @ '','' else host) @ extra else host)"

definition HandleOptions_new ::
    "'j json_api \<Rightarrow> string option \<Rightarrow> HandleOptions \<Rightarrow> 'j \<Rightarrow> HandleOptions run" where
  "HandleOptions_new J path u json =
     rbind (jstr J json CBSDKD_MSGFLD_HANDLE_HOSTNAME) (\<lambda>host.
     rbind (jstr J json CBSDKD_MSGFLD_HANDLE_BUCKET) (\<lambda>buck.
     let o0 = u\<lparr>hostname := host, username := [], password := [], bucket := buck, certpath := []\<rparr> in
     rbind (jfield J json CBSDKD_MSGFLD_HANDLE_OPTIONS) (\<lambda>opts.
     if \<not> j_isObject J opts then Inr (o0\<lparr>timeout := 0\<rparr>) else
     rbind (getExtraHosts J opts []) (\<lambda>(ok, extra).
     if \<not> ok then Inr (o0\<lparr>hostname := []\<rparr>) else
     rbind (juint J opts CBSDKD_MSGFLD_HANDLE_OPT_TMO) (\<lambda>tmo.
     rbind (jstr J opts CBSDKD_MSGFLD_HANDLE_USERNAME) (\<lambda>user.
     rbind (jstr J opts CBSDKD_MSGFLD_HANDLE_PASSWORD) (\<lambda>pass.
     rbind (jbool J opts CBSDKD_MSGFLD_HANDLE_OPT_SSL) (\<lambda>ssl.
     rbind (jstr J json CBSDKD_MSGFLD_HANDLE_COLLECTIONS_TYPE) (\<lambda>ctype.
     rbind (juint J json CBSDKD_MSGFLD_HANDLE_SCOPES) (\<lambda>sc.
     rbind (juint J json CBSDKD_MSGFLD_HANDLE_COLLECTIONS) (\<lambda>co.
     let o1 = o0\<lparr>hostname := add_hosts host extra, timeout := ucast tmo, username := user,
                password := pass, useSSL := ssl, useCollections := (ctype = ''many''),
                scopes := ucast sc, collections := ucast co\<rparr> in
     if \<not> ssl then Inr o1 else
     rbind (jstr J opts CBSDKD_MSGFLD_HANDLE_OPT_CLUSTERCERT) (\<lambda>cert.
     rbind (require (length cert \<noteq> 0) (Exited 1)) (\<lambda>_.
     case path of
       None \<Rightarrow> Inl (Exited 1)
     | Some p \<Rightarrow>
         let o2 = o1\<lparr>certpath := p\<rparr>
         in rbind (require (length (certpath o2) \<noteq> 0) (Exited 1)) (\<lambda>_. Inr o2))))))))))))))"

definition HandleOptions_isValid :: "HandleOptions \<Rightarrow> bool" where
  "HandleOptions_isValid opts \<longleftrightarrow> length (hostname opts) \<noteq> 0 \<and> length (bucket opts) \<noteq> 0"

lemma settles_extra_hosts [simp, intro]: "settles (extra_hosts J xs s)"
proof (induction xs arbitrary: s)
  case Nil
  then show ?case by simp
next
  case (Cons x xs)
  then show ?case by auto
qed

end
