(* ===== verification/SingleFloat.thy ===== *)
theory SingleFloat
  imports Prelude Complex_Main
begin

text \<open>
  Single precision arithmetic, as far as \<open>Handle::getCollection\<close> uses it: the number nearest to a
  positive rational with a significand of 24 bits, ties to even. The range of the exponent is
  not limited, which makes no difference for quotients of 64-bit integers.
\<close>

definition round_even :: "rat \<Rightarrow> int" where
  "round_even y =
     (let n = \<lfloor>y\<rfloor>; d = y - of_int n
      in if d < 1/2 then n else if 1/2 < d then n + 1 else if even n then n else n + 1)"

fun bit_length :: "nat \<Rightarrow> nat" where
  "bit_length n = (if n = 0 then 0 else Suc (bit_length (n div 2)))"

declare bit_length.simps [simp del]

text \<open>The exponent of the leading bit.\<close>

definition float_exp :: "rat \<Rightarrow> int" where
  "float_exp x =
     (let (p, q) = quotient_of x; e = int (bit_length (nat p)) - int (bit_length (nat q))
      in if 2 powi e \<le> x then e else e - 1)"

definition to_single :: "rat \<Rightarrow> rat" where
  "to_single x =
     (if x = 0 then 0
      else let e = float_exp x - 23 in of_int (round_even (x / 2 powi e)) * 2 powi e)"

definition single_div :: "rat \<Rightarrow> rat \<Rightarrow> rat" where
  "single_div a b = to_single (a / b)"

section \<open>Rounding\<close>

lemma round_even_int [simp]: "round_even (of_int n) = n"
  by (simp add: round_even_def)

lemma round_even_error: "\<bar>of_int (round_even y) - y\<bar> \<le> 1/2"
proof -
  have "of_int \<lfloor>y\<rfloor> \<le> y" "y < of_int \<lfloor>y\<rfloor> + 1" by linarith+
  then show ?thesis by (auto simp: round_even_def Let_def abs_le_iff)
qed

lemma round_even_ge: "of_int n \<le> y \<Longrightarrow> n \<le> round_even y"
proof -
  assume "of_int n \<le> y"
  then have "n \<le> \<lfloor>y\<rfloor>" by (simp add: le_floor_iff)
  then show ?thesis by (auto simp: round_even_def Let_def)
qed

section \<open>The exponent\<close>

lemma bit_length_bounds: "n < 2 ^ bit_length n \<and> (0 < n \<longrightarrow> 2 ^ (bit_length n - 1) \<le> n)"
proof (induction n rule: bit_length.induct)
  case (1 n)
  show ?case
  proof (cases "n = 0")
    case True
    then show ?thesis by (simp add: bit_length.simps)
  next
    case False
    then have IH: "n div 2 < 2 ^ bit_length (n div 2)"
      "0 < n div 2 \<Longrightarrow> 2 ^ (bit_length (n div 2) - 1) \<le> n div 2"
      using "1" by auto
    have b: "bit_length n = Suc (bit_length (n div 2))"
      using False by (simp add: bit_length.simps [of n])
    have "2 ^ bit_length (n div 2) \<le> n"
    proof (cases "n div 2 = 0")
      case True
      then show ?thesis using False by (simp add: bit_length.simps [of 0])
    next
      case nz: False
      then have "bit_length (n div 2) = Suc (bit_length (n div 2) - 1)"
        by (simp add: bit_length.simps [of "n div 2"])
      then have "2 ^ bit_length (n div 2) = 2 * (2::nat) ^ (bit_length (n div 2) - 1)"
        by (metis power_Suc)
      with IH(2) nz show ?thesis by simp
    qed
    with IH(1) b show ?thesis by auto
  qed
qed

lemma float_exp_le:
  assumes "0 < x"
  shows "2 powi float_exp x \<le> x"
proof -
  obtain p q where pq: "quotient_of x = (p, q)" by (cases "quotient_of x")
  have q: "0 < q" using quotient_of_denom_pos [OF pq] .
  have x: "x = of_int p / of_int q" using quotient_of_div [OF pq] .
  then have p: "0 < p" using assms q by (simp add: zero_less_divide_iff)
  define bp bq where "bp = bit_length (nat p)" and "bq = bit_length (nat q)"
  show ?thesis
  proof (cases "2 powi (int bp - int bq) \<le> x")
    case True
    then show ?thesis by (simp add: float_exp_def pq bp_def bq_def)
  next
    case False
    have "2 ^ (bp - 1) \<le> nat p" using bit_length_bounds [of "nat p"] p by (simp add: bp_def)
    then have "int (2 ^ (bp - 1)) \<le> p" using p by linarith
    then have lo: "(2::rat) ^ (bp - 1) \<le> of_int p"
      by (metis of_int_le_iff of_int_of_nat_eq of_nat_numeral of_nat_power)
    have "nat q < 2 ^ bq" using bit_length_bounds [of "nat q"] by (simp add: bq_def)
    then have "q \<le> int (2 ^ bq)" using q by linarith
    then have hi: "of_int q \<le> (2::rat) ^ bq"
      by (metis of_int_le_iff of_int_of_nat_eq of_nat_numeral of_nat_power)
    have "1 \<le> bp" using p by (simp add: bp_def bit_length.simps [of "nat p"])
    then have "2 powi (int bp - int bq - 1) = (2::rat) ^ (bp - 1) / 2 ^ bq"
      by (simp add: power_int_diff of_nat_diff power_int_of_nat [symmetric] del: power_int_of_nat)
    also have "\<dots> \<le> x" unfolding x using lo hi q p by (intro frac_le) auto
    finally show ?thesis using False by (simp add: float_exp_def pq bp_def bq_def)
  qed
qed

lemma float_exp_small:
  assumes "0 < x" and "x < 2 ^ 24"
  shows "float_exp x - 23 \<le> 0"
proof -
  have "(2::rat) powi float_exp x < 2 powi 24"
    using float_exp_le [OF assms(1)] assms(2) by simp
  then have "\<not> 24 \<le> float_exp x"
    using power_int_increasing [of 24 "float_exp x" "2::rat"] by auto
  then show ?thesis by simp
qed

lemma pow_neg_int: "e \<le> 0 \<Longrightarrow> of_int n / (2::rat) powi e = of_int (n * 2 ^ nat (- e))"
  by (simp add: power_int_def field_simps)

section \<open>What rounding keeps\<close>

lemma to_single_nat:
  assumes "n < 2 ^ 24"
  shows "to_single (of_nat n) = of_nat n"
proof (cases "n = 0")
  case True
  then show ?thesis by (simp add: to_single_def)
next
  case False
  define e where "e = float_exp (of_nat n) - 23"
  have "(of_nat n :: rat) < of_nat (2 ^ 24)" using assms by (simp only: of_nat_less_iff)
  then have "e \<le> 0" unfolding e_def using False by (intro float_exp_small) simp_all
  then have "of_int (int n) / (2::rat) powi e = of_int (int n * 2 ^ nat (- e))" by (rule pow_neg_int)
  then have "of_int (round_even (of_nat n / 2 powi e)) = (of_nat n / 2 powi e :: rat)"
    by (simp only: of_int_of_nat_eq) (metis round_even_int)
  then show ?thesis using False by (simp add: to_single_def e_def [symmetric])
qed

lemma to_single_ge:
  assumes "0 < x" and "x < 2 ^ 24" and "of_nat k \<le> x"
  shows "of_nat k \<le> to_single x"
proof -
  define e where "e = float_exp x - 23"
  have pos: "(0::rat) < 2 powi e" by simp
  have "e \<le> 0" unfolding e_def by (rule float_exp_small [OF assms(1,2)])
  then have k: "of_int (int k) / (2::rat) powi e = of_int (int k * 2 ^ nat (- e))" by (rule pow_neg_int)
  have "of_int (int k) / 2 powi e \<le> x / 2 powi e"
    using assms(3) pos by (simp add: divide_right_mono)
  then have "int k * 2 ^ nat (- e) \<le> round_even (x / 2 powi e)"
    unfolding k by (rule round_even_ge)
  then have "of_int (int k) / 2 powi e \<le> (of_int (round_even (x / 2 powi e)) :: rat)"
    unfolding k by (simp only: of_int_le_iff)
  then have "of_nat k \<le> of_int (round_even (x / 2 powi e)) * (2::rat) powi e"
    using pos by (simp add: divide_le_eq)
  then show ?thesis using assms(1) by (simp add: to_single_def e_def [symmetric])
qed

lemma to_single_error:
  assumes "0 < x"
  shows "\<bar>to_single x - x\<bar> \<le> x / 2 ^ 24"
proof -
  define e where "e = float_exp x - 23"
  have pos: "(0::rat) < 2 powi e" by simp
  have "to_single x - x = (of_int (round_even (x / 2 powi e)) - x / 2 powi e) * 2 powi e"
    using assms by (simp add: to_single_def e_def [symmetric] left_diff_distrib)
  then have "\<bar>to_single x - x\<bar> = \<bar>of_int (round_even (x / 2 powi e)) - x / 2 powi e\<bar> * 2 powi e"
    using pos by (simp add: abs_mult)
  also have "\<dots> \<le> 1/2 * 2 powi e"
    using pos round_even_error by (intro mult_right_mono) auto
  also have "\<dots> = 2 powi float_exp x / 2 ^ 24"
    by (simp add: e_def power_int_diff)
  also have "\<dots> \<le> x / 2 ^ 24"
    using float_exp_le [OF assms] by (simp add: divide_right_mono)
  finally show ?thesis .
qed

text \<open>
  Dividing two integers in single precision and rounding down is the integer division, when
  the dividend has at most three digits.
\<close>

lemma floor_single_div:
  assumes "a < 1000" and "0 < b"
  shows "\<lfloor>single_div (to_single (of_nat a)) (to_single (of_nat b))\<rfloor> = int (a div b)"
proof (cases "a = 0")
  case True
  then show ?thesis by (simp add: single_div_def to_single_def)
next
  case a: False
  have fa: "to_single (of_nat a) = of_nat a" using assms(1) by (intro to_single_nat) simp
  show ?thesis
  proof (cases "b < 2 ^ 24")
    case True
    have fb: "to_single (of_nat b) = of_nat b" by (rule to_single_nat [OF True])
    define x where "x = (of_nat a / of_nat b :: rat)"
    define k where "k = a div b"
    have b: "(0::rat) < of_nat b" using assms(2) by simp
    have x0: "0 < x" using a b by (simp add: x_def)
    have "(of_nat a :: rat) * 1 \<le> of_nat a * of_nat b"
      using assms(2) by (intro mult_left_mono) (simp_all add: Suc_le_eq)
    then have "x \<le> of_nat a" using b by (simp add: x_def divide_le_eq)
    also have "(of_nat a :: rat) < 1000" using assms(1) by simp
    finally have x1: "x < 1000" .
    have "k * b \<le> a" by (simp add: k_def)
    then have "(of_nat (k * b) :: rat) \<le> of_nat a" by (simp only: of_nat_le_iff)
    then have lo: "of_nat k \<le> x" using b by (simp add: x_def le_divide_eq)
    have "a + 1 \<le> (k + 1) * b"
      using assms(2) by (simp add: k_def) (metis add.commute dividend_less_div_times less_eq_Suc_le)
    then have "(of_nat (a + 1) :: rat) \<le> of_nat ((k + 1) * b)" by (simp only: of_nat_le_iff)
    then have hi: "x + 1 / of_nat b \<le> of_nat k + 1"
      using b by (simp add: x_def add_divide_distrib [symmetric] divide_le_eq algebra_simps)
    have "x / 2 ^ 24 < 1 / of_nat b"
    proof -
      have "(of_nat a :: rat) < 2 ^ 24" using \<open>(of_nat a :: rat) < 1000\<close> by simp
      then show ?thesis using b by (simp add: x_def divide_simps)
    qed
    then have "to_single x < of_nat k + 1"
      using to_single_error [OF x0] hi by linarith
    moreover have "of_nat k \<le> to_single x"
      using x0 x1 lo by (intro to_single_ge) simp_all
    ultimately show ?thesis
      unfolding fa fb single_div_def x_def [symmetric] k_def [symmetric] by (intro floor_unique) simp_all
  next
    case False
    define c where "c = to_single (of_nat b)"
    have "(of_nat (2 ^ 24) :: rat) \<le> of_nat b" using False by (simp only: of_nat_le_iff)
    then have big: "(16777216 :: rat) \<le> of_nat b" by (simp only: of_nat_power of_nat_numeral) simp
    have "\<bar>c - of_nat b\<bar> \<le> of_nat b / 2 ^ 24"
      unfolding c_def using assms(2) by (intro to_single_error) simp
    then have "of_nat b - c \<le> of_nat b / 16777216" by (simp only: abs_le_iff) simp
    with big have c: "2000 \<le> c" by linarith
    define x where "x = of_nat a / c"
    have x0: "0 < x" using a c by (simp add: x_def)
    have a1: "(of_nat a :: rat) < 1000" using assms(1) by simp
    then have x1: "x < 1/2" using c by (simp add: x_def divide_less_eq)
    have "to_single x - x \<le> x / 16777216"
      using to_single_error [OF x0] by (simp only: abs_le_iff) simp
    with x0 x1 have "to_single x < 1" by linarith
    moreover have "of_nat 0 \<le> to_single x" using x0 x1 by (intro to_single_ge) simp_all
    moreover have "a div b = 0" using False assms(1) by simp
    ultimately show ?thesis
      unfolding fa single_div_def c_def [symmetric] x_def [symmetric] by (simp add: floor_eq_iff)
  qed
qed

end
