(* ===== verification/Results.thy ===== *)
theory Results
  imports Messages "HOL-Library.Signed_Division"
begin

text \<open>
  The results of a request (\<open>src/ResultSet.h\<close>, \<open>src/ResultSet.cpp\<close>): the options, the counters
  and the timing windows \<open>setRescode\<close> keeps, and the JSON they are reported as. An error code
  of the client library is \<open>None\<close> when it stands for success and its message otherwise. Times of
  the clock are seconds and microseconds; durations are signed milliseconds. The \<open>int\<close>
  counters are unbounded here: they count operations, of which there are less than \<open>2^31\<close>.
\<close>

type_synonym error_code = "string option"
type_synonym timeval = "nat \<times> nat"

section \<open>Options\<close>

record ResultOptions =
  full :: bool
  preload :: bool
  multi :: "32 word"
  expiry :: "32 word"
  flags :: "32 word"
  iterwait :: "32 word"
  delay_min :: "32 word"
  delay_max :: "32 word"
  delay :: "32 word"
  timeres :: "32 word"
  persist :: "32 word"
  replicate_to :: "32 word"

definition determine_delay :: "ResultOptions \<Rightarrow> ResultOptions" where
  "determine_delay opts =
     (if delay opts \<noteq> 0 then opts\<lparr>delay_min := delay opts, delay_max := delay opts\<rparr>
      else if delay_min opts = delay_max opts
      then opts\<lparr>delay := delay_max opts, delay_min := delay_max opts\<rparr>
      else opts)"

text \<open>The member \<open>flags\<close> is never set: it is what the memory held (\<open>u\<close>), and nothing reads it.\<close>

definition ResultOptions_of_json :: "'j json_api \<Rightarrow> 32 word \<Rightarrow> 'j \<Rightarrow> ResultOptions run" where
  "ResultOptions_of_json J u opts =
     rbind (jtruth J opts CBSDKD_MSGFLD_DSREQ_FULL) (\<lambda>fu.
     rbind (jtruth J opts CBSDKD_MSGFLD_DS_PRELOAD) (\<lambda>pre.
     rbind (juint J opts CBSDKD_MSGFLD_DSREQ_MULTI) (\<lambda>mul.
     rbind (juint J opts CBSDKD_MSGFLD_DSREQ_EXPIRY) (\<lambda>ex.
     rbind (juint J opts CBSDKD_MSGFLD_DSREQ_ITERWAIT) (\<lambda>iw.
     rbind (juint J opts CBSDKD_MSGFLD_DSREQ_DELAY_MIN) (\<lambda>dmin.
     rbind (juint J opts CBSDKD_MSGLFD_DSREQ_DELAY_MAX) (\<lambda>dmax.
     rbind (juint J opts CBSDKD_MSGFLD_DSREQ_DELAY) (\<lambda>d.
     rbind (juint J opts CBSDKD_MSGFLD_DSREQ_TIMERES) (\<lambda>tr.
     rbind (juint J opts CBSDKD_MSGFLD_DSREQ_PERSIST) (\<lambda>per.
     rbind (juint J opts CBSDKD_MSGFLD_DSREQ_REPLICATE) (\<lambda>rep.
     Inr (determine_delay \<lparr>full = fu, preload = pre, multi = mul, expiry = ex, flags = u,
       iterwait = iw, delay_min = dmin, delay_max = dmax, delay = d, timeres = tr,
       persist = per, replicate_to = rep\<rparr>))))))))))))"

definition ResultOptions_new :: "32 word \<Rightarrow> bool \<Rightarrow> bool \<Rightarrow> 32 word \<Rightarrow> 32 word \<Rightarrow> ResultOptions" where
  "ResultOptions_new u fu pre ex d =
     determine_delay \<lparr>full = fu, preload = pre, multi = 0, expiry = ex, flags = u, iterwait = 0,
       delay_min = 0, delay_max = 0, delay = d, timeres = 0, persist = 0, replicate_to = 0\<rparr>"

text \<open>\<open>r\<close> is what \<open>rand()\<close> returns. The modulus is 0 when both bounds are the same.\<close>

definition getDelay :: "ResultOptions \<Rightarrow> 32 word \<Rightarrow> 32 word run" where
  "getDelay opts r =
     (if delay opts \<noteq> 0 then Inr (delay opts)
      else if delay_min opts = delay_max opts \<and> delay_max opts = 0 then Inr 0
      else rbind (require (delay_max opts - delay_min opts \<noteq> 0) ArithTrap) (\<lambda>_.
        Inr (delay_min opts + r mod (delay_max opts - delay_min opts))))"

section \<open>Windows\<close>

record TimeWindow =
  time_total :: "32 word"
  time_min :: "32 word"
  time_max :: "32 word"
  time_avg :: "32 word"
  durations :: "int list"
  count :: "32 word"
  ec :: "(string \<times> int) list"

definition TimeWindow_new :: TimeWindow where
  "TimeWindow_new = \<lparr>time_total = 0, time_min = - 1, time_max = 0, time_avg = 0, durations = [],
     count = 0, ec = []\<rparr>"

section \<open>Result sets\<close>

record ResultSet =
  stats :: "(string \<times> int) list"
  fullstats :: "(string \<times> string) list"
  timestats :: "TimeWindow list"
  options :: ResultOptions
  oper_error :: Error
  remaining :: int
  query_resp_count :: "32 word"
  fts_query_resp_count :: "32 word"
  cbas_query_resp_count :: "32 word"
  vresp_complete :: bool
  scan_consistency :: string
  win_begin :: nat
  cur_wintime :: nat
  opstart_tmsec :: int

definition clear_results :: "ResultSet \<Rightarrow> ResultSet" where
  "clear_results rs = rs\<lparr>stats := [], fullstats := [], timestats := [], remaining := 0,
     win_begin := 0, cur_wintime := 0, opstart_tmsec := 0\<rparr>"

text \<open>
  The constructor, and the value it leaves in the static member \<open>m_pFactor\<close>. \<open>u\<close> is the memory
  it runs on: the response counters are not set, nor the flags of the options.
\<close>

definition ResultSet_new :: "int \<Rightarrow> ResultSet \<Rightarrow> ResultSet \<times> int" where
  "ResultSet_new pFactor u =
     (clear_results (u\<lparr>options := ResultOptions_new (flags (options u)) False False 0 0,
        oper_error := Error_new, remaining := 0, vresp_complete := False, scan_consistency := []\<rparr>),
      pFactor)"

definition setError :: "Error \<Rightarrow> ResultSet \<Rightarrow> Error \<times> ResultSet" where
  "setError newerr rs = (oper_error rs, rs\<lparr>oper_error := newerr\<rparr>)"

text \<open>
  The sum in \<open>double\<close> is exact enough for the truncation to be this, as long as the milliseconds
  since the epoch are below \<open>2^43\<close>.
\<close>

definition getEpochMsecs :: "timeval \<Rightarrow> int" where
  "getEpochMsecs tv = int (fst tv * 1000 + snd tv div 1000)"

definition markBegin :: "timeval \<Rightarrow> ResultSet \<Rightarrow> ResultSet" where
  "markBegin tv rs = rs\<lparr>opstart_tmsec := getEpochMsecs tv\<rparr>"

subsection \<open>\<open>setRescode\<close>\<close>

text \<open>
  The windows an outage skipped. The loop ends because the step is positive, which
  \<open>setRescode\<close> sees to before it gets here.
\<close>

function fill_windows :: "nat \<Rightarrow> nat \<Rightarrow> nat \<Rightarrow> TimeWindow list \<Rightarrow> nat \<times> TimeWindow list" where
  "fill_windows step frame cur ts =
     (let ts' = ts @ [TimeWindow_new\<lparr>time_min := 0\<rparr>]; cur' = cur + step
      in if cur' < frame \<and> 0 < step then fill_windows step frame cur' ts' else (cur', ts'))"
  by pat_completeness auto
termination
  by (relation "measure (\<lambda>(step, frame, cur, ts). frame - cur)") auto

declare fill_windows.simps [simp del]

definition update_last :: "('a \<Rightarrow> 'a) \<Rightarrow> 'a list \<Rightarrow> 'a list" where
  "update_last f xs = (if xs = [] then [] else butlast xs @ [f (last xs)])"

definition record_op :: "int \<Rightarrow> string \<Rightarrow> TimeWindow \<Rightarrow> TimeWindow" where
  "record_op duration myerr win =
     win\<lparr>count := count win + 1,
         time_total := time_total win + word_of_int duration,
         time_min := min (time_min win) (word_of_int duration),
         time_max := max (time_max win) (word_of_int duration),
         durations := durations win @ [duration],
         ec := count_msg myerr (ec win)\<rparr>"

text \<open>Opening the window of the current frame.\<close>

definition open_window :: "nat \<Rightarrow> ResultSet \<Rightarrow> ResultSet" where
  "open_window cur_tframe rs =
     (if cur_wintime rs = 0 then
        rs\<lparr>cur_wintime := cur_tframe, win_begin := cur_tframe,
           timestats := timestats rs @ [TimeWindow_new]\<rparr>
      else if cur_wintime rs < cur_tframe then
        let (cur', ts') = fill_windows (unat (timeres (options rs))) cur_tframe
                            (cur_wintime rs) (timestats rs)
        in rs\<lparr>cur_wintime := cur', timestats := update_last (\<lambda>w. w\<lparr>time_min := - 1\<rparr>) ts'\<rparr>
      else rs)"

text \<open>
  \<open>key\<close> is the memory from the key's address, \<open>nkey\<close> long; \<open>value\<close> is \<open>None\<close> for a null pointer
  and otherwise has \<open>nvalue\<close> characters. \<open>tv\<close> is the clock.
\<close>

definition setRescode ::
    "error_code \<Rightarrow> string \<Rightarrow> bool \<Rightarrow> string option \<Rightarrow> timeval \<Rightarrow> ResultSet \<Rightarrow> ResultSet run" where
  "setRescode err key expect_value value tv rs =
     (let myerr = (case err of None \<Rightarrow> ''success'' | Some m \<Rightarrow> m);
          nvalue = (case value of None \<Rightarrow> 0 | Some v \<Rightarrow> length v);
          rs1 = rs\<lparr>stats := count_msg myerr (stats rs), remaining := remaining rs - 1\<rparr>;
          strkey = (if nvalue \<noteq> 0 then key else []);
          rs2 = (if full (options rs1) then
                   rs1\<lparr>fullstats := smap_upd []
                      (\<lambda>_. if expect_value then (case value of None \<Rightarrow> [] | Some v \<Rightarrow> v) else myerr)
                      strkey (fullstats rs1)\<rparr>
                 else rs1);
          rs3 = (if timeres (options rs2) = 0
                 then rs2\<lparr>options := (options rs2)\<lparr>timeres := 1\<rparr>\<rparr> else rs2);
          msec_now = getEpochMsecs tv;
          cur_tframe = fst tv - fst tv mod unat (timeres (options rs3));
          duration = msec_now - opstart_tmsec rs3;
          rs4 = open_window cur_tframe rs3
      in rbind (require (timestats rs4 \<noteq> []) AssertFailed) (\<lambda>_.
         Inr (rs4\<lparr>timestats := update_last (record_op duration myerr) (timestats rs4)\<rparr>)))"

text \<open>The overloads.\<close>

definition setRescode_err :: "error_code \<Rightarrow> timeval \<Rightarrow> ResultSet \<Rightarrow> ResultSet run" where
  "setRescode_err err tv rs = setRescode err [] False None tv rs"

definition setRescode_key :: "error_code \<Rightarrow> string \<Rightarrow> timeval \<Rightarrow> ResultSet \<Rightarrow> ResultSet run" where
  "setRescode_key err key tv rs = setRescode err key False None tv rs"

definition setRescode_expect :: "error_code \<Rightarrow> string \<Rightarrow> bool \<Rightarrow> timeval \<Rightarrow> ResultSet \<Rightarrow> ResultSet run" where
  "setRescode_expect err key expect_value tv rs = setRescode err key True None tv rs"

definition setRescode_final :: "error_code \<Rightarrow> bool \<Rightarrow> timeval \<Rightarrow> ResultSet \<Rightarrow> ResultSet run" where
  "setRescode_final err isFinal tv rs = setRescode err [] False None tv (rs\<lparr>vresp_complete := isFinal\<rparr>)"

subsection \<open>Reports\<close>

text \<open>
  The percentile of a window. The index is computed in integers, so \<open>ceil\<close> has nothing to
  round; an index outside the vector reads memory the vector does not own.
\<close>

definition getPercentile :: "int \<Rightarrow> int list \<Rightarrow> int run" where
  "getPercentile pFactor ds =
     (let size = int (length ds) in
      if size = 0 then Inr 0
      else if size = 1 then Inr (ds ! 0)
      else let sorted = sort ds; idx = (size * pFactor) sdiv 100 - 1
           in if 0 \<le> idx \<and> idx < size then Inr (sorted ! nat idx) else Inl BadAccess)"

definition stats_json :: "'j json_api \<Rightarrow> (string \<times> int) list \<Rightarrow> 'j run" where
  "stats_json J m = jset_all J (j_object J) (map (\<lambda>(k, n). (k, j_int J n)) m)"

definition window_json :: "'j json_api \<Rightarrow> int \<Rightarrow> TimeWindow \<Rightarrow> 'j run" where
  "window_json J pFactor w =
     rbind (jset_all J (j_object J)
       [(CBSDKD_MSGFLD_TMS_COUNT, j_int J (uint (count w))),
        (CBSDKD_MSGFLD_TMS_MIN, j_int J (uint (time_min w))),
        (CBSDKD_MSGFLD_TMS_MAX, j_int J (uint (time_max w))),
        (CBSDKD_MSGFLD_TMS_AVG,
           j_int J (if count w \<noteq> 0 then uint (time_total w div count w) else 0))]) (\<lambda>winstat.
     rbind (stats_json J (ec w)) (\<lambda>errstats.
     rbind (jset J winstat CBSDKD_MSGFLD_TMS_ECS errstats) (\<lambda>winstat2.
     rbind (getPercentile pFactor (durations w)) (\<lambda>p.
     jset J winstat2 CBSDKD_MSGFLD_TMS_PERCENTILE (j_int J p)))))"

fun windows_json :: "'j json_api \<Rightarrow> int \<Rightarrow> 'j \<Rightarrow> TimeWindow list \<Rightarrow> 'j run" where
  "windows_json J pFactor windetails [] = Inr windetails"
| "windows_json J pFactor windetails (w # ws) =
     rbind (window_json J pFactor w) (\<lambda>winstat.
     rbind (jappend J windetails winstat) (\<lambda>windetails'.
     windows_json J pFactor windetails' ws))"

definition resultsJson :: "'j json_api \<Rightarrow> int \<Rightarrow> ResultSet \<Rightarrow> 'j \<Rightarrow> 'j run" where
  "resultsJson J pFactor rs root =
     rbind (stats_json J (stats rs)) (\<lambda>summaries.
     rbind (jset J root CBSDKD_MSGFLD_DSRES_STATS summaries) (\<lambda>root1.
     if timeres (options rs) = 0 then Inr root1 else
     rbind (jset J (j_object J) CBSDKD_MSGFLD_TMS_BASE (j_int J (int (win_begin rs)))) (\<lambda>jtimes.
     rbind (windows_json J pFactor (j_array J) (timestats rs)) (\<lambda>windetails.
     rbind (jset J jtimes CBSDKD_MSGFLD_TMS_STEP (j_int J (uint (timeres (options rs))))) (\<lambda>jtimes2.
     rbind (jset J jtimes2 CBSDKD_MSGFLD_TMS_WINS windetails) (\<lambda>jtimes3.
     jset J root1 CBSDKD_MSGFLD_DRES_TIMINGS jtimes3))))))"

end
