(* ===== verification/World.thy ===== *)
theory World
  imports Results
begin

text \<open>
  What a handle's operations run against: the cluster client, the clock, the random numbers and
  the other threads. The client library is not part of the repository; the code builds a
  request, submits it and later gets the reply from a future. The environment fixes the reply
  to the n-th submitted request, the n-th reading of the clock, the n-th random number, and
  whether another thread asked for cancellation before the n-th test of the flag. The \<open>io\<close>
  state counts these events and keeps the log of submitted requests.
\<close>

section \<open>Requests and replies\<close>

record document_id =
  doc_bucket :: string
  doc_scope :: string
  doc_collection :: string
  doc_key :: string

datatype subdoc_opcode = SdGet | SdExists | SdReplace | SdDictAdd | SdDictUpsert
  | SdArrayPushFirst | SdArrayPushLast | SdCounter

datatype scan_consistency_type = NotBounded | RequestPlus | AtPlus "nat list"

record query_request =
  q_adhoc :: bool
  q_flex_index :: bool
  q_bucket :: string
  q_statement :: string
  q_scope :: "string option"
  q_consistency :: scan_consistency_type

record search_request =
  s_index_name :: string
  s_query :: string
  s_collections :: "string list"
  s_mutation_state :: "nat list"

record analytics_request =
  a_statement :: string
  a_bucket :: string
  a_scope :: "string option"

record view_request =
  v_bucket :: string
  v_document :: string
  v_view :: string
  v_limit :: "nat option"
  v_skip :: "nat option"

text \<open>A mutation carries the expiry and the flags the code sets on it, when it sets them.\<close>

datatype request =
    GetReq document_id
  | UpsertReq document_id string "(32 word \<times> 32 word) option"
  | InsertReq document_id string "(32 word \<times> 32 word) option"
  | ReplaceReq document_id string "(32 word \<times> 32 word) option"
  | AppendReq document_id string
  | PrependReq document_id string
  | RemoveReq document_id
  | TouchReq document_id
  | LookupInReq document_id "(subdoc_opcode \<times> string) list"
  | MutateInReq document_id "(subdoc_opcode \<times> string \<times> string) list"
  | ScopeCreateReq string string
  | CollectionCreateReq string string string
  | QueryReq query_request
  | SearchReq search_request
  | AnalyticsReq analytics_request
  | ViewReq view_request

text \<open>What the code reads of a reply: the error code, the number of rows, the mutation token.\<close>

record response =
  resp_ec :: error_code
  resp_rows :: nat
  resp_token :: nat

record world =
  clock :: "nat \<Rightarrow> timeval"
  answers :: "nat \<Rightarrow> response"
  cancels :: "nat \<Rightarrow> bool"
  rands :: "nat \<Rightarrow> 32 word"
  thread_id :: string

record io =
  do_cancel :: bool
  pending_futures :: "nat list"
  sent :: "request list"
  ticks :: nat
  polls :: nat
  rolls :: nat
  slept :: "32 word list"

definition io_start :: io where
  "io_start = \<lparr>do_cancel = False, pending_futures = [], sent = [], ticks = 0, polls = 0, rolls = 0,
     slept = []\<rparr>"

section \<open>Primitive operations\<close>

definition gettimeofday :: "world \<Rightarrow> io \<Rightarrow> timeval \<times> io" where
  "gettimeofday w io = (clock w (ticks io), io\<lparr>ticks := ticks io + 1\<rparr>)"

definition sdkd_millisleep :: "32 word \<Rightarrow> io \<Rightarrow> io" where
  "sdkd_millisleep msec io = io\<lparr>slept := slept io @ [msec]\<rparr>"

text \<open>\<open>rand()\<close> inside \<open>getDelay\<close> is called only when there is a range to draw from.\<close>

definition roll_delay :: "world \<Rightarrow> ResultOptions \<Rightarrow> io \<Rightarrow> (32 word \<times> io) run" where
  "roll_delay w opts io =
     rbind (getDelay opts (rands w (rolls io))) (\<lambda>d.
     Inr (d, if delay opts = 0 \<and> \<not> (delay_min opts = delay_max opts \<and> delay_max opts = 0)
             then io\<lparr>rolls := rolls io + 1\<rparr> else io))"

text \<open>\<open>isCancelled()\<close>, and the tests of \<open>do_cancel\<close> in the loop conditions.\<close>

definition isCancelled :: "world \<Rightarrow> io \<Rightarrow> bool \<times> io" where
  "isCancelled w io =
     (let b = (do_cancel io \<or> cancels w (polls io))
      in (b, io\<lparr>do_cancel := b, polls := polls io + 1\<rparr>))"

definition externalEnter :: "io \<Rightarrow> io" where
  "externalEnter io = io\<lparr>do_cancel := False\<rparr>"

text \<open>\<open>execute_async\<close>: a future is the position of its request in the log.\<close>

definition execute_async :: "request \<Rightarrow> io \<Rightarrow> nat \<times> io" where
  "execute_async r io = (length (sent io), io\<lparr>sent := sent io @ [r]\<rparr>)"

definition execute :: "world \<Rightarrow> request \<Rightarrow> io \<Rightarrow> response \<times> io" where
  "execute w r io = (let (f, io1) = execute_async r io in (answers w f, io1))"

text \<open>\<open>pending_futures.emplace_back(execute_async_ec(req))\<close>.\<close>

definition submit :: "request \<Rightarrow> io \<Rightarrow> io" where
  "submit r io = (let (f, io1) = execute_async r io
                  in io1\<lparr>pending_futures := pending_futures io1 @ [f]\<rparr>)"

lemmas io_defs = gettimeofday_def sdkd_millisleep_def isCancelled_def externalEnter_def
  execute_async_def execute_def submit_def

section \<open>Draining futures\<close>

fun drain_futures :: "world \<Rightarrow> (error_code \<Rightarrow> 's \<Rightarrow> 's run) \<Rightarrow> nat list \<Rightarrow> 's \<Rightarrow> 's run" where
  "drain_futures w handler [] s = Inr s"
| "drain_futures w handler (f # fs) s =
     rbind (handler (resp_ec (answers w f)) s) (drain_futures w handler fs)"

definition drainPendingFutures ::
    "world \<Rightarrow> (error_code \<Rightarrow> io \<times> 's \<Rightarrow> (io \<times> 's) run) \<Rightarrow> io \<times> 's \<Rightarrow> (io \<times> 's) run" where
  "drainPendingFutures w handler s =
     rbind (drain_futures w handler (pending_futures (fst s)) s) (\<lambda>(io, x).
     Inr (io\<lparr>pending_futures := []\<rparr>, x))"

text \<open>
  The handlers of the program: \<open>rs.setRescode(ec)\<close>, \<open>ok = ok && !ec\<close>, and the empty one.
\<close>

definition rescode_handler :: "world \<Rightarrow> error_code \<Rightarrow> io \<times> ResultSet \<Rightarrow> (io \<times> ResultSet) run" where
  "rescode_handler w err s =
     (let (tv, io1) = gettimeofday w (fst s)
      in rbind (setRescode_err err tv (snd s)) (\<lambda>rs. Inr (io1, rs)))"

definition ok_handler :: "error_code \<Rightarrow> io \<times> bool \<Rightarrow> (io \<times> bool) run" where
  "ok_handler err s = Inr (fst s, snd s \<and> err = None)"

definition ignore_handler :: "error_code \<Rightarrow> io \<times> 's \<Rightarrow> (io \<times> 's) run" where
  "ignore_handler err s = Inr s"

definition io_markBegin :: "world \<Rightarrow> io \<times> ResultSet \<Rightarrow> io \<times> ResultSet" where
  "io_markBegin w s = (let (_, io1) = gettimeofday w (fst s); (tv, io2) = gettimeofday w io1
                       in (io2, markBegin tv (snd s)))"

end
