(* ===== verification/Routing.thy ===== *)
theory Routing
  imports HandleOpts SingleFloat World
begin

text \<open>
  Which collection a key goes to (\<open>Handle::getCollection\<close>) and how the collections are made
  (\<open>src/Collections.cpp\<close>); with many collections, every key the first routes goes to one
  the second has made.
\<close>

section \<open>From a key to its collection\<close>

text \<open>\<open>std::stoi\<close> of a string of digits throws when it is empty; at most three digits cannot overflow.\<close>

definition stoi_digits :: "string \<Rightarrow> nat run" where
  "stoi_digits s = (if s = [] then Inl (Uncaught ''stoi'') else Inr (dec_value s))"

definition getCollection :: "HandleOptions \<Rightarrow> string \<Rightarrow> (string \<times> string) run" where
  "getCollection opts key =
     (if useCollections opts \<and> key \<noteq> [] then
        let last_n = drop (length key - 3) key in
        rbind (stoi_digits (filter is_digit last_n)) (\<lambda>key_num.
        let m = collections opts * scopes opts in
        rbind (require (m \<noteq> 0) ArithTrap) (\<lambda>_.
        let collection_num = unat ((word_of_nat key_num :: 64 word) mod m);
            scope_num = \<lfloor>single_div (to_single (of_nat collection_num))
                                   (to_single (of_nat (unat (collections opts))))\<rfloor>
        in Inr (int_to_string scope_num, int_to_string (int collection_num))))
      else Inr (''_default'', ''_default''))"

section \<open>Making the collections\<close>

definition create_scope :: "world \<Rightarrow> string \<Rightarrow> string \<Rightarrow> io \<Rightarrow> error_code \<times> io" where
  "create_scope w buck scope io =
     (let (resp, io1) = execute w (ScopeCreateReq buck scope) io in (resp_ec resp, io1))"

definition create_collection :: "world \<Rightarrow> string \<Rightarrow> string \<Rightarrow> string \<Rightarrow> io \<Rightarrow> error_code \<times> io" where
  "create_collection w buck scope coll io =
     (let (resp, io1) = execute w (CollectionCreateReq buck scope coll) io in (resp_ec resp, io1))"

fun create_collections :: "world \<Rightarrow> string \<Rightarrow> string \<Rightarrow> int list \<Rightarrow> io \<Rightarrow> bool \<times> io" where
  "create_collections w buck scope [] io = (True, io)"
| "create_collections w buck scope (j # js) io =
     (let (err, io1) = create_collection w buck scope (int_to_string j) io
      in if err \<noteq> None then (False, io1) else create_collections w buck scope js io1)"

fun create_scopes :: "world \<Rightarrow> string \<Rightarrow> int \<Rightarrow> int list \<Rightarrow> io \<Rightarrow> bool \<times> io" where
  "create_scopes w buck colls [] io = (True, io)"
| "create_scopes w buck colls (i # is) io =
     (let scope = int_to_string i; start = i * colls;
          (err, io1) = create_scope w buck scope io
      in if err \<noteq> None then (False, io1)
         else let (ok, io2) = create_collections w buck scope [start..start + colls - 1] io1
              in if ok then create_scopes w buck colls is io2 else (False, io2))"

text \<open>
  \<open>flag\<close> is the process-wide \<open>collectionsGenerated\<close>. The arguments are \<open>int\<close>s, converted from
  the unsigned members of the options.
\<close>

definition Collections_generate ::
    "world \<Rightarrow> string \<Rightarrow> int \<Rightarrow> int \<Rightarrow> bool \<times> io \<Rightarrow> bool \<times> (bool \<times> io)" where
  "Collections_generate w buck scs colls st =
     (let (flag, io) = st in
      if \<not> flag then
        let (ok, io1) = create_scopes w buck colls [0..scs - 1] io in (ok, (True, io1))
      else (False, (flag, io)))"

definition generateCollections ::
    "world \<Rightarrow> HandleOptions \<Rightarrow> bool \<times> io \<Rightarrow> bool \<times> (bool \<times> io)" where
  "generateCollections w opts st =
     (if useCollections opts
      then Collections_generate w (bucket opts) (int_of_ulong (scopes opts))
             (int_of_ulong (collections opts)) st
      else (False, st))"

section \<open>Where keys go\<close>

lemma dec_value_less: "dec_value s < 10 ^ length s" if "\<forall>c \<in> set s. is_digit c"
  using that
proof (induction s rule: rev_induct)
  case Nil
  then show ?case by simp
next
  case (snoc c s)
  then have "is_digit c" and "dec_value s < 10 ^ length s" by simp_all
  then have "digit_val c \<le> 9" unfolding is_digit_def digit_val_def by linarith
  moreover have "10 * dec_value s + 10 \<le> 10 * 10 ^ length s"
    using \<open>dec_value s < 10 ^ length s\<close> by simp
  ultimately show ?case by simp
qed

definition key_number :: "string \<Rightarrow> nat" where
  "key_number key = dec_value (filter is_digit (drop (length key - 3) key))"

lemma key_number_less: "key_number key < 1000"
proof -
  let ?ds = "filter is_digit (drop (length key - 3) key)"
  have "length ?ds \<le> length (drop (length key - 3) key)" by (rule length_filter_le)
  then have "length ?ds \<le> 3" by simp
  then have "(10::nat) ^ length ?ds \<le> 10 ^ 3" by (intro power_increasing) simp_all
  moreover have "dec_value ?ds < 10 ^ length ?ds" by (rule dec_value_less) simp
  ultimately show ?thesis by (simp add: key_number_def)
qed

text \<open>The routing of a key with a digit among its last three characters.\<close>

lemma getCollection_number:
  assumes "useCollections opts" and "\<exists>c \<in> set (drop (length key - 3) key). is_digit c"
    and "collections opts * scopes opts \<noteq> 0"
  shows "getCollection opts key =
    (let n = key_number key mod unat (collections opts * scopes opts)
     in Inr (nat_to_string (n div unat (collections opts)), nat_to_string n))"
proof -
  let ?m = "collections opts * scopes opts"
  define n where "n = key_number key mod unat ?m"
  have ne: "filter is_digit (drop (length key - 3) key) \<noteq> []"
    using assms(2) by (simp add: filter_empty_conv)
  have k: "key_number key < 1000" by (rule key_number_less)
  then have "unat (word_of_nat (key_number key) :: 64 word) = key_number key"
    by (simp add: unsigned_of_nat take_bit_nat_eq_self)
  then have num: "unat ((word_of_nat (key_number key) :: 64 word) mod ?m) = n"
    by (simp add: unat_mod n_def)
  then have "(unsigned ((word_of_nat (key_number key) :: 64 word) mod ?m) :: rat) = of_nat n"
    and "uint ((word_of_nat (key_number key) :: 64 word) mod ?m) = int n"
    by (metis of_nat_unat) (metis num of_nat_unat)
  note nums = num this
  have c: "0 < unat (collections opts)" using assms(3) by (auto simp: unat_gt_0)
  have "n \<le> key_number key" by (simp add: n_def)
  with k have "n < 1000" by simp
  then have "\<lfloor>single_div (to_single (of_nat n)) (to_single (of_nat (unat (collections opts))))\<rfloor>
      = int (n div unat (collections opts))"
    using c by (rule floor_single_div)
  moreover have "getCollection opts key =
      Inr (int_to_string \<lfloor>single_div (to_single (of_nat n))
             (to_single (of_nat (unat (collections opts))))\<rfloor>, int_to_string (int n))"
    using assms(1,3) assms(2) ne
    by (auto simp: getCollection_def stoi_digits_def Let_def nums key_number_def [symmetric])
  ultimately show ?thesis by (simp add: n_def Let_def int_to_string_nonneg)
qed

section \<open>What is created\<close>

definition creation_requests :: "string \<Rightarrow> int \<Rightarrow> int \<Rightarrow> request list" where
  "creation_requests buck colls i = ScopeCreateReq buck (int_to_string i) #
     map (\<lambda>j. CollectionCreateReq buck (int_to_string i) (int_to_string j))
       [i * colls..i * colls + colls - 1]"

text \<open>
  Sending requests one by one up to the first that fails: on success all were sent and every reply is
  good; otherwise the last one sent is the one that failed.
\<close>

definition creates :: "world \<Rightarrow> io \<Rightarrow> request list \<Rightarrow> bool \<times> io \<Rightarrow> bool" where
  "creates w io reqs r \<longleftrightarrow>
     (if fst r then sent (snd r) = sent io @ reqs \<and> (\<forall>i < length reqs. resp_ec (answers w (length (sent io) + i)) = None)
      else \<exists>n < length reqs. sent (snd r) = sent io @ take (Suc n) reqs \<and>
        (\<forall>i < n. resp_ec (answers w (length (sent io) + i)) = None) \<and> resp_ec (answers w (length (sent io) + n)) \<noteq> None)"

lemma creates_Nil [simp]: "creates w io [] (True, io)"
  by (simp add: creates_def)

lemma creates_one:
  assumes "execute w r io = (resp, io1)"
  shows "creates w io [r] (resp_ec resp = None, io1)"
  using assms by (auto simp: creates_def io_defs)

lemma creates_append:
  assumes "creates w io xs (True, io1)" and "creates w io1 ys r"
  shows "creates w io (xs @ ys) r"
proof -
  let ?L = "length (sent io)" and ?ok = "\<lambda>i. resp_ec (answers w i) = None"
  have 1: "sent io1 = sent io @ xs" "\<forall>i < length xs. ?ok (?L + i)" using assms(1) by (simp_all add: creates_def)
  have join: "\<forall>i < length xs + n. ?ok (?L + i)" if "\<forall>i < n. ?ok (?L + length xs + i)" for n
  proof (intro allI impI)
    fix i
    assume "i < length xs + n"
    then show "?ok (?L + i)" using 1(2) that [rule_format, of "i - length xs"] by (cases "i < length xs") auto
  qed
  show ?thesis
  proof (cases "fst r")
    case True
    with assms(2) 1 join [of "length ys"] show ?thesis by (simp add: creates_def)
  next
    case False
    then obtain n where "n < length ys" "sent (snd r) = sent io1 @ take (Suc n) ys"
      "\<forall>i < n. ?ok (?L + length xs + i)" "\<not> ?ok (?L + length xs + n)"
      using assms(2) 1(1) by (auto simp: creates_def)
    with False 1(1) join [of n] show ?thesis
      by (auto simp: creates_def add.assoc intro!: exI [of _ "length xs + n"])
  qed
qed

lemma creates_stop: "creates w io xs (False, io1) \<Longrightarrow> creates w io (xs @ ys) (False, io1)"
proof -
  assume "creates w io xs (False, io1)"
  then obtain n where n: "n < length xs" "sent io1 = sent io @ take (Suc n) xs"
    "\<forall>i < n. resp_ec (answers w (length (sent io) + i)) = None" "resp_ec (answers w (length (sent io) + n)) \<noteq> None"
    by (auto simp: creates_def)
  then have "sent io1 = sent io @ take (Suc n) (xs @ ys)" "n < length (xs @ ys)" by simp_all
  with n(3,4) show ?thesis unfolding creates_def by auto
qed

lemma create_collections_creates:
  "creates w io (map (\<lambda>j. CollectionCreateReq buck scope (int_to_string j)) js) (create_collections w buck scope js io)"
proof (induction js arbitrary: io)
  case (Cons j js)
  let ?r = "CollectionCreateReq buck scope (int_to_string j)"
  obtain resp io1 where e: "execute w ?r io = (resp, io1)" by (cases "execute w ?r io")
  have c: "creates w io [?r] (resp_ec resp = None, io1)" by (rule creates_one [OF e])
  show ?case
  proof (cases "resp_ec resp = None")
    case True
    with c have "creates w io [?r] (True, io1)" by simp
    from creates_append [OF this Cons.IH] True e show ?thesis by (simp add: create_collection_def)
  next
    case False
    with c have "creates w io [?r] (False, io1)" by simp
    from creates_stop [OF this] False e show ?thesis by (simp add: create_collection_def)
  qed
qed simp

lemma create_scopes_creates:
  "creates w io (concat (map (creation_requests buck colls) is)) (create_scopes w buck colls is io)"
proof (induction "is" arbitrary: io)
  case (Cons i "is")
  let ?r = "ScopeCreateReq buck (int_to_string i)"
  let ?cs = "map (\<lambda>j. CollectionCreateReq buck (int_to_string i) (int_to_string j)) [i * colls..i * colls + colls - 1]"
  let ?rest = "concat (map (creation_requests buck colls) is)"
  obtain resp io1 where e: "execute w ?r io = (resp, io1)" by (cases "execute w ?r io")
  have c: "creates w io [?r] (resp_ec resp = None, io1)" by (rule creates_one [OF e])
  have all: "concat (map (creation_requests buck colls) (i # is)) = [?r] @ ?cs @ ?rest" by (simp add: creation_requests_def)
  show ?case
  proof (cases "resp_ec resp = None")
    case False
    with c have "creates w io [?r] (False, io1)" by simp
    from creates_stop [OF this, of "?cs @ ?rest"] False e show ?thesis unfolding all by (simp add: create_scope_def)
  next
    case True
    with c have one: "creates w io [?r] (True, io1)" by simp
    obtain ok io2 where cs: "create_collections w buck (int_to_string i) [i * colls..i * colls + colls - 1] io1 = (ok, io2)"
      by (cases "create_collections w buck (int_to_string i) [i * colls..i * colls + colls - 1] io1")
    have c2: "creates w io1 ?cs (ok, io2)" using create_collections_creates [of w io1 buck "int_to_string i"] cs by metis
    have "creates w io1 (?cs @ ?rest) (if ok then create_scopes w buck colls is io2 else (False, io2))"
      using c2 creates_append [OF _ Cons.IH, of io1 ?cs io2] creates_stop [of w io1 ?cs io2] by (cases ok) simp_all
    from creates_append [OF one this] True e cs show ?thesis unfolding all by (simp add: create_scope_def)
  qed
qed simp

end
