(* ===== verification/Datasets.thy ===== *)
theory Datasets
  imports Messages
begin

unbundle bit_operations_syntax

text \<open>
  The datasets of a request (\<open>src/Dataset.h\<close>, \<open>src/Dataset.cpp\<close> and one file per kind): what
  each constructor reads from the request's JSON and checks, and what its iterator's
  \<open>start\<close>, \<open>advance\<close> and \<open>done\<close> do. The virtual functions are a case distinction on the
  dataset's kind.
\<close>

section \<open>Kinds\<close>

datatype Type =
    DSTYPE_FILE
  | DSTYPE_INLINE
  | DSTYPE_REFERENCE
  | DSTYPE_SEEDED
  | DSTYPE_N1QL
  | DSTYPE_SD
  | DSTYPE_FTS
  | DSTYPE_CBAS
  | DSTYPE_INVALID

primrec type_name :: "Type \<Rightarrow> string" where
  "type_name DSTYPE_FILE = ''DSTYPE_FILE''"
| "type_name DSTYPE_INLINE = ''DSTYPE_INLINE''"
| "type_name DSTYPE_REFERENCE = ''DSTYPE_REFERENCE''"
| "type_name DSTYPE_SEEDED = ''DSTYPE_SEEDED''"
| "type_name DSTYPE_N1QL = ''DSTYPE_N1QL''"
| "type_name DSTYPE_SD = ''DSTYPE_SD''"
| "type_name DSTYPE_FTS = ''DSTYPE_FTS''"
| "type_name DSTYPE_CBAS = ''DSTYPE_CBAS''"
| "type_name DSTYPE_INVALID = ''DSTYPE_INVALID''"

definition DATASET_XTYPE :: "Type list" where
  "DATASET_XTYPE = [DSTYPE_FILE, DSTYPE_INLINE, DSTYPE_REFERENCE, DSTYPE_SEEDED, DSTYPE_N1QL,
     DSTYPE_SD, DSTYPE_FTS, DSTYPE_CBAS]"

text \<open>
  \<open>determineType\<close> with the string behind \<open>refid\<close>, which the caller always passes: the type
  and what the string holds afterwards. It is not written when the request is refused.
\<close>

definition determineType ::
    "'j json_api \<Rightarrow> 'j Message \<Rightarrow> string \<Rightarrow> (Type \<times> string) run" where
  "determineType J req refid =
     rbind (jmissing J (payload req) CBSDKD_MSGFLD_DSREQ_DSTYPE) (\<lambda>no_type.
     if no_type then Inr (DSTYPE_INVALID, refid) else
     rbind (jmissing J (payload req) CBSDKD_MSGFLD_DSREQ_DS) (\<lambda>no_ds.
     if no_ds then Inr (DSTYPE_INVALID, refid) else
     rbind (jstr J (payload req) CBSDKD_MSGFLD_DSREQ_DSTYPE) (\<lambda>typestr.
     rbind (jfield J (payload req) CBSDKD_MSGFLD_DSREQ_DS) (\<lambda>dsdata.
     case find (\<lambda>c. typestr = type_name c) DATASET_XTYPE of
       None \<Rightarrow> Inr (DSTYPE_INVALID, refid)
     | Some ret \<Rightarrow>
         if ret = DSTYPE_REFERENCE then
           rbind (jmissing J dsdata CBSDKD_MSGFLD_DS_ID) (\<lambda>no_id.
           if no_id then Inr (DSTYPE_INVALID, refid)
           else rbind (jstr J dsdata CBSDKD_MSGFLD_DS_ID) (\<lambda>id. Inr (ret, id)))
         else Inr (ret, [])))))"

section \<open>Specifications\<close>

record DatasetSeedSpecification =
  seed_count :: "32 word"
  seed_ksize :: "32 word"
  seed_vsize :: "32 word"
  seed_continuous :: bool
  seed_repeat :: string
  seed_kseed :: string
  seed_vseed :: string

record N1QLDatasetSpecification =
  nq_params :: "string list"
  nq_paramValues :: "string list"
  nq_continuous :: bool
  nq_count :: "32 word"

record 'j SDDatasetSpecification =
  sd_doc :: 'j
  sd_load :: bool
  sd_command :: string
  sd_path :: string
  sd_value :: string
  sd_continuous :: bool
  sd_count :: "32 word"

record FTSDatasetSpecification =
  fts_count :: "32 word"

record CBASDatasetSpecification =
  cbas_count :: "32 word"

datatype 'j ds_body =
    Inline 'j
  | Seeded DatasetSeedSpecification
  | N1QL N1QLDatasetSpecification
  | SD "'j SDDatasetSpecification"
  | FTS FTSDatasetSpecification
  | CBAS CBASDatasetSpecification

record 'j Dataset =
  ds_err :: Error
  ds_type :: Type
  ds_body :: "'j ds_body"

definition Dataset_new :: "Type \<Rightarrow> 'j ds_body \<Rightarrow> 'j Dataset" where
  "Dataset_new t b = \<lparr>ds_err = Error_of_code 0 [], ds_type = t, ds_body = b\<rparr>"

definition isValid :: "'j Dataset \<Rightarrow> bool" where
  "isValid ds \<longleftrightarrow> code (ds_err ds) = SUCCESS"

text \<open>The two refusals the \<open>verify_spec\<close> functions share.\<close>

definition spec_error :: "string \<Rightarrow> 'j Dataset \<Rightarrow> 'j Dataset" where
  "spec_error msg ds =
     ds\<lparr>ds_err := (setCode (SDKD_EINVAL OR SUBSYSf_SDKD) (ds_err ds))\<lparr>errstr := msg\<rparr>\<rparr>"

definition DatasetSeeded_verify_spec :: "DatasetSeedSpecification \<Rightarrow> 'j Dataset \<Rightarrow> bool \<times> 'j Dataset" where
  "DatasetSeeded_verify_spec spec ds =
     (if seed_count spec = 0 then (False, spec_error ''Must have count'' ds)
      else if length (seed_kseed spec) = 0 \<or> length (seed_vseed spec) = 0
      then (False, spec_error ''KSeed and VSeed must not be empty'' ds)
      else (True, ds))"

definition N1QLDataset_verify_spec :: "N1QLDatasetSpecification \<Rightarrow> 'j Dataset \<Rightarrow> bool \<times> 'j Dataset" where
  "N1QLDataset_verify_spec spec ds =
     (if nq_count spec = 0 then (False, spec_error ''Must have count'' ds)
      else if length (nq_params spec) = 0 \<or> length (nq_paramValues spec) = 0
      then (False, spec_error ''params and values must not be empty'' ds)
      else (True, ds))"

definition SDDataset_verify_spec :: "'j SDDatasetSpecification \<Rightarrow> 'j Dataset \<Rightarrow> bool \<times> 'j Dataset" where
  "SDDataset_verify_spec spec ds =
     (if sd_count spec = 0 then (False, spec_error ''Must have count'' ds) else (True, ds))"

definition FTSDataset_verify_spec :: "FTSDatasetSpecification \<Rightarrow> 'j Dataset \<Rightarrow> bool \<times> 'j Dataset" where
  "FTSDataset_verify_spec spec ds =
     (if fts_count spec = 0 then (False, spec_error ''Must have count'' ds) else (True, ds))"

definition CBASDataset_verify_spec :: "CBASDatasetSpecification \<Rightarrow> 'j Dataset \<Rightarrow> bool \<times> 'j Dataset" where
  "CBASDataset_verify_spec spec ds =
     (if cbas_count spec = 0 then (False, spec_error ''Must have count'' ds) else (True, ds))"

lemmas verify_spec_defs = DatasetSeeded_verify_spec_def N1QLDataset_verify_spec_def
  SDDataset_verify_spec_def FTSDataset_verify_spec_def CBASDataset_verify_spec_def

section \<open>Constructors from JSON\<close>

definition DatasetInline_new :: "'j json_api \<Rightarrow> 'j \<Rightarrow> 'j Dataset run" where
  "DatasetInline_new J json =
     rbind (jfield J json CBSDKD_MSGFLD_DSINLINE_ITEMS) (\<lambda>dsitems.
     if \<not> j_truth J dsitems then
       Inr ((Dataset_new DSTYPE_INLINE (Inline (j_null J)))
             \<lparr>ds_err := Error_of_code SDKD_EINVAL ''Expected 'Items' but couldn't find any''\<rparr>)
     else Inr (Dataset_new DSTYPE_INLINE (Inline dsitems)))"

definition DatasetSeeded_new :: "'j json_api \<Rightarrow> 'j \<Rightarrow> 'j Dataset run" where
  "DatasetSeeded_new J jspec =
     rbind (jstr J jspec CBSDKD_MSGFLD_DSSEED_KSEED) (\<lambda>kseed.
     rbind (jstr J jspec CBSDKD_MSGFLD_DSSEED_VSEED) (\<lambda>vseed.
     rbind (juint J jspec CBSDKD_MSGFLD_DSSEED_KSIZE) (\<lambda>ksize.
     rbind (juint J jspec CBSDKD_MSGFLD_DSSEED_VSIZE) (\<lambda>vsize.
     rbind (jstr J jspec CBSDKD_MSGFLD_DSSEED_REPEAT) (\<lambda>rep.
     rbind (juint J jspec CBSDKD_MSGFLD_DSSEED_COUNT) (\<lambda>cnt.
     rbind (jtruth J jspec CBSDKD_MSGFLD_DSREQ_CONTINUOUS) (\<lambda>cont.
     let spec = \<lparr>seed_count = cnt, seed_ksize = ksize, seed_vsize = vsize, seed_continuous = cont,
                 seed_repeat = rep, seed_kseed = kseed, seed_vseed = vseed\<rparr>
     in Inr (snd (DatasetSeeded_verify_spec spec (Dataset_new DSTYPE_SEEDED (Seeded spec)))))))))))"

definition DatasetSeeded_of_spec :: "DatasetSeedSpecification \<Rightarrow> 'j Dataset" where
  "DatasetSeeded_of_spec spec = Dataset_new DSTYPE_SEEDED (Seeded spec)"

text \<open>
  \<open>split\<close>: \<open>getline\<close> up to the delimiter, empty items skipped. A line that ends with the
  delimiter gives no item after it.
\<close>

fun getline_split :: "char \<Rightarrow> string \<Rightarrow> string \<Rightarrow> string list" where
  "getline_split d item [] = (if item = [] then [] else [item])"
| "getline_split d item (c # s) =
     (if c = d then item # getline_split d [] s else getline_split d (item @ [c]) s)"

definition split_nonempty :: "string \<Rightarrow> char \<Rightarrow> string list \<Rightarrow> string list" where
  "split_nonempty s delim elems = elems @ filter (\<lambda>item. item \<noteq> []) (getline_split delim [] s)"

definition N1QLDataset_new :: "'j json_api \<Rightarrow> 'j \<Rightarrow> 'j Dataset run" where
  "N1QLDataset_new J jspec =
     rbind (jstr J jspec CBSDKD_MSGFLD_NQ_PARAM) (\<lambda>p.
     rbind (jstr J jspec CBSDKD_MSGFLD_NQ_PARAMVALUES) (\<lambda>v.
     rbind (juint J jspec CBSDKD_MSGFLD_NQ_COUNT) (\<lambda>cnt.
     rbind (jtruth J jspec CBSDKD_MSGFLD_DSREQ_CONTINUOUS) (\<lambda>cont.
     let spec = \<lparr>nq_params = split_nonempty p CHR '','' [],
                 nq_paramValues = split_nonempty v CHR '','' [],
                 nq_continuous = cont, nq_count = cnt\<rparr>
     in Inr (snd (N1QLDataset_verify_spec spec (Dataset_new DSTYPE_N1QL (N1QL spec))))))))"

definition SDDataset_new :: "'j json_api \<Rightarrow> 'j \<Rightarrow> bool \<Rightarrow> 'j Dataset run" where
  "SDDataset_new J jspec load =
     rbind (if load
            then rbind (jstr J jspec CBSDKD_MSGFLD_SD_SCHEMA) (\<lambda>s. Inr (j_str J s, [], [], []))
            else rbind (jstr J jspec CBSDKD_MSGFLD_SD_COMMAND) (\<lambda>c.
                 rbind (jstr J jspec CBSDKD_MSGFLD_SD_PATH) (\<lambda>p.
                 rbind (jstr J jspec CBSDKD_MSGFLD_SD_VALUE) (\<lambda>v. Inr (j_null J, c, p, v)))))
       (\<lambda>(doc, cmd, path, value).
     rbind (juint J jspec CBSDKD_MSGFLD_SD_COUNT) (\<lambda>cnt.
     rbind (jtruth J jspec CBSDKD_MSGFLD_DSREQ_CONTINUOUS) (\<lambda>cont.
     let spec = \<lparr>sd_doc = doc, sd_load = load, sd_command = cmd, sd_path = path, sd_value = value,
                 sd_continuous = cont, sd_count = cnt\<rparr>
     in Inr (snd (SDDataset_verify_spec spec (Dataset_new DSTYPE_SD (SD spec)))))))"

definition FTSDataset_new :: "'j json_api \<Rightarrow> 'j \<Rightarrow> 'j Dataset run" where
  "FTSDataset_new J jspec =
     rbind (juint J jspec CBSDKD_MSGFLD_FTS_COUNT) (\<lambda>cnt.
     let spec = \<lparr>fts_count = cnt\<rparr>
     in Inr (snd (FTSDataset_verify_spec spec (Dataset_new DSTYPE_FTS (FTS spec)))))"

definition CBASDataset_new :: "'j json_api \<Rightarrow> 'j \<Rightarrow> 'j Dataset run" where
  "CBASDataset_new J jspec =
     rbind (juint J jspec CBSDKD_MSGFLD_CBAS_COUNT) (\<lambda>cnt.
     let spec = \<lparr>cbas_count = cnt\<rparr>
     in Inr (snd (CBASDataset_verify_spec spec (Dataset_new DSTYPE_CBAS (CBAS spec)))))"

text \<open>\<open>fromType\<close>: \<open>None\<close> is the null pointer. Every kind but the inline one asserts that there is data.\<close>

definition fromType :: "'j json_api \<Rightarrow> Type \<Rightarrow> 'j Message \<Rightarrow> 'j Dataset option run" where
  "fromType J t req =
     (if t \<notin> {DSTYPE_INLINE, DSTYPE_SEEDED, DSTYPE_N1QL, DSTYPE_SD, DSTYPE_FTS, DSTYPE_CBAS}
      then Inr None else
      rbind (jfield J (payload req) CBSDKD_MSGFLD_DSREQ_DS) (\<lambda>ds.
      rbind (require (t = DSTYPE_INLINE \<or> j_truth J ds) AssertFailed) (\<lambda>_.
      rbind (if t = DSTYPE_INLINE then DatasetInline_new J ds
             else if t = DSTYPE_SEEDED then DatasetSeeded_new J ds
             else if t = DSTYPE_N1QL then N1QLDataset_new J ds
             else if t = DSTYPE_SD then
               (if cmd_code (command req) = MC_DS_SD_LOAD then SDDataset_new J ds True
                else SDDataset_new J ds False)
             else if t = DSTYPE_FTS then FTSDataset_new J ds
             else CBASDataset_new J ds)
        (\<lambda>ret. Inr (Some ret)))))"

definition getCount :: "'j json_api \<Rightarrow> 'j Dataset \<Rightarrow> 32 word" where
  "getCount J ds =
     (case ds_body ds of
        Inline items \<Rightarrow> j_size J items
      | Seeded spec \<Rightarrow> seed_count spec
      | N1QL spec \<Rightarrow> nq_count spec
      | SD spec \<Rightarrow> sd_count spec
      | FTS spec \<Rightarrow> fts_count spec
      | CBAS spec \<Rightarrow> cbas_count spec)"

section \<open>Iterators\<close>

record dsiter =
  curk :: string
  curv :: string
  curp :: string
  curc :: string
  curidx :: "32 word"

text \<open>
  A new iterator. Only the inline one sets the index; the others leave it as the memory was
  (\<open>u\<close>) until \<open>start\<close>.
\<close>

definition getIter :: "32 word \<Rightarrow> 'j Dataset \<Rightarrow> dsiter" where
  "getIter u ds = \<lparr>curk = [], curv = [], curp = [], curc = [],
     curidx = (case ds_body ds of Inline _ \<Rightarrow> 0 | _ \<Rightarrow> u)\<rparr>"

subsection \<open>Items\<close>

text \<open>
  \<open>_fill_repeat\<close>. The bound \<open>limit-1\<close> is computed in 32 bits, so a limit of 0 is the largest
  bound. The loop stops because the appended string is never empty: it ends with the digits
  of the index.
\<close>

function fill_loop :: "nat \<Rightarrow> string \<Rightarrow> string \<Rightarrow> string" where
  "fill_loop bound ext result =
     (if length result < bound \<and> ext \<noteq> [] then fill_loop bound ext (result @ ext) else result)"
  by pat_completeness auto
termination
  by (relation "measure (\<lambda>(bound, ext, result). bound - length result)") (auto intro!: diff_less_mono2)

declare fill_loop.simps [simp del]

definition fill_repeat :: "string \<Rightarrow> 32 word \<Rightarrow> string \<Rightarrow> 32 word \<Rightarrow> string" where
  "fill_repeat base limit rep idx =
     (let repeat_ext = rep @ nat_to_string (unat idx)
      in fill_loop (unat (limit - 1)) repeat_ext (base @ repeat_ext))"

definition DatasetInlineIterator_init_data ::
    "'j json_api \<Rightarrow> 'j \<Rightarrow> 32 word \<Rightarrow> dsiter \<Rightarrow> dsiter run" where
  "DatasetInlineIterator_init_data J items idx it =
     rbind (jitem J items (sint idx)) (\<lambda>pair.
     if j_isArray J pair then
       rbind (rbind (jitem J pair 0) (jasString J)) (\<lambda>k.
       rbind (rbind (jitem J pair 1) (jasString J)) (\<lambda>v.
       Inr (it\<lparr>curk := k, curv := v\<rparr>)))
     else rbind (jasString J pair) (\<lambda>k. Inr (it\<lparr>curk := k\<rparr>)))"

definition DatasetSeededIterator_init_data ::
    "DatasetSeedSpecification \<Rightarrow> 32 word \<Rightarrow> dsiter \<Rightarrow> dsiter run" where
  "DatasetSeededIterator_init_data spec idx it =
     Inr (it\<lparr>curk := fill_repeat (seed_kseed spec) (seed_ksize spec) (seed_repeat spec) idx,
            curv := fill_repeat (seed_vseed spec) (seed_vsize spec) (seed_repeat spec) idx\<rparr>)"

text \<open>
  The loop over the parameters advances both iterators and compares only the first: with
  fewer values than parameters it reads past the end of the values.
\<close>

fun set_params :: "'j json_api \<Rightarrow> 'j \<Rightarrow> string list \<Rightarrow> string list \<Rightarrow> 'j run" where
  "set_params J doc [] vs = Inr doc"
| "set_params J doc (p # ps) [] = Inl BadAccess"
| "set_params J doc (p # ps) (v # vs) =
     rbind (jset J doc p (j_str J v)) (\<lambda>doc'. set_params J doc' ps vs)"

definition N1QLDatasetIterator_init_data ::
    "'j json_api \<Rightarrow> N1QLDatasetSpecification \<Rightarrow> 32 word \<Rightarrow> dsiter \<Rightarrow> dsiter run" where
  "N1QLDatasetIterator_init_data J spec idx it =
     rbind (jset J (j_null J) ''id'' (j_str J (int_to_string (sint idx)))) (\<lambda>doc0.
     rbind (set_params J doc0 (nq_params spec) (nq_paramValues spec)) (\<lambda>doc.
     rbind (jstr J doc ''id'') (\<lambda>k.
     Inr (it\<lparr>curv := j_write J doc, curk := k\<rparr>))))"

text \<open>
  The subdocument loader copies the written document without its first character, its last
  two and every backslash.
\<close>

definition strip_written :: "string \<Rightarrow> string" where
  "strip_written s =
     map (\<lambda>i. s ! i)
       (filter (\<lambda>i. s ! i \<noteq> CHR 0x5C \<and> i \<noteq> 0 \<and> i + 2 \<noteq> length s \<and> i + 1 \<noteq> length s)
         [0..<length s])"

definition SDDatasetIterator_init_data ::
    "'j json_api \<Rightarrow> 'j SDDatasetSpecification \<Rightarrow> 32 word \<Rightarrow> dsiter \<Rightarrow> dsiter run" where
  "SDDatasetIterator_init_data J spec idx it =
     (let it1 = (if sd_load spec then it\<lparr>curv := strip_written (j_write J (sd_doc spec))\<rparr>
                 else it\<lparr>curp := sd_path spec, curv := sd_value spec, curc := sd_command spec\<rparr>)
      in Inr (it1\<lparr>curk := int_to_string (sint idx)\<rparr>))"

definition sample_doc :: "'j json_api \<Rightarrow> 32 word \<Rightarrow> 'j run" where
  "sample_doc J idx =
     rbind (jset J (j_null J) ''value'' (j_str J (''SampleValue'' @ int_to_string (sint idx)))) (\<lambda>doc.
     rbind (jset J (j_null J) ''subvalue''
              (j_str J (''SampleSubvalue'' @ int_to_string (sint idx)))) (\<lambda>sub0.
     rbind (jset J sub0 ''recurringField'' (j_str J ''RecurringSubvalue'')) (\<lambda>subValue.
     jset J doc ''SubFields'' subValue)))"

definition FTSDatasetIterator_init_data ::
    "'j json_api \<Rightarrow> 32 word \<Rightarrow> dsiter \<Rightarrow> dsiter run" where
  "FTSDatasetIterator_init_data J idx it =
     rbind (sample_doc J idx) (\<lambda>doc.
     Inr (it\<lparr>curv := j_write J doc, curk := int_to_string (sint idx)\<rparr>))"

definition CBASDatasetIterator_init_data ::
    "'j json_api \<Rightarrow> 32 word \<Rightarrow> dsiter \<Rightarrow> dsiter run" where
  "CBASDatasetIterator_init_data J idx it =
     rbind (sample_doc J idx) (\<lambda>doc.
     Inr (it\<lparr>curv := j_write J doc, curk := int_to_string (sint idx)\<rparr>))"

definition init_data :: "'j json_api \<Rightarrow> 'j Dataset \<Rightarrow> 32 word \<Rightarrow> dsiter \<Rightarrow> dsiter run" where
  "init_data J ds idx it =
     (case ds_body ds of
        Inline items \<Rightarrow> DatasetInlineIterator_init_data J items idx it
      | Seeded spec \<Rightarrow> DatasetSeededIterator_init_data spec idx it
      | N1QL spec \<Rightarrow> N1QLDatasetIterator_init_data J spec idx it
      | SD spec \<Rightarrow> SDDatasetIterator_init_data J spec idx it
      | FTS spec \<Rightarrow> FTSDatasetIterator_init_data J idx it
      | CBAS spec \<Rightarrow> CBASDatasetIterator_init_data J idx it)"

subsection \<open>Moving\<close>

definition DatasetIterator_start :: "'j json_api \<Rightarrow> 'j Dataset \<Rightarrow> dsiter \<Rightarrow> dsiter run" where
  "DatasetIterator_start J ds it = init_data J ds 0 (it\<lparr>curidx := 0\<rparr>)"

definition DatasetIterator_advance :: "'j json_api \<Rightarrow> 'j Dataset \<Rightarrow> dsiter \<Rightarrow> dsiter run" where
  "DatasetIterator_advance J ds it =
     (let i = curidx it + 1 in init_data J ds i (it\<lparr>curidx := i\<rparr>))"

definition wrap_index :: "bool \<Rightarrow> 32 word \<Rightarrow> 32 word \<Rightarrow> 32 word" where
  "wrap_index continuous cnt i = (if continuous \<and> cnt \<le> i then 0 else i)"

definition DatasetSeededIterator_advance ::
    "'j json_api \<Rightarrow> DatasetSeedSpecification \<Rightarrow> 'j Dataset \<Rightarrow> dsiter \<Rightarrow> dsiter run" where
  "DatasetSeededIterator_advance J spec ds it =
     (let i = wrap_index (seed_continuous spec) (seed_count spec) (curidx it + 1)
      in init_data J ds i (it\<lparr>curidx := i\<rparr>))"

definition N1QLDatasetIterator_advance ::
    "'j json_api \<Rightarrow> N1QLDatasetSpecification \<Rightarrow> 'j Dataset \<Rightarrow> dsiter \<Rightarrow> dsiter run" where
  "N1QLDatasetIterator_advance J spec ds it =
     (let i = wrap_index (nq_continuous spec) (nq_count spec) (curidx it + 1)
      in init_data J ds i (it\<lparr>curidx := i\<rparr>))"

definition SDDatasetIterator_advance ::
    "'j json_api \<Rightarrow> 'j SDDatasetSpecification \<Rightarrow> 'j Dataset \<Rightarrow> dsiter \<Rightarrow> dsiter run" where
  "SDDatasetIterator_advance J spec ds it =
     (let i = wrap_index (sd_continuous spec) (sd_count spec) (curidx it + 1)
      in init_data J ds i (it\<lparr>curidx := i\<rparr>))"

definition FTSDatasetIterator_advance :: "'j json_api \<Rightarrow> 'j Dataset \<Rightarrow> dsiter \<Rightarrow> dsiter run" where
  "FTSDatasetIterator_advance J ds it = DatasetIterator_advance J ds it"

definition CBASDatasetIterator_advance :: "'j json_api \<Rightarrow> 'j Dataset \<Rightarrow> dsiter \<Rightarrow> dsiter run" where
  "CBASDatasetIterator_advance J ds it = DatasetIterator_advance J ds it"

definition iter_advance :: "'j json_api \<Rightarrow> 'j Dataset \<Rightarrow> dsiter \<Rightarrow> dsiter run" where
  "iter_advance J ds it =
     (case ds_body ds of
        Inline items \<Rightarrow> DatasetIterator_advance J ds it
      | Seeded spec \<Rightarrow> DatasetSeededIterator_advance J spec ds it
      | N1QL spec \<Rightarrow> N1QLDatasetIterator_advance J spec ds it
      | SD spec \<Rightarrow> SDDatasetIterator_advance J spec ds it
      | FTS spec \<Rightarrow> FTSDatasetIterator_advance J ds it
      | CBAS spec \<Rightarrow> CBASDatasetIterator_advance J ds it)"

definition DatasetInlineIterator_done :: "'j json_api \<Rightarrow> 'j \<Rightarrow> dsiter \<Rightarrow> bool" where
  "DatasetInlineIterator_done J items it = (if j_size J items \<le> curidx it then True else False)"

definition DatasetSeededIterator_done :: "DatasetSeedSpecification \<Rightarrow> dsiter \<Rightarrow> bool" where
  "DatasetSeededIterator_done spec it =
     (if seed_continuous spec then False else if seed_count spec \<le> curidx it then True else False)"

definition N1QLDatasetIterator_done :: "N1QLDatasetSpecification \<Rightarrow> dsiter \<Rightarrow> bool" where
  "N1QLDatasetIterator_done spec it =
     (if nq_continuous spec then False else if nq_count spec \<le> curidx it then True else False)"

definition SDDatasetIterator_done :: "'j SDDatasetSpecification \<Rightarrow> dsiter \<Rightarrow> bool" where
  "SDDatasetIterator_done spec it =
     (if sd_continuous spec then False else if sd_count spec \<le> curidx it then True else False)"

definition FTSDatasetIterator_done :: "FTSDatasetSpecification \<Rightarrow> dsiter \<Rightarrow> bool" where
  "FTSDatasetIterator_done spec it = (if fts_count spec \<le> curidx it then True else False)"

definition CBASDatasetIterator_done :: "CBASDatasetSpecification \<Rightarrow> dsiter \<Rightarrow> bool" where
  "CBASDatasetIterator_done spec it = (if cbas_count spec \<le> curidx it then True else False)"

definition iter_done :: "'j json_api \<Rightarrow> 'j Dataset \<Rightarrow> dsiter \<Rightarrow> bool" where
  "iter_done J ds it =
     (case ds_body ds of
        Inline items \<Rightarrow> DatasetInlineIterator_done J items it
      | Seeded spec \<Rightarrow> DatasetSeededIterator_done spec it
      | N1QL spec \<Rightarrow> N1QLDatasetIterator_done spec it
      | SD spec \<Rightarrow> SDDatasetIterator_done spec it
      | FTS spec \<Rightarrow> FTSDatasetIterator_done spec it
      | CBAS spec \<Rightarrow> CBASDatasetIterator_done spec it)"

lemmas iterator_defs = iter_advance_def DatasetIterator_advance_def DatasetSeededIterator_advance_def
  N1QLDatasetIterator_advance_def SDDatasetIterator_advance_def FTSDatasetIterator_advance_def
  CBASDatasetIterator_advance_def iter_done_def DatasetInlineIterator_done_def
  DatasetSeededIterator_done_def N1QLDatasetIterator_done_def SDDatasetIterator_done_def
  FTSDatasetIterator_done_def CBASDatasetIterator_done_def

end
