(* ===== verification/Iterators.thy ===== *)
theory Iterators
  imports Datasets "HOL-Library.Extended_Nat"
begin

text \<open>
  The iterator interface of the datasets. A \<open>for\<close> statement over an iterator is
  \<open>for_each\<close>, with fuel because a continuous dataset never ends. The locale states what such
  a loop relies on; inside it the loop is proved to be a traversal of the list of items. The
  interpretation gives the laws for the iterators of \<open>Datasets\<close>, whatever the kind.
\<close>

section \<open>Loops over an iterator\<close>

datatype loop_end = Exhausted | Stopped | Returned

text \<open>
  One round: the \<open>done\<close> test, then the rest of the loop condition (\<open>stop\<close>, which may read and
  change the state), the body, which may return from the function, and \<open>advance\<close>.
\<close>

fun for_each :: "('it \<Rightarrow> bool) \<Rightarrow> ('it \<Rightarrow> 'it run) \<Rightarrow> ('s \<Rightarrow> bool \<times> 's)
    \<Rightarrow> ('it \<Rightarrow> 's \<Rightarrow> (bool \<times> 's) run) \<Rightarrow> nat \<Rightarrow> 'it \<Rightarrow> 's \<Rightarrow> (loop_end \<times> 's) run" where
  "for_each fin adv stop body 0 it s = Inl Running"
| "for_each fin adv stop body (Suc fuel) it s =
     (if fin it then Inr (Exhausted, s)
      else let (b, s1) = stop s in
        if b then Inr (Stopped, s1)
        else rbind (body it s1) (\<lambda>(go, s2).
          if \<not> go then Inr (Returned, s2)
          else rbind (adv it) (\<lambda>it'. for_each fin adv stop body fuel it' s2)))"

text \<open>The same loop over a list of items.\<close>

fun each_item :: "('s \<Rightarrow> bool \<times> 's) \<Rightarrow> ('a \<Rightarrow> 's \<Rightarrow> (bool \<times> 's) run)
    \<Rightarrow> 'a list \<Rightarrow> 's \<Rightarrow> (loop_end \<times> 's) run" where
  "each_item stop act [] s = Inr (Exhausted, s)"
| "each_item stop act (x # xs) s =
     (let (b, s1) = stop s in
      if b then Inr (Stopped, s1)
      else rbind (act x s1) (\<lambda>(go, s2).
        if \<not> go then Inr (Returned, s2) else each_item stop act xs s2))"

text \<open>An invariant of the rounds is an invariant of the loop.\<close>

lemma each_item_invariant:
  assumes "each_item stop act xs s = Inr (e, s')" and "P s"
    and "\<And>s b s1. P s \<Longrightarrow> stop s = (b, s1) \<Longrightarrow> P s1"
    and "\<And>x s go s'. x \<in> set xs \<Longrightarrow> P s \<Longrightarrow> act x s = Inr (go, s') \<Longrightarrow> P s'"
  shows "P s'"
  using assms(1,2,4)
proof (induction xs arbitrary: s)
  case Nil
  then show ?case by simp
next
  case (Cons x xs)
  obtain b s1 where st: "stop s = (b, s1)" by (cases "stop s")
  with Cons.prems assms(3) have P1: "P s1" by blast
  show ?case
  proof (cases b)
    case True
    with Cons.prems(1) st P1 show ?thesis by simp
  next
    case False
    with Cons.prems(1) st obtain go s2 where a: "act x s1 = Inr (go, s2)"
      and r: "(if \<not> go then Inr (Returned, s2) else each_item stop act xs s2) = Inr (e, s')"
      by (auto simp: rbind_eq_Inr)
    have P2: "P s2" using Cons.prems(3) [OF _ P1 a] by simp
    show ?thesis
    proof (cases go)
      case True
      with r have "each_item stop act xs s2 = Inr (e, s')" by simp
      then show ?thesis using P2 Cons.prems(3) by (rule Cons.IH) simp_all
    next
      case False
      with r P2 show ?thesis by simp
    qed
  qed
qed

lemma settles_each_item:
  assumes "\<And>x s. x \<in> set xs \<Longrightarrow> settles (act x s)"
  shows "settles (each_item stop act xs s)"
  using assms
proof (induction xs arbitrary: s)
  case Nil
  then show ?case by simp
next
  case (Cons x xs)
  then show ?case by (auto simp: split_beta Let_def)
qed

section \<open>The interface\<close>

locale dataset_iterator =
  fixes start :: "'it run" and adv :: "'it \<Rightarrow> 'it run" and fin :: "'it \<Rightarrow> bool"
    and item :: "'it \<Rightarrow> 'a" and at_pos :: "'it \<Rightarrow> nat \<Rightarrow> bool"
    and load :: "nat \<Rightarrow> 'a run" and total :: enat
  assumes start_law: "case load 0 of Inl h \<Rightarrow> start = Inl h
      | Inr x \<Rightarrow> \<exists>it. start = Inr it \<and> at_pos it 0 \<and> item it = x"
    and adv_law: "at_pos it n \<Longrightarrow> enat n < total \<Longrightarrow>
      (case load (Suc n) of Inl h \<Rightarrow> adv it = Inl h
       | Inr x \<Rightarrow> \<exists>it'. adv it = Inr it' \<and> at_pos it' (Suc n) \<and> item it' = x)"
    and fin_law: "at_pos it n \<Longrightarrow> fin it \<longleftrightarrow> total \<le> enat n"
begin

lemma for_each_from:
  assumes N: "total = enat N" and loads: "\<And>i. i \<le> N \<Longrightarrow> load i = Inr (x i)"
  shows "at_pos it n \<Longrightarrow> item it = x n \<Longrightarrow> n \<le> N \<Longrightarrow> N - n < fuel \<Longrightarrow>
    for_each fin adv stop (\<lambda>it. act (item it)) fuel it s = each_item stop act (map x [n..<N]) s"
proof (induction fuel arbitrary: it n s)
  case 0
  then show ?case by simp
next
  case (Suc fuel)
  show ?case
  proof (cases "n = N")
    case True
    with Suc.prems N show ?thesis by (simp add: fin_law)
  next
    case False
    with Suc.prems have n: "n < N" by simp
    have nf: "\<not> fin it" using fin_law [OF Suc.prems(1)] N n by simp
    from adv_law [OF Suc.prems(1)] N n loads [of "Suc n"]
    obtain it' where it': "adv it = Inr it'" "at_pos it' (Suc n)" "item it' = x (Suc n)"
      by auto
    have IH: "for_each fin adv stop (\<lambda>it. act (item it)) fuel it' s2 =
        each_item stop act (map x [Suc n..<N]) s2" for s2
      using it' n Suc.prems by (intro Suc.IH) auto
    have "[n..<N] = n # [Suc n..<N]" using n by (rule upt_conv_Cons)
    then show ?thesis
      using nf it'(1) Suc.prems(2)
      by (auto simp: IH split: prod.split intro!: rbind_cong)
  qed
qed

text \<open>A finite dataset: the loop is the traversal of its items, and \<open>N + 1\<close> rounds are enough.\<close>

lemma for_each_finite:
  assumes "total = enat N" and "\<And>i. i \<le> N \<Longrightarrow> load i = Inr (x i)" and "N < fuel"
  shows "rbind start (\<lambda>it. for_each fin adv stop (\<lambda>it. act (item it)) fuel it s) =
    each_item stop act (map x [0..<N]) s"
proof -
  from start_law assms(2) [of 0] obtain it
    where "start = Inr it" "at_pos it 0" "item it = x 0" by auto
  with for_each_from [OF assms(1,2), of it 0 fuel stop act s] assms(3) show ?thesis by simp
qed

text \<open>
  Any dataset, for as long as it lasts: within its first \<open>fuel\<close> items the loop does what the
  traversal of these items does, and is still running if the traversal neither stops nor
  returns.
\<close>

lemma for_each_prefix_from:
  assumes loads: "\<And>i. load i = Inr (x i)"
  shows "at_pos it n \<Longrightarrow> item it = x n \<Longrightarrow> enat (n + fuel) \<le> total \<Longrightarrow>
    for_each fin adv stop (\<lambda>it. act (item it)) fuel it s =
      rbind (each_item stop act (map x [n..<n + fuel]) s)
        (\<lambda>(e, s'). if e = Exhausted then Inl Running else Inr (e, s'))"
proof (induction fuel arbitrary: it n s)
  case 0
  then show ?case by simp
next
  case (Suc fuel)
  have lt: "enat n < total"
    using Suc.prems(3) by (metis add_Suc_right enat_ord_simps(2) less_add_Suc1 order_less_le_trans)
  then have nf: "\<not> fin it" using fin_law [OF Suc.prems(1)] by simp
  from adv_law [OF Suc.prems(1) lt] loads [of "Suc n"]
  obtain it' where it': "adv it = Inr it'" "at_pos it' (Suc n)" "item it' = x (Suc n)"
    by auto
  have IH: "for_each fin adv stop (\<lambda>it. act (item it)) fuel it' s2 =
      rbind (each_item stop act (map x [Suc n..<Suc n + fuel]) s2)
        (\<lambda>(e, s'). if e = Exhausted then Inl Running else Inr (e, s'))" for s2
    using it' Suc.prems by (intro Suc.IH) auto
  have "[n..<n + Suc fuel] = n # [Suc n..<Suc n + fuel]" by (simp add: upt_conv_Cons)
  then show ?case
    using nf it'(1) Suc.prems(2)
    by (auto simp: IH rbind_assoc split: prod.split intro!: rbind_cong)
qed

lemma for_each_prefix:
  assumes "\<And>i. load i = Inr (x i)" and "enat fuel \<le> total"
  shows "rbind start (\<lambda>it. for_each fin adv stop (\<lambda>it. act (item it)) fuel it s) =
    rbind (each_item stop act (map x [0..<fuel]) s)
      (\<lambda>(e, s'). if e = Exhausted then Inl Running else Inr (e, s'))"
proof -
  from start_law assms(1) [of 0] obtain it
    where "start = Inr it" "at_pos it 0" "item it = x 0" by auto
  with for_each_prefix_from [OF assms(1), of it 0 fuel stop act s] assms(2) show ?thesis by simp
qed

end

section \<open>The iterators of the datasets\<close>

type_synonym item = "string \<times> string \<times> string \<times> string"

definition iter_item :: "dsiter \<Rightarrow> item" where
  "iter_item it = (curk it, curv it, curp it, curc it)"

definition ds_continuous :: "'j Dataset \<Rightarrow> bool" where
  "ds_continuous ds =
     (case ds_body ds of
        Seeded spec \<Rightarrow> seed_continuous spec
      | N1QL spec \<Rightarrow> nq_continuous spec
      | SD spec \<Rightarrow> sd_continuous spec
      | _ \<Rightarrow> False)"

definition ds_total :: "'j json_api \<Rightarrow> 'j Dataset \<Rightarrow> enat" where
  "ds_total J ds = (if ds_continuous ds then \<infinity> else enat (unat (getCount J ds)))"

text \<open>The index after \<open>n\<close> moves.\<close>

definition position :: "bool \<Rightarrow> nat \<Rightarrow> nat \<Rightarrow> nat" where
  "position cont cnt n = (if cont then (if cnt = 0 then 0 else n mod cnt) else n)"

primrec nth_iter :: "'j json_api \<Rightarrow> 32 word \<Rightarrow> 'j Dataset \<Rightarrow> nat \<Rightarrow> dsiter run" where
  "nth_iter J u ds 0 = DatasetIterator_start J ds (getIter u ds)"
| "nth_iter J u ds (Suc n) = rbind (nth_iter J u ds n) (iter_advance J ds)"

definition ds_load :: "'j json_api \<Rightarrow> 32 word \<Rightarrow> 'j Dataset \<Rightarrow> nat \<Rightarrow> item run" where
  "ds_load J u ds n = rbind (nth_iter J u ds n) (\<lambda>it. Inr (iter_item it))"

lemma iter_advance_eq:
  "iter_advance J ds it =
     (let i = wrap_index (ds_continuous ds) (getCount J ds) (curidx it + 1)
      in init_data J ds i (it\<lparr>curidx := i\<rparr>))"
  by (simp add: iterator_defs ds_continuous_def getCount_def wrap_index_def Let_def
      split: ds_body.split)

lemma iter_done_eq:
  "iter_done J ds it \<longleftrightarrow> \<not> ds_continuous ds \<and> getCount J ds \<le> curidx it"
  by (auto simp: iterator_defs ds_continuous_def getCount_def split: ds_body.splits if_splits)

lemma init_data_curidx: "init_data J ds i it = Inr it' \<Longrightarrow> curidx it' = curidx it"
  by (auto simp: init_data_def DatasetInlineIterator_init_data_def
      DatasetSeededIterator_init_data_def N1QLDatasetIterator_init_data_def
      SDDatasetIterator_init_data_def FTSDatasetIterator_init_data_def
      CBASDatasetIterator_init_data_def Let_def rbind_eq_Inr split: ds_body.splits if_splits)

lemma wrap_index_position:
  fixes cnt :: "32 word"
  assumes "\<not> cont \<Longrightarrow> n < unat cnt"
  shows "wrap_index cont cnt (word_of_nat (position cont (unat cnt) n) + 1)
    = word_of_nat (position cont (unat cnt) (Suc n))"
proof (cases cont)
  case False
  then show ?thesis by (simp add: wrap_index_def position_def)
next
  case True
  show ?thesis
  proof (cases "unat cnt = 0")
    case True
    with \<open>cont\<close> show ?thesis by (simp add: wrap_index_def position_def unat_eq_0)
  next
    case False
    define p where "p = n mod unat cnt"
    have p: "p < unat cnt" using False by (simp add: p_def)
    have c: "unat cnt < 2 ^ 32" by (rule unat_lt_32)
    have "unat (word_of_nat (Suc p) :: 32 word) = Suc p"
      by (rule unat_of_small) (use p c in linarith)
    then have le: "cnt \<le> word_of_nat (Suc p) \<longleftrightarrow> unat cnt = Suc p"
      using p by (auto simp: word_le_nat_alt simp del: of_nat_Suc)
    have step: "Suc n mod unat cnt = (if Suc p = unat cnt then 0 else Suc p)"
      by (simp add: mod_Suc p_def)
    have "wrap_index cont cnt (word_of_nat p + 1) = (if unat cnt = Suc p then 0 else word_of_nat (Suc p))"
      using \<open>cont\<close> le by (simp add: wrap_index_def add.commute)
    with \<open>cont\<close> False step show ?thesis by (auto simp: position_def p_def)
  qed
qed

text \<open>After \<open>n\<close> moves within the dataset the index is the position.\<close>

lemma nth_iter_curidx:
  "nth_iter J u ds n = Inr it \<Longrightarrow> enat n \<le> ds_total J ds \<Longrightarrow>
    curidx it = word_of_nat (position (ds_continuous ds) (unat (getCount J ds)) n)"
proof (induction n arbitrary: it)
  case 0
  then show ?case
    by (auto simp: DatasetIterator_start_def position_def dest: init_data_curidx)
next
  case (Suc n)
  from Suc.prems obtain it0 where it0: "nth_iter J u ds n = Inr it0"
    and adv: "iter_advance J ds it0 = Inr it" by (auto simp: rbind_eq_Inr)
  have "enat n \<le> ds_total J ds"
    using Suc.prems(2) by (meson Suc_ile_eq order_less_imp_le)
  then have "curidx it0 = word_of_nat (position (ds_continuous ds) (unat (getCount J ds)) n)"
    using Suc.IH it0 by blast
  moreover have "curidx it = wrap_index (ds_continuous ds) (getCount J ds) (curidx it0 + 1)"
    using adv by (auto simp: iter_advance_eq Let_def dest: init_data_curidx)
  moreover have "\<not> ds_continuous ds \<Longrightarrow> n < unat (getCount J ds)"
    using Suc.prems(2) by (simp add: ds_total_def)
  ultimately show ?case by (simp add: wrap_index_position)
qed

lemma position_done:
  assumes "enat n \<le> ds_total J ds"
  shows "\<not> ds_continuous ds \<and>
      getCount J ds \<le> word_of_nat (position (ds_continuous ds) (unat (getCount J ds)) n)
    \<longleftrightarrow> ds_total J ds \<le> enat n"
proof (cases "ds_continuous ds")
  case True
  then show ?thesis by (simp add: ds_total_def)
next
  case False
  with assms have n: "n \<le> unat (getCount J ds)" by (simp add: ds_total_def)
  then have "unat (word_of_nat n :: 32 word) = n"
    using unat_lt_32 [of "getCount J ds"] by (simp add: unat_of_small)
  with False show ?thesis by (simp add: ds_total_def position_def word_le_nat_alt)
qed

interpretation ds: dataset_iterator "DatasetIterator_start J ds (getIter u ds)" "iter_advance J ds"
  "iter_done J ds" iter_item "\<lambda>it n. nth_iter J u ds n = Inr it \<and> enat n \<le> ds_total J ds"
  "ds_load J u ds" "ds_total J ds"
  for J :: "'j json_api" and u ds
proof unfold_locales
  show "case ds_load J u ds 0 of Inl h \<Rightarrow> DatasetIterator_start J ds (getIter u ds) = Inl h
    | Inr x \<Rightarrow> \<exists>it. DatasetIterator_start J ds (getIter u ds) = Inr it \<and>
        (nth_iter J u ds 0 = Inr it \<and> enat 0 \<le> ds_total J ds) \<and> iter_item it = x"
    by (cases "DatasetIterator_start J ds (getIter u ds)") (simp_all add: ds_load_def zero_enat_def [symmetric])
next
  fix it n
  assume "nth_iter J u ds n = Inr it \<and> enat n \<le> ds_total J ds" and "enat n < ds_total J ds"
  then show "case ds_load J u ds (Suc n) of Inl h \<Rightarrow> iter_advance J ds it = Inl h
    | Inr x \<Rightarrow> \<exists>it'. iter_advance J ds it = Inr it' \<and>
        (nth_iter J u ds (Suc n) = Inr it' \<and> enat (Suc n) \<le> ds_total J ds) \<and> iter_item it' = x"
    by (cases "iter_advance J ds it") (simp_all add: ds_load_def Suc_ile_eq)
next
  fix it n
  assume at: "nth_iter J u ds n = Inr it \<and> enat n \<le> ds_total J ds"
  then have "curidx it = word_of_nat (position (ds_continuous ds) (unat (getCount J ds)) n)"
    using nth_iter_curidx by blast
  with at position_done [of n J ds] show "iter_done J ds it = (ds_total J ds \<le> enat n)"
    by (simp add: iter_done_eq)
qed

end
