(* ===== verification/Handle.thy ===== *)
theory Handle
  imports Routing Iterators World
begin

text \<open>
  The bulk operations of a handle (\<open>src/Handle.h\<close>, \<open>src/Handle.cpp\<close>): each walks a dataset, submits
  one request per item and hands the replies to the result set, in batches of \<open>IterWait\<close> or
  all at the end. A loop over a continuous dataset only ends when another thread cancels it,
  so the loops have fuel. The state of an operation is the io state and the result set.
\<close>

type_synonym op_state = "io \<times> ResultSet"

section \<open>Collecting results\<close>

definition collect_result :: "world \<Rightarrow> op_state \<Rightarrow> op_state run" where
  "collect_result w st =
     (if remaining (snd st) = 0 then Inr st
      else drainPendingFutures w (rescode_handler w) st)"

definition postsubmit :: "world \<Rightarrow> 32 word \<Rightarrow> op_state \<Rightarrow> (bool \<times> op_state) run" where
  "postsubmit w nsubmit st =
     (let (io, rs0) = st; rs = rs0\<lparr>remaining := remaining rs0 + uint nsubmit\<rparr> in
      if iterwait (options rs) = 0 then Inr (True, (io, rs))
      else if 0 < remaining rs \<and> word_of_int (remaining rs) < iterwait (options rs)
      then Inr (True, (io, rs))
      else rbind (drainPendingFutures w (rescode_handler w) (io, rs)) (\<lambda>(io1, rs1).
           rbind (roll_delay w (options rs1) io1) (\<lambda>(wait_msec, io2).
           Inr (False, (if wait_msec \<noteq> 0 then sdkd_millisleep wait_msec io2 else io2, rs1)))))"

section \<open>One item\<close>

definition document_id_of :: "HandleOptions \<Rightarrow> string \<Rightarrow> string \<times> string \<Rightarrow> document_id" where
  "document_id_of opts key coll = \<lparr>doc_bucket = bucket opts, doc_scope = fst coll,
     doc_collection = snd coll, doc_key = key\<rparr>"

definition submit_one :: "world \<Rightarrow> request option \<Rightarrow> op_state \<Rightarrow> (bool \<times> op_state) run" where
  "submit_one w req st =
     (let (io, rs) = io_markBegin w st;
          io1 = (case req of None \<Rightarrow> io | Some r \<Rightarrow> submit r io)
      in rbind (postsubmit w 1 (io1, rs)) (\<lambda>(_, st'). Inr (True, st')))"

definition get_item :: "world \<Rightarrow> HandleOptions \<Rightarrow> item \<Rightarrow> op_state \<Rightarrow> (bool \<times> op_state) run" where
  "get_item w opts x st =
     (let (k, _, _, _) = x in
      rbind (getCollection opts k) (\<lambda>collection.
      submit_one w (Some (GetReq (document_id_of opts k collection))) st))"

definition FLAGS :: "32 word" where
  "FLAGS = 2"

definition mutation_commands :: "Code list" where
  "mutation_commands = [MC_DS_MUTATE_ADD, MC_DS_MUTATE_SET, MC_DS_MUTATE_REPLACE,
     MC_DS_MUTATE_APPEND, MC_DS_MUTATE_PREPEND]"

definition mutate_request :: "Code \<Rightarrow> document_id \<Rightarrow> string \<Rightarrow> 32 word \<Rightarrow> request option" where
  "mutate_request cmd did v ex =
     (if cmd = MC_DS_MUTATE_SET then Some (UpsertReq did v (Some (ex, FLAGS)))
      else if cmd = MC_DS_MUTATE_ADD then Some (InsertReq did v (Some (ex, FLAGS)))
      else if cmd = MC_DS_MUTATE_APPEND then Some (AppendReq did v)
      else if cmd = MC_DS_MUTATE_PREPEND then Some (PrependReq did v)
      else if cmd = MC_DS_MUTATE_REPLACE then Some (ReplaceReq did v (Some (ex, FLAGS)))
      else None)"

definition mutate_item ::
    "world \<Rightarrow> HandleOptions \<Rightarrow> Code \<Rightarrow> 32 word \<Rightarrow> item \<Rightarrow> op_state \<Rightarrow> (bool \<times> op_state) run" where
  "mutate_item w opts cmd ex x st =
     (let (k, v, _, _) = x in
      rbind (getCollection opts k) (\<lambda>collection.
      submit_one w (mutate_request cmd (document_id_of opts k collection) v ex) st))"

definition keyop_item ::
    "world \<Rightarrow> HandleOptions \<Rightarrow> Code \<Rightarrow> item \<Rightarrow> op_state \<Rightarrow> (bool \<times> op_state) run" where
  "keyop_item w opts cmd x st =
     (let (k, _, _, _) = x in
      rbind (getCollection opts k) (\<lambda>collection.
      let did = document_id_of opts k collection
      in submit_one w (Some (if cmd = MC_DS_DELETE then RemoveReq did else TouchReq did)) st))"

text \<open>A subdocument command that is not known builds no request.\<close>

definition subdoc_request :: "document_id \<Rightarrow> string \<Rightarrow> string \<Rightarrow> string \<Rightarrow> request option" where
  "subdoc_request did cmdname path value =
     (if cmdname = ''get'' then Some (LookupInReq did [(SdGet, path)])
      else if cmdname = ''get_multi'' then Some (LookupInReq did [(SdGet, path), (SdExists, path)])
      else if cmdname = ''replace'' then Some (MutateInReq did [(SdReplace, path, value)])
      else if cmdname = ''dict_add'' then Some (MutateInReq did [(SdDictAdd, path, value)])
      else if cmdname = ''dict_upsert'' then Some (MutateInReq did [(SdDictUpsert, path, value)])
      else if cmdname = ''array_add'' then Some (MutateInReq did [(SdArrayPushFirst, path, value)])
      else if cmdname = ''array_add_last'' then Some (MutateInReq did [(SdArrayPushLast, path, value)])
      else if cmdname = ''counter'' then Some (MutateInReq did [(SdCounter, path, value)])
      else None)"

definition subdoc_item :: "world \<Rightarrow> HandleOptions \<Rightarrow> item \<Rightarrow> op_state \<Rightarrow> (bool \<times> op_state) run" where
  "subdoc_item w opts x st =
     (let (key, value, path, cmdname) = x in
      rbind (getCollection opts key) (\<lambda>collection.
      submit_one w (subdoc_request (document_id_of opts key collection) cmdname path value) st))"

section \<open>The loops\<close>

text \<open>The test of \<open>do_cancel\<close> in the loop condition.\<close>

definition poll_cancel :: "world \<Rightarrow> op_state \<Rightarrow> bool \<times> op_state" where
  "poll_cancel w st = (let (b, io) = isCancelled w (fst st) in (b, (io, snd st)))"

definition iterate ::
    "'j json_api \<Rightarrow> world \<Rightarrow> 32 word \<Rightarrow> nat \<Rightarrow> 'j Dataset \<Rightarrow> (item \<Rightarrow> op_state \<Rightarrow> (bool \<times> op_state) run)
      \<Rightarrow> op_state \<Rightarrow> (loop_end \<times> op_state) run" where
  "iterate J w u fuel ds act st =
     rbind (DatasetIterator_start J ds (getIter u ds)) (\<lambda>it.
       for_each (iter_done J ds) (iter_advance J ds) (poll_cancel w) (\<lambda>it. act (iter_item it)) fuel it st)"

definition begin_op :: "ResultOptions \<Rightarrow> op_state \<Rightarrow> op_state" where
  "begin_op opts st = (externalEnter (fst st), clear_results ((snd st)\<lparr>options := opts\<rparr>))"

definition run_op ::
    "'j json_api \<Rightarrow> world \<Rightarrow> 32 word \<Rightarrow> nat \<Rightarrow> 'j Dataset \<Rightarrow> (item \<Rightarrow> op_state \<Rightarrow> (bool \<times> op_state) run)
      \<Rightarrow> ResultOptions \<Rightarrow> op_state \<Rightarrow> (bool \<times> op_state) run" where
  "run_op J w u fuel ds act ropts st =
     rbind (iterate J w u fuel ds act (begin_op ropts st)) (\<lambda>(_, st1).
     rbind (collect_result w st1) (\<lambda>st2. Inr (True, st2)))"

definition dsGet ::
    "'j json_api \<Rightarrow> world \<Rightarrow> HandleOptions \<Rightarrow> 32 word \<Rightarrow> nat \<Rightarrow> 'j Dataset \<Rightarrow> ResultOptions
      \<Rightarrow> op_state \<Rightarrow> (bool \<times> op_state) run" where
  "dsGet J w opts u fuel ds ropts st = run_op J w u fuel ds (get_item w opts) ropts st"

definition dsMutate ::
    "'j json_api \<Rightarrow> world \<Rightarrow> HandleOptions \<Rightarrow> 32 word \<Rightarrow> nat \<Rightarrow> Command \<Rightarrow> 'j Dataset \<Rightarrow> ResultOptions
      \<Rightarrow> op_state \<Rightarrow> (bool \<times> op_state) run" where
  "dsMutate J w opts u fuel cmd ds ropts st =
     (if cmd_code cmd \<notin> set mutation_commands then
        let (io, rs) = begin_op ropts st
        in Inr (False, (io, rs\<lparr>oper_error :=
             Error_of SUBSYSf_SDKD SDKD_EINVAL ''Unknown mutation operation''\<rparr>))
      else run_op J w u fuel ds (mutate_item w opts (cmd_code cmd) (expiry ropts)) ropts st)"

definition dsKeyop ::
    "'j json_api \<Rightarrow> world \<Rightarrow> HandleOptions \<Rightarrow> 32 word \<Rightarrow> nat \<Rightarrow> Command \<Rightarrow> 'j Dataset \<Rightarrow> ResultOptions
      \<Rightarrow> op_state \<Rightarrow> (bool \<times> op_state) run" where
  "dsKeyop J w opts u fuel cmd ds ropts st =
     run_op J w u fuel ds (keyop_item w opts (cmd_code cmd)) ropts st"

definition dsSDSinglePath ::
    "'j json_api \<Rightarrow> world \<Rightarrow> HandleOptions \<Rightarrow> 32 word \<Rightarrow> nat \<Rightarrow> 'j Dataset \<Rightarrow> ResultOptions
      \<Rightarrow> op_state \<Rightarrow> (bool \<times> op_state) run" where
  "dsSDSinglePath J w opts u fuel ds ropts st = run_op J w u fuel ds (subdoc_item w opts) ropts st"

section \<open>Cancellation and the version report\<close>

text \<open>
  \<open>cancelCurrent\<close>: the flag and the file removed, if any. The member \<open>certpath\<close> it tests is the
  handle's own, which nothing sets; the path of the certificate is in the options.
\<close>

definition cancelCurrent :: "string \<Rightarrow> io \<Rightarrow> io \<times> string option" where
  "cancelCurrent own_certpath io =
     (io\<lparr>do_cancel := True\<rparr>, if own_certpath \<noteq> [] then Some own_certpath else None)"

definition VersionInfoJson :: "'j json_api \<Rightarrow> bool \<Rightarrow> nat \<Rightarrow> 'j \<Rightarrow> 'j run" where
  "VersionInfoJson J noPersist now res =
     rbind (jset J (j_null J) ''SDKVersion'' (j_str J [])) (\<lambda>rtComponents.
     rbind (jset_all J (j_null J) [(''SDKVersion'', j_str J []), (''CHANGESET'', j_str J [])]) (\<lambda>hdrComponents.
     rbind (jset J (j_null J) ''RECONNECT'' (j_bool J noPersist)) (\<lambda>config.
     rbind (jset_all J (j_null J)
       [(''CANCEL'', j_bool J True), (''DS_SHARED'', j_bool J True), (''CONTINUOUS'', j_bool J True),
        (''PREAMBLE'', j_bool J False), (''VIEWS'', j_bool J True)]) (\<lambda>caps.
     rbind (jfield J hdrComponents ''CHANGESET'') (\<lambda>changeset.
     jset_all J res
       [(''CAPS'', caps), (''RUNTIME'', rtComponents), (''HEADERS'', hdrComponents),
        (''CONFIG'', config), (''TIME'', j_int J (int now)), (''SDK'', j_str J ''cxx''),
        (''CHANGESET'', changeset)])))))"

end
