(* ===== verification/Loaders.thy ===== *)
theory Loaders
  imports Handle
begin

text \<open>
  The loaders (\<open>src/SDLoader.cpp\<close>, \<open>src/N1QLLoader.cpp\<close>, \<open>src/FTSLoader.cpp\<close>,
  \<open>src/CBASLoader.cpp\<close>, which have the same body, and \<open>src/ViewLoader.cpp\<close>): each stores the
  documents of a dataset. None of their loops tests the cancel flag.
\<close>

section \<open>Document loaders\<close>

type_synonym load_state = "io \<times> nat"

text \<open>One document; every 100th position the pending replies are checked.\<close>

definition load_item :: "world \<Rightarrow> HandleOptions \<Rightarrow> item \<Rightarrow> load_state \<Rightarrow> (bool \<times> load_state) run" where
  "load_item w opts x s =
     (let (io, jj) = s; (k, v, _, _) = x in
      rbind (getCollection opts k) (\<lambda>collection.
      let io1 = submit (UpsertReq (document_id_of opts k collection) v None) io in
      if jj mod 100 = 0 then
        rbind (drainPendingFutures w ok_handler (io1, True)) (\<lambda>(io2, ok).
        Inr (ok, (io2, jj + 1)))
      else Inr (True, (io1, jj + 1))))"

definition no_stop :: "'s \<Rightarrow> bool \<times> 's" where
  "no_stop s = (False, s)"

definition SDLoader_populate ::
    "'j json_api \<Rightarrow> world \<Rightarrow> HandleOptions \<Rightarrow> 32 word \<Rightarrow> nat \<Rightarrow> 'j Dataset \<Rightarrow> io \<Rightarrow> (bool \<times> io) run" where
  "SDLoader_populate J w opts u fuel ds io =
     rbind (DatasetIterator_start J ds (getIter u ds)) (\<lambda>it.
     rbind (for_each (iter_done J ds) (iter_advance J ds) no_stop
              (\<lambda>it. load_item w opts (iter_item it)) fuel it (io, 0)) (\<lambda>(e, (io1, jj)).
     if e = Returned then Inr (False, io1)
     else rbind (drainPendingFutures w ignore_handler (io1, ())) (\<lambda>(io2, _). Inr (True, io2))))"

definition N1QLLoader_populate ::
    "'j json_api \<Rightarrow> world \<Rightarrow> HandleOptions \<Rightarrow> 32 word \<Rightarrow> nat \<Rightarrow> 'j Dataset \<Rightarrow> io \<Rightarrow> (bool \<times> io) run" where
  "N1QLLoader_populate J w opts u fuel ds io =
     rbind (DatasetIterator_start J ds (getIter u ds)) (\<lambda>it.
     rbind (for_each (iter_done J ds) (iter_advance J ds) no_stop
              (\<lambda>it. load_item w opts (iter_item it)) fuel it (io, 0)) (\<lambda>(e, (io1, jj)).
     if e = Returned then Inr (False, io1)
     else rbind (drainPendingFutures w ignore_handler (io1, ())) (\<lambda>(io2, _). Inr (True, io2))))"

definition FTSLoader_populate ::
    "'j json_api \<Rightarrow> world \<Rightarrow> HandleOptions \<Rightarrow> 32 word \<Rightarrow> nat \<Rightarrow> 'j Dataset \<Rightarrow> io \<Rightarrow> (bool \<times> io) run" where
  "FTSLoader_populate J w opts u fuel ds io =
     rbind (DatasetIterator_start J ds (getIter u ds)) (\<lambda>it.
     rbind (for_each (iter_done J ds) (iter_advance J ds) no_stop
              (\<lambda>it. load_item w opts (iter_item it)) fuel it (io, 0)) (\<lambda>(e, (io1, jj)).
     if e = Returned then Inr (False, io1)
     else rbind (drainPendingFutures w ignore_handler (io1, ())) (\<lambda>(io2, _). Inr (True, io2))))"

definition CBASLoader_populate ::
    "'j json_api \<Rightarrow> world \<Rightarrow> HandleOptions \<Rightarrow> 32 word \<Rightarrow> nat \<Rightarrow> 'j Dataset \<Rightarrow> io \<Rightarrow> (bool \<times> io) run" where
  "CBASLoader_populate J w opts u fuel ds io =
     rbind (DatasetIterator_start J ds (getIter u ds)) (\<lambda>it.
     rbind (for_each (iter_done J ds) (iter_advance J ds) no_stop
              (\<lambda>it. load_item w opts (iter_item it)) fuel it (io, 0)) (\<lambda>(e, (io1, jj)).
     if e = Returned then Inr (False, io1)
     else rbind (drainPendingFutures w ignore_handler (io1, ())) (\<lambda>(io2, _). Inr (True, io2))))"

lemma same_populate:
  "N1QLLoader_populate = SDLoader_populate" "FTSLoader_populate = SDLoader_populate"
  "CBASLoader_populate = SDLoader_populate"
  by (intro ext, simp add: N1QLLoader_populate_def FTSLoader_populate_def CBASLoader_populate_def
      SDLoader_populate_def)+

section \<open>The view loader\<close>

text \<open>The replies of a flush: only failures are recorded.\<close>

fun flush_replies :: "world \<Rightarrow> nat list \<Rightarrow> op_state \<Rightarrow> op_state run" where
  "flush_replies w [] st = Inr st"
| "flush_replies w (f # fs) st =
     (if resp_ec (answers w f) \<noteq> None
      then rbind (rescode_handler w (resp_ec (answers w f)) st) (flush_replies w fs)
      else flush_replies w fs st)"

text \<open>Submitting the values; the futures are local to the flush.\<close>

fun flush_submit :: "HandleOptions \<Rightarrow> (string \<times> string) list \<Rightarrow> io \<Rightarrow> (nat list \<times> io) run" where
  "flush_submit opts [] io = Inr ([], io)"
| "flush_submit opts ((k, v) # kvs) io =
     rbind (getCollection opts k) (\<lambda>collection.
     let (f, io1) = execute_async (UpsertReq (document_id_of opts k collection) v None) io
     in rbind (flush_submit opts kvs io1) (\<lambda>(fs, io2). Inr (f # fs, io2)))"

definition flushValues ::
    "world \<Rightarrow> HandleOptions \<Rightarrow> (string \<times> string) list \<Rightarrow> op_state \<Rightarrow> op_state run" where
  "flushValues w opts vals st =
     rbind (flush_submit opts vals (fst st)) (\<lambda>(fs, io1). flush_replies w fs (io1, snd st))"

definition VIEWLOAD_BATCH_COUNT :: nat where
  "VIEWLOAD_BATCH_COUNT = 1000"

record 'j view_state =
  vs_op :: op_state
  vs_schema :: 'j
  vs_values :: "(string \<times> string) list"
  vs_ii :: nat

definition view_item ::
    "'j json_api \<Rightarrow> world \<Rightarrow> HandleOptions \<Rightarrow> item \<Rightarrow> 'j view_state \<Rightarrow> (bool \<times> 'j view_state) run" where
  "view_item J w opts x s =
     (let (k, _, _, _) = x in
      rbind (jset_all J (vs_schema s)
        [(CBSDKD_MSGFLD_V_KIDENT, j_str J k), (CBSDKD_MSGFLD_V_KSEQ, j_int J (int (vs_ii s)))]) (\<lambda>schema.
      let vals = vs_values s @ [(k, j_write J schema)];
          s1 = s\<lparr>vs_schema := schema, vs_ii := vs_ii s + 1\<rparr> in
      if VIEWLOAD_BATCH_COUNT \<le> length vals then
        rbind (flushValues w opts vals (vs_op s)) (\<lambda>op. Inr (True, s1\<lparr>vs_op := op, vs_values := []\<rparr>))
      else Inr (True, s1\<lparr>vs_values := vals\<rparr>)))"

definition populateViewData ::
    "'j json_api \<Rightarrow> world \<Rightarrow> HandleOptions \<Rightarrow> 32 word \<Rightarrow> nat \<Rightarrow> 'j Dataset \<Rightarrow> ResultOptions \<Rightarrow> 'j Message
      \<Rightarrow> op_state \<Rightarrow> (bool \<times> op_state) run" where
  "populateViewData J w opts u fuel ds ropts req st =
     rbind (jfield J (payload req) CBSDKD_MSGFLD_V_SCHEMA) (\<lambda>schema.
     let rs = (clear_results (snd st))\<lparr>options := ropts\<rparr>;
         s0 = \<lparr>vs_op = (externalEnter (fst st), rs), vs_schema = schema, vs_values = [], vs_ii = 0\<rparr> in
     rbind (DatasetIterator_start J ds (getIter u ds)) (\<lambda>it.
     rbind (for_each (iter_done J ds) (iter_advance J ds) no_stop
              (\<lambda>it. view_item J w opts (iter_item it)) fuel it s0) (\<lambda>(_, s).
     if vs_values s \<noteq> []
     then rbind (flushValues w opts (vs_values s) (vs_op s)) (\<lambda>op. Inr (True, op))
     else Inr (True, vs_op s))))"

end
