(* ===== verification/DatasetItems.thy ===== *)
theory DatasetItems
  imports Iterators Json_Ref
begin

text \<open>
  What the datasets generate: the closed form and the length of a seeded string, when seeded
  keys are distinct, the keys and values of the other kinds, and the specifications each
  constructor refuses.
\<close>

section \<open>Seeded strings\<close>

text \<open>How often the loop of \<open>_fill_repeat\<close> appends, from a string of length \<open>len\<close>.\<close>

definition fill_rounds :: "nat \<Rightarrow> nat \<Rightarrow> nat \<Rightarrow> nat" where
  "fill_rounds bound len ext = (bound - len + (ext - 1)) div ext"

lemma fill_rounds_step:
  assumes "len < bound" and "0 < ext"
  shows "fill_rounds bound len ext = Suc (fill_rounds bound (len + ext) ext)"
proof (cases "ext \<le> bound - len")
  case True
  then have eq: "bound - len + (ext - 1) = (bound - (len + ext) + (ext - 1)) + ext" by simp
  have "fill_rounds bound len ext = ((bound - (len + ext) + (ext - 1)) + ext) div ext"
    by (simp only: fill_rounds_def eq)
  also have "\<dots> = (bound - (len + ext) + (ext - 1)) div ext + 1"
    by (rule div_add_self2) (use assms(2) in simp)
  finally show ?thesis by (simp only: fill_rounds_def Suc_eq_plus1)
next
  case False
  have "(bound - len + (ext - 1)) div ext = 1"
    using False assms by (intro div_nat_eqI) auto
  moreover have "(bound - (len + ext) + (ext - 1)) div ext = 0"
    using False assms by simp
  ultimately show ?thesis by (simp only: fill_rounds_def)
qed

lemma fill_loop_closed:
  "ext \<noteq> [] \<Longrightarrow> fill_loop bound ext r =
     r @ concat (replicate (fill_rounds bound (length r) (length ext)) ext)"
proof (induction bound ext r rule: fill_loop.induct)
  case (1 bound ext r)
  show ?case
  proof (cases "length r < bound")
    case True
    with 1 show ?thesis
      by (simp add: fill_loop.simps [of bound ext r] fill_rounds_step)
  next
    case False
    then have "fill_rounds bound (length r) (length ext) = 0"
      using \<open>ext \<noteq> []\<close> by (simp add: fill_rounds_def)
    with False show ?thesis by (simp add: fill_loop.simps [of bound ext r])
  qed
qed

lemma length_concat_replicate: "length (concat (replicate k xs)) = k * length xs"
  by (induction k) auto

lemma fill_rounds_bounds:
  assumes "0 < ext"
  shows "bound \<le> len + fill_rounds bound len ext * ext"
    and "len + fill_rounds bound len ext * ext \<le> max len (bound + ext - 1)"
proof -
  define q where "q = fill_rounds bound len ext"
  have "(bound - len + (ext - 1)) mod ext < ext" using assms by simp
  moreover have "q * ext + (bound - len + (ext - 1)) mod ext = bound - len + (ext - 1)"
    by (simp add: q_def fill_rounds_def)
  ultimately have up: "q * ext \<le> bound - len + (ext - 1)" and lo: "bound - len \<le> q * ext"
    by linarith+
  from lo show "bound \<le> len + fill_rounds bound len ext * ext" by (simp add: q_def)
  show "len + fill_rounds bound len ext * ext \<le> max len (bound + ext - 1)"
  proof (cases "len < bound")
    case True
    with up assms show ?thesis by (simp add: q_def)
  next
    case False
    with assms have "q = 0" by (simp add: q_def fill_rounds_def)
    then show ?thesis by (simp add: q_def)
  qed
qed

lemma fill_repeat_closed:
  "fill_repeat base limit rep idx =
     (let ext = rep @ nat_to_string (unat idx);
          k = fill_rounds (unat (limit - 1)) (length base + length ext) (length ext)
      in base @ concat (replicate (Suc k) ext))"
  by (simp add: fill_repeat_def Let_def fill_loop_closed)

lemma length_fill_repeat:
  fixes idx :: "32 word" and rep :: string
  defines "e \<equiv> length rep + length (nat_to_string (unat idx))"
  shows "unat (limit - 1) \<le> length (fill_repeat base limit rep idx)"
    and "length (fill_repeat base limit rep idx) \<le> max (length base + e) (unat (limit - 1) + e - 1)"
proof -
  have pos: "0 < e" by (simp add: e_def)
  have len: "length (fill_repeat base limit rep idx) =
      length base + e + fill_rounds (unat (limit - 1)) (length base + e) e * e"
    by (simp add: fill_repeat_closed Let_def length_concat_replicate e_def)
  show "unat (limit - 1) \<le> length (fill_repeat base limit rep idx)"
    unfolding len by (rule fill_rounds_bounds(1)) (rule pos)
  show "length (fill_repeat base limit rep idx) \<le> max (length base + e) (unat (limit - 1) + e - 1)"
    unfolding len by (rule fill_rounds_bounds(2)) (rule pos)
qed

text \<open>The digits of the index are the ones right after the base and the first repeat string.\<close>

lemma fill_repeat_index:
  assumes "rep \<noteq> []" and "\<not> is_digit (hd rep)"
  shows "takeWhile is_digit (drop (length base + length rep) (fill_repeat base limit rep idx))
    = nat_to_string (unat idx)"
proof -
  obtain k where "fill_repeat base limit rep idx =
      base @ rep @ nat_to_string (unat idx) @ concat (replicate k (rep @ nat_to_string (unat idx)))"
    using fill_repeat_closed [of base limit rep idx] by (simp add: Let_def)
  moreover have "takeWhile is_digit (concat (replicate k (rep @ nat_to_string (unat idx)))) = []"
  proof (cases k)
    case (Suc j)
    obtain c cs where "rep = c # cs" using assms(1) by (cases rep) auto
    with assms(2) Suc show ?thesis by simp
  qed simp
  moreover have "\<forall>c \<in> set (nat_to_string (unat idx)). is_digit c"
    using nat_to_string_digits by blast
  ultimately show ?thesis by (simp add: takeWhile_append2)
qed

lemma fill_repeat_inj:
  assumes "rep \<noteq> []" and "\<not> is_digit (hd rep)"
    and eq: "fill_repeat base limit rep i = fill_repeat base limit rep j"
  shows "i = j"
proof -
  have "nat_to_string (unat i) = nat_to_string (unat j)"
    using fill_repeat_index [OF assms(1,2), of base limit i]
      fill_repeat_index [OF assms(1,2), of base limit j] eq by simp
  then have "unat i = unat j" by (rule nat_to_string_inj)
  then show ?thesis by (simp add: word_unat_eq_iff)
qed

section \<open>Items by position\<close>

text \<open>
  When \<open>init_data\<close> succeeds and its strings depend on the index only (\<open>Q\<close> is what the
  iterators keep of the path and the command), the item at a position is the one of its index.
\<close>

definition iter_of :: "item \<Rightarrow> 32 word \<Rightarrow> dsiter" where
  "iter_of x i = (case x of (k, v, p, c) \<Rightarrow> \<lparr>curk = k, curv = v, curp = p, curc = c, curidx = i\<rparr>)"

lemma iter_item_of [simp]: "iter_item (iter_of x i) = x"
  by (cases x) (simp add: iter_item_def iter_of_def)

lemma nth_iter_pure:
  assumes init: "\<And>i it. Q (curp it) (curc it) \<Longrightarrow> init_data J ds i it = Inr (iter_of (f i) (curidx it))"
    and Q: "\<And>i k v p c. f i = (k, v, p, c) \<Longrightarrow> Q p c" "Q [] []"
  shows "enat n \<le> ds_total J ds \<Longrightarrow>
    (let i = word_of_nat (position (ds_continuous ds) (unat (getCount J ds)) n)
     in nth_iter J u ds n = Inr (iter_of (f i) i))"
proof (induction n)
  case 0
  show ?case
    by (simp add: DatasetIterator_start_def getIter_def init Q(2) position_def)
next
  case (Suc n)
  define i where "i = (word_of_nat (position (ds_continuous ds) (unat (getCount J ds)) n) :: 32 word)"
  have "enat n \<le> ds_total J ds"
    using Suc.prems by (meson Suc_ile_eq order_less_imp_le)
  then have n: "nth_iter J u ds n = Inr (iter_of (f i) i)"
    using Suc.IH by (simp add: i_def Let_def)
  have Qi: "Q (curp (iter_of (f i) i)) (curc (iter_of (f i) i))"
    using Q(1) by (cases "f i") (simp add: iter_of_def)
  have ci: "curidx (iter_of (f i) i) = i"
    by (cases "f i") (simp add: iter_of_def)
  have "\<not> ds_continuous ds \<Longrightarrow> n < unat (getCount J ds)"
    using Suc.prems by (simp add: ds_total_def)
  then have "wrap_index (ds_continuous ds) (getCount J ds) (i + 1)
      = word_of_nat (position (ds_continuous ds) (unat (getCount J ds)) (Suc n))"
    unfolding i_def by (rule wrap_index_position)
  then show ?case
    using Qi by (simp add: n iter_advance_eq ci Let_def init)
qed

lemma ds_load_pure:
  assumes "\<And>i it. Q (curp it) (curc it) \<Longrightarrow> init_data J ds i it = Inr (iter_of (f i) (curidx it))"
    and "\<And>i k v p c. f i = (k, v, p, c) \<Longrightarrow> Q p c" and "Q [] []" and "enat n \<le> ds_total J ds"
  shows "ds_load J u ds n =
    Inr (f (word_of_nat (position (ds_continuous ds) (unat (getCount J ds)) n)))"
  using nth_iter_pure [of Q J ds f, OF assms] by (simp add: ds_load_def Let_def)

definition seeded_item :: "DatasetSeedSpecification \<Rightarrow> 32 word \<Rightarrow> item" where
  "seeded_item spec i =
     (fill_repeat (seed_kseed spec) (seed_ksize spec) (seed_repeat spec) i,
      fill_repeat (seed_vseed spec) (seed_vsize spec) (seed_repeat spec) i, [], [])"

lemma ds_load_seeded:
  assumes "ds_body ds = Seeded spec" and "enat n \<le> ds_total J ds"
  shows "ds_load J u ds n = Inr (seeded_item spec
    (word_of_nat (position (seed_continuous spec) (unat (seed_count spec)) n)))"
proof -
  have "ds_load J u ds n =
      Inr (seeded_item spec (word_of_nat (position (ds_continuous ds) (unat (getCount J ds)) n)))"
  proof (rule ds_load_pure [where Q = "\<lambda>p c. p = [] \<and> c = []"])
    fix i and it :: dsiter
    assume "curp it = [] \<and> curc it = []"
    then show "init_data J ds i it = Inr (iter_of (seeded_item spec i) (curidx it))"
      by (cases it) (simp add: init_data_def assms(1) DatasetSeededIterator_init_data_def
          seeded_item_def iter_of_def)
  qed (use assms(2) in \<open>auto simp: seeded_item_def\<close>)
  then show ?thesis by (simp add: assms(1) ds_continuous_def getCount_def)
qed

subsection \<open>Subdocument loads\<close>

definition plain_text :: "string \<Rightarrow> bool" where
  "plain_text s \<longleftrightarrow> (\<forall>c \<in> set s. c \<noteq> CHR 0x5C \<and> (32::nat) \<le> of_char c)"

lemma strip_written_quoted:
  "strip_written (CHR 0x22 # body @ [CHR 0x22, CHR 0x0A]) = filter (\<lambda>c. c \<noteq> CHR 0x5C) body"
proof -
  let ?s = "CHR 0x22 # body @ [CHR 0x22, CHR 0x0A]"
  let ?P = "\<lambda>i. ?s ! i \<noteq> CHR 0x5C \<and> i \<noteq> 0 \<and> i + 2 \<noteq> length ?s \<and> i + 1 \<noteq> length ?s"
  define m where "m = length body"
  have "[0..<Suc (Suc (Suc m))] = 0 # [Suc 0..<Suc (Suc (Suc m))]"
    by (rule upt_conv_Cons) simp
  then have idx: "[0..<length ?s] = 0 # [1..<Suc m] @ [Suc m, Suc (Suc m)]"
    by (simp add: m_def)
  have "filter ?P [0..<length ?s] = filter ?P [1..<Suc m]"
    unfolding idx by (simp add: m_def)
  also have "\<dots> = filter (\<lambda>i. body ! (i - 1) \<noteq> CHR 0x5C) [1..<Suc m]"
    by (rule filter_cong) (auto simp: m_def nth_Cons' nth_append)
  also have "\<dots> = map Suc (filter (\<lambda>i. body ! i \<noteq> CHR 0x5C) [0..<m])"
  proof -
    have "[1..<Suc m] = map Suc [0..<m]" by (simp only: map_Suc_upt One_nat_def)
    then show ?thesis by (simp only: filter_map o_def diff_Suc_1)
  qed
  finally have "strip_written ?s = map (\<lambda>i. ?s ! i) (map Suc (filter (\<lambda>i. body ! i \<noteq> CHR 0x5C) [0..<m]))"
    by (simp add: strip_written_def)
  also have "\<dots> = map (\<lambda>i. body ! i) (filter (\<lambda>i. body ! i \<noteq> CHR 0x5C) [0..<m])"
    by (auto simp: m_def nth_append)
  also have "\<dots> = filter (\<lambda>c. c \<noteq> CHR 0x5C) (map (\<lambda>i. body ! i) [0..<m])"
    by (simp add: filter_map o_def)
  also have "map (\<lambda>i. body ! i) [0..<m] = body"
    by (simp add: m_def map_nth)
  finally show ?thesis .
qed

lemma json_escape_char_plain:
  assumes "c \<noteq> CHR 0x5C" and "(32::nat) \<le> of_char c"
  shows "filter (\<lambda>c. c \<noteq> CHR 0x5C) (json_escape_char c) = [c]"
proof -
  have "c \<notin> {CHR 0x08, CHR 0x0C, CHR 0x0A, CHR 0x0D, CHR 0x09}"
  proof
    assume "c \<in> {CHR 0x08, CHR 0x0C, CHR 0x0A, CHR 0x0D, CHR 0x09}"
    then have "of_char c < (32::nat)" by (elim insertE emptyE) simp_all
    with assms(2) show False by simp
  qed
  then have "json_escape_char c = (if c = CHR 0x22 then [CHR 0x5C, c] else [c])"
    using assms(1) by (simp add: json_escape_char_def)
  with assms(1) show ?thesis by simp
qed

lemma filter_json_escape:
  "plain_text s \<Longrightarrow> filter (\<lambda>c. c \<noteq> CHR 0x5C) (json_escape s) = s"
  by (induction s) (simp_all add: json_escape_def plain_text_def json_escape_char_plain)

definition sd_item :: "'j json_api \<Rightarrow> 'j SDDatasetSpecification \<Rightarrow> 32 word \<Rightarrow> item" where
  "sd_item J spec i =
     (if sd_load spec
      then (int_to_string (sint i), strip_written (j_write J (sd_doc spec)), [], [])
      else (int_to_string (sint i), sd_value spec, sd_path spec, sd_command spec))"

lemma ds_load_sd:
  assumes "ds_body ds = SD spec" and "enat n \<le> ds_total J ds"
  shows "ds_load J u ds n = Inr (sd_item J spec
    (word_of_nat (position (sd_continuous spec) (unat (sd_count spec)) n)))"
proof -
  have "ds_load J u ds n =
      Inr (sd_item J spec (word_of_nat (position (ds_continuous ds) (unat (getCount J ds)) n)))"
  proof (rule ds_load_pure [where Q = "\<lambda>p c. sd_load spec \<longrightarrow> p = [] \<and> c = []"])
    fix i and it :: dsiter
    assume "sd_load spec \<longrightarrow> curp it = [] \<and> curc it = []"
    then show "init_data J ds i it = Inr (iter_of (sd_item J spec i) (curidx it))"
      by (cases it) (simp add: init_data_def assms(1) SDDatasetIterator_init_data_def
          sd_item_def iter_of_def)
  qed (use assms(2) in \<open>auto simp: sd_item_def\<close>)
  then show ?thesis by (simp add: assms(1) ds_continuous_def getCount_def)
qed

subsection \<open>Documents built from members\<close>

context json_object
begin

lemma set_params_ok:
  assumes "settable doc" and "length ps \<le> length vs"
  obtains doc' where "set_params J doc ps vs = Inr doc'" and "settable doc'"
    and "\<And>k. k \<notin> set ps \<Longrightarrow> j_get J doc' k = j_get J doc k"
  using assms
proof (induction ps arbitrary: doc vs thesis)
  case Nil
  then show ?case by simp
next
  case (Cons p ps)
  from Cons.prems(3) obtain v vs' where vs: "vs = v # vs'" by (cases vs) auto
  obtain d where d: "jset J doc p (j_str J v) = Inr d" "settable d"
    "\<And>k. j_get J d k = (if k = p then Some (j_str J v) else j_get J doc k)"
    using jset_ok [OF \<open>settable doc\<close>] by blast
  obtain d' where d': "set_params J d ps vs' = Inr d'" "settable d'"
    "\<And>k. k \<notin> set ps \<Longrightarrow> j_get J d' k = j_get J d k"
    using Cons.IH [of d vs'] d(2) Cons.prems(3) vs by auto
  show ?case
    by (rule Cons.prems(1) [of d']) (use d d' vs in auto)
qed

lemma set_params_short:
  "settable doc \<Longrightarrow> length vs < length ps \<Longrightarrow> set_params J doc ps vs = Inl BadAccess"
proof (induction ps arbitrary: doc vs)
  case Nil
  then show ?case by simp
next
  case (Cons p ps)
  show ?case
  proof (cases vs)
    case Nil
    then show ?thesis by simp
  next
    case (Cons v vs')
    obtain d where "jset J doc p (j_str J v) = Inr d" "settable d"
      using jset_ok [OF \<open>settable doc\<close>] by blast
    with Cons Cons.IH [of d vs'] Cons.prems show ?thesis by simp
  qed
qed

lemma N1QL_init_ok:
  assumes "length (nq_params spec) \<le> length (nq_paramValues spec)"
    and "''id'' \<notin> set (nq_params spec)"
  obtains v where "\<And>it. N1QLDatasetIterator_init_data J spec i it =
    Inr (it\<lparr>curk := int_to_string (sint i), curv := v\<rparr>)"
proof -
  obtain d where d: "jset J (j_null J) ''id'' (j_str J (int_to_string (sint i))) = Inr d"
    "settable d" and "\<And>k. j_get J d k = (if k = ''id''
        then Some (j_str J (int_to_string (sint i))) else j_get J (j_null J) k)"
    using jset_ok [OF settable_null] by blast
  then have d3: "j_get J d ''id'' = Some (j_str J (int_to_string (sint i)))" by simp
  obtain d' where d': "set_params J d (nq_params spec) (nq_paramValues spec) = Inr d'"
    "j_get J d' ''id'' = Some (j_str J (int_to_string (sint i)))"
    using set_params_ok [OF d(2) assms(1)] d3 assms(2) by metis
  show thesis
    by (rule that [of "j_write J d'"])
      (simp add: N1QLDatasetIterator_init_data_def d(1) d' jstr_def jfield_def jasString_def asString_str)
qed

lemma sample_doc_ok: obtains d where "sample_doc J i = Inr d"
proof -
  obtain d1 where "jset J (j_null J) ''value'' (j_str J (''SampleValue'' @ int_to_string (sint i))) = Inr d1"
    and s1: "settable d1"
    using jset_ok [OF settable_null] by blast
  moreover obtain d2 where
    "jset J (j_null J) ''subvalue'' (j_str J (''SampleSubvalue'' @ int_to_string (sint i))) = Inr d2"
    and s2: "settable d2"
    using jset_ok [OF settable_null] by blast
  moreover obtain d3 where "jset J d2 ''recurringField'' (j_str J ''RecurringSubvalue'') = Inr d3"
    using jset_ok [OF s2] by blast
  moreover obtain d4 where "jset J d1 ''SubFields'' d3 = Inr d4"
    using jset_ok [OF s1] by blast
  ultimately show thesis by (intro that [of d4]) (simp add: sample_doc_def)
qed

lemma N1QL_start_short:
  assumes "ds_body ds = N1QL spec" and "length (nq_paramValues spec) < length (nq_params spec)"
  shows "DatasetIterator_start J ds it = Inl BadAccess"
proof -
  obtain d where "jset J (j_null J) ''id'' (j_str J (int_to_string (sint (0 :: 32 word)))) = Inr d"
    and "settable d"
    using jset_ok [OF settable_null] by blast
  then show ?thesis
    using set_params_short assms
    by (simp add: DatasetIterator_start_def init_data_def N1QLDatasetIterator_init_data_def)
qed

text \<open>The keys of the kinds that number their documents.\<close>

lemma ds_load_n1ql:
  assumes "ds_body ds = N1QL spec" and "enat n \<le> ds_total J ds"
    and "length (nq_params spec) \<le> length (nq_paramValues spec)"
    and "''id'' \<notin> set (nq_params spec)"
  shows "\<exists>v. ds_load J u ds n = Inr (int_to_string (sint
    (word_of_nat (position (nq_continuous spec) (unat (nq_count spec)) n) :: 32 word)), v, [], [])"
proof -
  have "\<forall>i. \<exists>v. \<forall>it. N1QLDatasetIterator_init_data J spec i it =
    Inr (it\<lparr>curk := int_to_string (sint i), curv := v\<rparr>)"
    using N1QL_init_ok [OF assms(3,4)] by metis
  then obtain g where g: "\<And>i it. N1QLDatasetIterator_init_data J spec i it =
    Inr (it\<lparr>curk := int_to_string (sint i), curv := g i\<rparr>)"
    by metis
  have "ds_load J u ds n = Inr ((\<lambda>i. (int_to_string (sint i), g i, [], []))
      (word_of_nat (position (ds_continuous ds) (unat (getCount J ds)) n)))"
  proof (rule ds_load_pure [where Q = "\<lambda>p c. p = [] \<and> c = []"])
    fix i and it :: dsiter
    assume "curp it = [] \<and> curc it = []"
    then show "init_data J ds i it = Inr (iter_of (int_to_string (sint i), g i, [], []) (curidx it))"
      by (cases it) (simp add: init_data_def assms(1) g iter_of_def)
  qed (use assms(2) in auto)
  then show ?thesis by (simp add: assms(1) ds_continuous_def getCount_def)
qed

lemma ds_load_sample:
  assumes "(\<exists>spec. ds_body ds = FTS spec) \<or> (\<exists>spec. ds_body ds = CBAS spec)"
    and "enat n \<le> ds_total J ds"
  shows "\<exists>v. ds_load J u ds n = Inr (int_to_string (sint (word_of_nat n :: 32 word)), v, [], [])"
proof -
  have "\<forall>i. \<exists>d. sample_doc J i = Inr d" using sample_doc_ok by metis
  then obtain g where g: "\<And>i. sample_doc J i = Inr (g i)" by metis
  have "ds_load J u ds n = Inr ((\<lambda>i. (int_to_string (sint i), j_write J (g i), [], []))
      (word_of_nat (position (ds_continuous ds) (unat (getCount J ds)) n)))"
  proof (rule ds_load_pure [where Q = "\<lambda>p c. p = [] \<and> c = []"])
    fix i and it :: dsiter
    assume "curp it = [] \<and> curc it = []"
    then show "init_data J ds i it =
        Inr (iter_of (int_to_string (sint i), j_write J (g i), [], []) (curidx it))"
      using assms(1) by (cases it) (auto simp: init_data_def FTSDatasetIterator_init_data_def
          CBASDatasetIterator_init_data_def g iter_of_def)
  qed (use assms(2) in auto)
  moreover have "\<not> ds_continuous ds" using assms(1) by (auto simp: ds_continuous_def)
  ultimately show ?thesis by (simp add: position_def)
qed

end

lemma numbered_key: "n < 2 ^ 31 \<Longrightarrow> int_to_string (sint (word_of_nat n :: 32 word)) = nat_to_string n"
proof -
  assume n: "n < 2 ^ 31"
  then have "sint (word_of_nat n :: 32 word) = int n"
    by (simp add: signed_of_nat signed_take_bit_int_eq_self)
  then show ?thesis by (simp add: int_to_string_nonneg)
qed

section \<open>Properties\<close>

text \<open>Datasets the examples below evaluate.\<close>

definition example_seed :: DatasetSeedSpecification where
  "example_seed = \<lparr>seed_count = 2, seed_ksize = 6, seed_vsize = 4, seed_continuous = False,
     seed_repeat = ''_'', seed_kseed = ''k'', seed_vseed = ''v''\<rparr>"

definition example_seeded :: "jval Dataset" where
  "example_seeded = DatasetSeeded_of_spec example_seed"

definition example_cycle :: "jval Dataset" where
  "example_cycle = DatasetSeeded_of_spec (example_seed\<lparr>seed_continuous := True, seed_count := 3\<rparr>)"

definition example_sd :: "jval Dataset" where
  "example_sd = Dataset_new DSTYPE_SD (SD \<lparr>sd_doc = JStr ''{\"a\":1}'', sd_load = True,
     sd_command = [], sd_path = [], sd_value = [], sd_continuous = False, sd_count = 2\<rparr>)"

definition example_n1ql :: "string list \<Rightarrow> jval Dataset" where
  "example_n1ql ps = Dataset_new DSTYPE_N1QL (N1QL \<lparr>nq_params = ps,
     nq_paramValues = [''x''], nq_continuous = True, nq_count = 3\<rparr>)"

definition example_fts :: "jval Dataset" where
  "example_fts = Dataset_new DSTYPE_FTS (FTS \<lparr>fts_count = 5\<rparr>)"

definition example_fts_request :: "jval Message" where
  "example_fts_request = \<lparr>reqid = 1, handle_id = 2, command = Command_of_code CB_FTS_LOAD,
     payload = JObj [(''DS'', JObj [(''Count'', JInt 5)])], msg_err = Error_of_code 0 []\<rparr>"

lemmas example_defs = example_seed_def example_seeded_def example_cycle_def example_sd_def
  example_n1ql_def DatasetSeeded_of_spec_def Dataset_new_def

text \<open>
  C13: the loop over a seeded dataset that is not continuous visits exactly \<open>Count\<close> items, in
  index order, each with the key and the value filled from its seeds; \<open>Count + 1\<close> rounds end it.
\<close>

theorem seeded_traversal:
  assumes "ds_body ds = Seeded spec" and "\<not> seed_continuous spec"
    and "unat (seed_count spec) < fuel"
  shows "rbind (DatasetIterator_start J ds (getIter u ds))
      (\<lambda>it. for_each (iter_done J ds) (iter_advance J ds) stop (\<lambda>it. act (iter_item it)) fuel it s)
    = each_item stop act
        (map (\<lambda>i. seeded_item spec (word_of_nat i)) [0..<unat (seed_count spec)]) s"
proof (rule ds.for_each_finite)
  show total: "ds_total J ds = enat (unat (seed_count spec))"
    using assms(1,2) by (simp add: ds_total_def ds_continuous_def getCount_def)
  show "ds_load J u ds i = Inr (seeded_item spec (word_of_nat i))"
    if "i \<le> unat (seed_count spec)" for i
    using ds_load_seeded [OF assms(1), of i J u] that assms(2) total by (simp add: position_def)
qed (rule assms(3))

theorem seeded_traversal_witness:
  "rbind (DatasetIterator_start Jref example_seeded (getIter 9 example_seeded))
      (\<lambda>it. for_each (iter_done Jref example_seeded) (iter_advance Jref example_seeded)
         (\<lambda>s. (False, s)) (\<lambda>it s. Inr (True, s @ [fst (iter_item it)])) 3 it [])
    = Inr (Exhausted, [''k_0_0'', ''k_1_1''])"
proof -
  have body: "ds_body example_seeded = Seeded example_seed" by (simp add: example_defs)
  have keys: "fill_repeat ''k'' 6 ''_'' 0 = ''k_0_0''" "fill_repeat ''k'' 6 ''_'' 1 = ''k_1_1''"
    by code_simp+
  show ?thesis
    using seeded_traversal [OF body, where J = Jref and u = 9 and fuel = 3 and s = "[]"
        and stop = "\<lambda>s. (False, s)" and act = "\<lambda>x s. Inr (True, s @ [fst x])"]
    by (simp add: seeded_item_def keys upt_rec example_seed_def)
qed

text \<open>
  A continuous seeded dataset is never done and its \<open>n\<close>-th item is the one of index
  \<open>n mod Count\<close>.
\<close>

theorem seeded_continuous_wraps:
  assumes "ds_body ds = Seeded spec" and "seed_continuous spec" and "seed_count spec \<noteq> 0"
  shows "\<not> iter_done J ds it \<and>
    ds_load J u ds n = Inr (seeded_item spec (word_of_nat (n mod unat (seed_count spec))))"
proof
  show "\<not> iter_done J ds it" using assms(1,2) by (simp add: iterator_defs)
  have "enat n \<le> ds_total J ds"
    using assms(1,2) by (simp add: ds_total_def ds_continuous_def)
  with ds_load_seeded [OF assms(1)] assms(2,3)
  show "ds_load J u ds n = Inr (seeded_item spec (word_of_nat (n mod unat (seed_count spec))))"
    by (simp add: position_def unat_eq_0)
qed

theorem seeded_continuous_wraps_witness:
  "\<not> iter_done Jref example_cycle \<lparr>curk = [], curv = [], curp = [], curc = [], curidx = 2\<rparr> \<and>
    ds_load Jref 0 example_cycle 7 = Inr (''k_1_1'', ''v_1'', [], [])"
proof -
  have body: "ds_body example_cycle = Seeded (example_seed\<lparr>seed_continuous := True, seed_count := 3\<rparr>)"
    by (simp add: example_defs)
  have item: "fill_repeat ''k'' 6 ''_'' 1 = ''k_1_1''" "fill_repeat ''v'' 4 ''_'' 1 = ''v_1''"
    by code_simp+
  show ?thesis
    using seeded_continuous_wraps [OF body,
        of Jref "\<lparr>curk = [], curv = [], curp = [], curc = [], curidx = 2\<rparr>" 0 7]
    by (simp add: seeded_item_def item example_seed_def)
qed

text \<open>
  C39: \<open>_fill_repeat\<close> returns the base followed by whole copies of the repeat string and the
  index, at least one; the result has at least \<open>limit - 1\<close> characters and overshoots by
  less than one copy.
\<close>

theorem fill_repeat_reference:
  "(let ext = rep @ nat_to_string (unat idx); bound = unat (limit - 1);
        k = fill_rounds bound (length base + length ext) (length ext);
        r = fill_repeat base limit rep idx
    in r = base @ concat (replicate (Suc k) ext) \<and> bound \<le> length r \<and>
       length r \<le> max (length base + length ext) (bound + length ext - 1))"
  using fill_repeat_closed [of base limit rep idx] length_fill_repeat [where limit = limit and base = base and rep = rep and idx = idx]
  by (simp add: Let_def)

text \<open>
  When the repeat string starts with a character that is no digit, the keys of a seeded
  dataset are pairwise distinct.
\<close>

theorem seeded_keys_distinct:
  assumes "seed_repeat spec \<noteq> []" and "\<not> is_digit (hd (seed_repeat spec))"
  shows "distinct (map (\<lambda>i. fst (seeded_item spec (word_of_nat i))) [0..<unat (seed_count spec)])"
proof -
  have "inj_on (\<lambda>i. fst (seeded_item spec (word_of_nat i))) {0..<unat (seed_count spec)}"
  proof (rule inj_onI)
    fix i j
    assume i: "i \<in> {0..<unat (seed_count spec)}" and j: "j \<in> {0..<unat (seed_count spec)}"
      and "fst (seeded_item spec (word_of_nat i)) = fst (seeded_item spec (word_of_nat j))"
    then have "(word_of_nat i :: 32 word) = word_of_nat j"
      using fill_repeat_inj [OF assms] by (simp add: seeded_item_def)
    moreover have "i < 2 ^ 32" "j < 2 ^ 32"
      using i j unat_lt_32 [of "seed_count spec"] by auto
    ultimately show "i = j" using unat_of_small by metis
  qed
  then show ?thesis by (simp add: distinct_map)
qed

theorem seeded_keys_distinct_witness:
  "distinct (map (\<lambda>i. fst (seeded_item \<lparr>seed_count = 200, seed_ksize = 32, seed_vsize = 128,
     seed_continuous = False, seed_repeat = ''REP'', seed_kseed = ''SimpleKey'',
     seed_vseed = ''SimpleValue''\<rparr> (word_of_nat i))) [0..<200])"
  using seeded_keys_distinct [of "\<lparr>seed_count = 200, seed_ksize = 32, seed_vsize = 128,
     seed_continuous = False, seed_repeat = ''REP'', seed_kseed = ''SimpleKey'',
     seed_vseed = ''SimpleValue''\<rparr>"]
  by (simp add: is_digit_def)

text \<open>
  With an empty repeat string two indices can get the same key: \<open>Key\<close> filled to 8 is
  \<open>Key1111\<close> for index 1 and for index 11.
\<close>

theorem seeded_keys_collide:
  "fill_repeat ''Key'' 8 [] 1 = ''Key1111'' \<and> fill_repeat ''Key'' 8 [] 11 = ''Key1111''"
  by code_simp

text \<open>
  A key size of 0, which is what an absent \<open>KSize\<close> reads as, does not mean a short key:
  the bound wraps to the largest 32-bit number and the key has at least \<open>2^32 - 1\<close> characters.
\<close>

theorem fill_repeat_zero_size:
  "2 ^ 32 - 1 \<le> length (fill_repeat base 0 rep idx)"
  using length_fill_repeat(1) [where limit = 0 and base = base and rep = rep and idx = idx]
  by (simp add: unsigned_minus_1_eq_mask mask_eq_exp_minus_1)

text \<open>
  The two assertions of \<open>src/DSTest.cpp\<close> hold for every index the test visits: keys of the
  test's dataset have less than 50 characters and values less than 200.
\<close>

theorem dstest_assertions:
  assumes "unat idx < 10000"
  shows "length (fill_repeat ''SimpleKey'' 32 ''_REP_'' idx) < 50 \<and>
    length (fill_repeat ''SimpleValue'' 128 ''_REP_'' idx) < 200"
proof -
  have "length (nat_to_string (unat idx)) \<le> 4"
    using length_nat_to_string [of "unat idx" 4] assms by simp
  then show ?thesis
    using length_fill_repeat(2) [where limit = 32 and idx = idx and rep = "''_REP_''" and base = "''SimpleKey''"]
      length_fill_repeat(2) [where limit = 128 and idx = idx and rep = "''_REP_''"
        and base = "''SimpleValue''"] by simp
qed

theorem dstest_assertions_witness:
  "length (fill_repeat ''SimpleKey'' 32 ''_REP_'' 9999) < 50 \<and>
    length (fill_repeat ''SimpleValue'' 128 ''_REP_'' 9999) < 200"
  by (rule dstest_assertions) simp

text \<open>
  A subdocument load dataset gives every document the schema string as its value: cutting
  the quotes and the backslashes out of the written JSON undoes the writer's escapes, for a
  schema without backslashes and control characters.
\<close>

theorem sd_load_value:
  assumes "ds_body ds = SD spec" and "sd_load spec" and "sd_doc spec = j_str J s"
    and "plain_text s"
    and "j_write J (j_str J s) = CHR 0x22 # json_escape s @ [CHR 0x22, CHR 0x0A]"
    and "enat n \<le> ds_total J ds"
  shows "\<exists>k. ds_load J u ds n = Inr (k, s, [], [])"
proof -
  have "strip_written (j_write J (sd_doc spec)) = s"
    by (simp add: assms(3,5) strip_written_quoted filter_json_escape [OF assms(4)])
  with ds_load_sd [OF assms(1,6)] assms(2) show ?thesis by (simp add: sd_item_def)
qed

theorem sd_load_value_witness:
  "\<exists>k. ds_load Jref 0 example_sd 1 = Inr (k, ''{\"a\":1}'', [], [])"
proof (rule sd_load_value)
  show "ds_body example_sd = SD \<lparr>sd_doc = JStr ''{\"a\":1}'', sd_load = True,
     sd_command = [], sd_path = [], sd_value = [], sd_continuous = False, sd_count = 2\<rparr>"
    by (simp add: example_defs)
qed (simp_all add: Jref_def Jref_with_def jv_quote_def plain_text_def ds_total_def ds_continuous_def
    getCount_def example_defs)

text \<open>
  The documents of a N1QL dataset are keyed by their number, wrapped when continuous, as
  long as no parameter is itself named \<open>id\<close> and there is a value for each parameter.
\<close>

theorem n1ql_keys:
  assumes "json_object J" and "ds_body ds = N1QL spec" and "enat n \<le> ds_total J ds"
    and "length (nq_params spec) \<le> length (nq_paramValues spec)"
    and "''id'' \<notin> set (nq_params spec)" and "unat (nq_count spec) < 2 ^ 31"
    and "nq_count spec \<noteq> 0"
  shows "\<exists>v. ds_load J u ds n = Inr (nat_to_string
    (if nq_continuous spec then n mod unat (nq_count spec) else n), v, [], [])"
proof -
  let ?p = "position (nq_continuous spec) (unat (nq_count spec)) n"
  have p: "?p = (if nq_continuous spec then n mod unat (nq_count spec) else n)"
    using assms(7) by (simp add: position_def unat_eq_0)
  have "?p < 2 ^ 31"
  proof (cases "nq_continuous spec")
    case True
    have "n mod unat (nq_count spec) < unat (nq_count spec)"
      using assms(7) by (simp add: unat_gt_0)
    then show ?thesis using True p assms(6) by simp
  next
    case False
    then have "n \<le> unat (nq_count spec)"
      using assms(2,3) by (simp add: ds_total_def ds_continuous_def getCount_def)
    then show ?thesis using False p assms(6) by simp
  qed
  then have "int_to_string (sint (word_of_nat ?p :: 32 word)) = nat_to_string ?p"
    by (rule numbered_key)
  moreover have "\<exists>v. ds_load J u ds n =
      Inr (int_to_string (sint (word_of_nat ?p :: 32 word)), v, [], [])"
    by (rule json_object.ds_load_n1ql [OF assms(1-5)])
  ultimately show ?thesis by (simp only: p)
qed

theorem n1ql_keys_witness:
  "\<exists>v. ds_load Jref 0 (example_n1ql [''tag'']) 4 = Inr (''1'', v, [], [])"
proof -
  let ?spec = "\<lparr>nq_params = [''tag''], nq_paramValues = [''x''], nq_continuous = True, nq_count = 3\<rparr>"
  have "\<exists>v. ds_load Jref 0 (example_n1ql [''tag'']) 4 = Inr (nat_to_string
    (if nq_continuous ?spec then 4 mod unat (nq_count ?spec) else 4), v, [], [])"
    by (rule n1ql_keys)
      (simp_all add: Jref_object example_defs ds_total_def ds_continuous_def)
  moreover have "nat_to_string 1 = ''1''" by code_simp
  ultimately show ?thesis by simp
qed

text \<open>
  A N1QL dataset with more parameters than values passes the constructor's checks and
  then reads past the end of the values as soon as it is iterated.
\<close>

theorem n1ql_missing_values:
  assumes "json_object J" and "ds_body ds = N1QL spec"
    and "length (nq_paramValues spec) < length (nq_params spec)" and "nq_paramValues spec \<noteq> []"
    and "nq_count spec \<noteq> 0"
  shows "fst (N1QLDataset_verify_spec spec ds) \<and>
    DatasetIterator_start J ds (getIter u ds) = Inl BadAccess"
  using json_object.N1QL_start_short [OF assms(1-3)] assms(3-5)
  by (auto simp: N1QLDataset_verify_spec_def)

theorem n1ql_missing_values_witness:
  "DatasetIterator_start Jref (example_n1ql [''a'', ''b'']) (getIter 0 (example_n1ql [''a'', ''b'']))
    = Inl BadAccess"
proof -
  have body: "ds_body (example_n1ql [''a'', ''b'']) = N1QL \<lparr>nq_params = [''a'', ''b''],
     nq_paramValues = [''x''], nq_continuous = True, nq_count = 3\<rparr>"
    by (simp add: example_defs)
  show ?thesis using n1ql_missing_values [OF Jref_object body] by simp
qed

text \<open>
  C40: \<open>fromType\<close> gives a dataset of the kind it was asked for; a dataset of any kind but the
  inline one is valid exactly when its count and its seeds or parameters are there, and is
  marked with the invalid-input code of the daemon otherwise.
\<close>

theorem fromType_checks:
  assumes "fromType J t req = Inr (Some ds)"
  shows "ds_type ds = t \<and>
    (t \<noteq> DSTYPE_INLINE \<longrightarrow>
      (isValid ds \<longleftrightarrow> getCount J ds \<noteq> 0 \<and>
        (case ds_body ds of
           Seeded spec \<Rightarrow> seed_kseed spec \<noteq> [] \<and> seed_vseed spec \<noteq> []
         | N1QL spec \<Rightarrow> nq_params spec \<noteq> [] \<and> nq_paramValues spec \<noteq> []
         | _ \<Rightarrow> True)) \<and>
      (\<not> isValid ds \<longrightarrow> code (ds_err ds) = 0x220))"
  using assms
  by (auto simp: fromType_def DatasetInline_new_def DatasetSeeded_new_def N1QLDataset_new_def
      SDDataset_new_def FTSDataset_new_def CBASDataset_new_def verify_spec_defs rbind_eq_Inr
      Dataset_new_def spec_error_def isValid_def getCount_def error_defs Let_def split: if_splits)

theorem fromType_checks_witness:
  "isValid example_fts \<and> ds_type example_fts = DSTYPE_FTS"
proof -
  have "fromType Jref DSTYPE_FTS example_fts_request = Inr (Some example_fts)"
    by code_simp
  from fromType_checks [OF this] have "ds_type example_fts = DSTYPE_FTS"
    and "isValid example_fts \<longleftrightarrow> getCount Jref example_fts \<noteq> 0"
    by (simp_all add: example_fts_def Dataset_new_def)
  then show ?thesis by (simp add: example_fts_def Dataset_new_def getCount_def)
qed

end
