(* ===== verification/RoutingItems.thy ===== *)
theory RoutingItems
  imports Routing DatasetItems
begin

text \<open>
  The properties of routing: the outcome for every key, that routed collections exist, that
  the keys of seeded datasets are always routed, and that creation is tried once.
\<close>

lemma last_in_last_three: "key \<noteq> [] \<Longrightarrow> last key \<in> set (drop (length key - 3) key)"
proof -
  assume "key \<noteq> []"
  then have "length key - 3 < length key" by simp
  then have "drop (length key - 3) key \<noteq> []" and "last (drop (length key - 3) key) = last key"
    by (simp_all add: last_drop)
  then show ?thesis by (metis last_in_set)
qed

lemma last_fill_repeat: "is_digit (last (fill_repeat base limit rep idx))"
proof -
  obtain k where "fill_repeat base limit rep idx =
      base @ concat (replicate (Suc k) (rep @ nat_to_string (unat idx)))"
    using fill_repeat_closed [of base limit rep idx] by (simp add: Let_def)
  also have "\<dots> = (base @ concat (replicate k (rep @ nat_to_string (unat idx))) @ rep)
      @ nat_to_string (unat idx)"
    by (simp add: replicate_append_same [symmetric] del: replicate_Suc) (simp add: replicate_append_same [symmetric])
  finally have "last (fill_repeat base limit rep idx) = last (nat_to_string (unat idx))"
    by (simp only: last_appendR nat_to_string_nonempty not_False_eq_True)
  then show ?thesis using nat_to_string_digits [of "last (nat_to_string (unat idx))" "unat idx"] by simp
qed

lemma fill_repeat_nonempty: "fill_repeat base limit rep idx \<noteq> []"
  using fill_repeat_closed [of base limit rep idx] by (simp add: Let_def)

text \<open>Without collections no key is routed; with them there has to be one.\<close>

definition routable :: "HandleOptions \<Rightarrow> bool" where
  "routable opts \<longleftrightarrow> (useCollections opts \<longrightarrow> collections opts * scopes opts \<noteq> 0)"

lemma seeded_keys_route_lemma:
  assumes "routable opts"
  shows "\<exists>p. getCollection opts (fst (seeded_item spec i)) = Inr p"
proof (cases "useCollections opts")
  case False
  then show ?thesis by (simp add: getCollection_def)
next
  case True
  let ?key = "fst (seeded_item spec i)"
  have "?key \<noteq> []" and "is_digit (last ?key)"
    by (simp_all add: seeded_item_def fill_repeat_nonempty last_fill_repeat)
  then have "\<exists>c \<in> set (drop (length ?key - 3) ?key). is_digit c"
    using last_in_last_three by blast
  moreover have "collections opts * scopes opts \<noteq> 0" using assms True by (simp add: routable_def)
  ultimately show ?thesis using getCollection_number [OF True] by (simp add: Let_def)
qed

definition many_options :: "64 word \<Rightarrow> 64 word \<Rightarrow> HandleOptions" where
  "many_options s c = \<lparr>hostname = ''h'', username = [], password = [], bucket = ''b'',
     useSSL = False, useCollections = True, certpath = [], timeout = 0, scopes = s, collections = c\<rparr>"

definition all_ok_world :: world where
  "all_ok_world = \<lparr>clock = (\<lambda>n. (1000 + n, 0)),
     answers = (\<lambda>n. \<lparr>resp_ec = None, resp_rows = 0, resp_token = n\<rparr>),
     cancels = (\<lambda>n. False), rands = (\<lambda>n. 0), thread_id = ''1''\<rparr>"

section \<open>Properties\<close>

text \<open>
  C23: what \<open>getCollection\<close> does for every key: the default collection when collections are off
  or the key is empty; an exception when none of the last three characters is a digit; a
  division by zero when there are no collections; and otherwise the collection numbered by
  the digits modulo the number of collections, in the scope with that many full scopes before
  it. The single precision division never rounds to another scope.
\<close>

theorem getCollection_reference:
  "getCollection opts key =
    (if useCollections opts \<and> key \<noteq> [] then
       if list_ex is_digit (drop (length key - 3) key) then
         if collections opts * scopes opts = 0 then Inl ArithTrap
         else let n = key_number key mod unat (collections opts * scopes opts)
              in Inr (nat_to_string (n div unat (collections opts)), nat_to_string n)
       else Inl (Uncaught ''stoi'')
     else Inr (''_default'', ''_default''))"
proof (cases "useCollections opts \<and> key \<noteq> []")
  case False
  then show ?thesis by (auto simp: getCollection_def)
next
  case True
  show ?thesis
  proof (cases "list_ex is_digit (drop (length key - 3) key)")
    case False
    then have "filter is_digit (drop (length key - 3) key) = []"
      by (simp add: filter_empty_conv list_ex_iff)
    with True False show ?thesis by (simp add: getCollection_def stoi_digits_def)
  next
    case digit: True
    then have ne: "filter is_digit (drop (length key - 3) key) \<noteq> []"
      by (simp add: filter_empty_conv list_ex_iff)
    show ?thesis
    proof (cases "collections opts * scopes opts = 0")
      case True
      with \<open>useCollections opts \<and> key \<noteq> []\<close> digit ne show ?thesis
        by (simp add: getCollection_def stoi_digits_def Let_def)
    next
      case False
      with \<open>useCollections opts \<and> key \<noteq> []\<close> digit getCollection_number [of opts key]
      show ?thesis by (simp add: list_ex_iff)
    qed
  qed
qed

text \<open>
  The numbers of collections and scopes, whose product is less than \<open>2^31\<close>, survive their
  conversions to \<open>int\<close>, and the number routing takes from a key lies in the range of the scope it
  is divided into.
\<close>

lemma routing_numbers:
  assumes "0 < unat (scopes opts)" "0 < unat (collections opts)"
    and "unat (collections opts) * unat (scopes opts) < 2 ^ 31"
  shows "int_of_ulong (collections opts) = int (unat (collections opts))"
    and "int_of_ulong (scopes opts) = int (unat (scopes opts))"
    and "unat (collections opts * scopes opts) = unat (collections opts) * unat (scopes opts)"
    and "collections opts * scopes opts \<noteq> 0"
proof -
  have "unat (collections opts) * 1 \<le> unat (collections opts) * unat (scopes opts)"
    using assms by (intro mult_le_mono2) simp
  moreover have "1 * unat (scopes opts) \<le> unat (collections opts) * unat (scopes opts)"
    using assms by (intro mult_le_mono1) simp
  ultimately have "unat (collections opts) < 2 ^ 31" "unat (scopes opts) < 2 ^ 31"
    using assms(3) by linarith+
  then show "int_of_ulong (collections opts) = int (unat (collections opts))"
    "int_of_ulong (scopes opts) = int (unat (scopes opts))"
    by (simp_all only: int_of_ulong_unat)
  show prod: "unat (collections opts * scopes opts) = unat (collections opts) * unat (scopes opts)"
    using assms(3) unat_mult_lem [of "collections opts" "scopes opts"] by simp
  then show "collections opts * scopes opts \<noteq> 0" using assms by auto
qed

lemma scope_range:
  assumes "0 < C" "n < C * S"
  shows "n div C < S" and "int n \<in> set [int (n div C) * int C..int (n div C) * int C + int C - 1]"
proof -
  show "n div C < S" using assms(2) by (simp add: less_mult_imp_div_less mult.commute)
  have "n div C * C \<le> n" by simp
  moreover have "n < n div C * C + C"
    using dividend_less_div_times [OF assms(1), of n] by (simp only: add.commute)
  ultimately have "int (n div C) * int C \<le> int n \<and> int n \<le> int (n div C) * int C + int C - 1"
    by (simp only: of_nat_mult [symmetric]) linarith
  then show "int n \<in> set [int (n div C) * int C..int (n div C) * int C + int C - 1]" by simp
qed

lemma generateCollections_run:
  assumes "generateCollections w opts (False, io) = (ok, st)" and "useCollections opts"
  shows "create_scopes w (bucket opts) (int_of_ulong (collections opts))
      [0..int_of_ulong (scopes opts) - 1] io = (ok, snd st)"
  using assms
  by (auto simp: generateCollections_def Collections_generate_def prod_eq_iff split: if_splits prod.splits)

text \<open>Where the creation of a scope and of one of its collections are among the requests.\<close>

lemma creation_positions:
  assumes "i \<in> set is" and "j \<in> set [i * colls..i * colls + colls - 1]"
  obtains p q where "p < q" and "q < length (concat (map (creation_requests buck colls) is))"
    and "concat (map (creation_requests buck colls) is) ! p = ScopeCreateReq buck (int_to_string i)"
    and "concat (map (creation_requests buck colls) is) ! q = CollectionCreateReq buck (int_to_string i) (int_to_string j)"
proof -
  obtain xs ys where "is = xs @ i # ys" using assms(1) by (auto simp: in_set_conv_decomp)
  moreover obtain as bs where ab: "[i * colls..i * colls + colls - 1] = as @ j # bs"
    using assms(2) by (auto simp: in_set_conv_decomp simp del: set_upto)
  define pre where "pre = concat (map (creation_requests buck colls) xs)"
  define cs where "cs = map (\<lambda>j. CollectionCreateReq buck (int_to_string i) (int_to_string j)) as"
  ultimately obtain post where
    "concat (map (creation_requests buck colls) is) =
      pre @ ScopeCreateReq buck (int_to_string i) # cs @ CollectionCreateReq buck (int_to_string i) (int_to_string j) # post"
    by (simp add: creation_requests_def ab pre_def cs_def)
  then show thesis by (intro that [of "length pre" "length pre + Suc (length cs)"]) (simp_all add: nth_append)
qed

text \<open>
  C22: the creation of the collections of a handle, with less than \<open>2^31\<close> of them, sends its requests in
  order and stops at the first reply that is an error, and then reports failure. When it reports
  success, every key with a digit among its last three characters is routed to a scope and a
  collection whose creations were sent in this order and answered without an error.
\<close>

theorem routed_collection_created:
  assumes "generateCollections w opts (False, io) = (ok, st)" and "useCollections opts"
    and "list_ex is_digit (drop (length key - 3) key)"
    and "0 < unat (scopes opts)" and "0 < unat (collections opts)"
    and "unat (collections opts) * unat (scopes opts) < 2 ^ 31"
  shows "(ok \<longrightarrow> (\<exists>s c p q. getCollection opts key = Inr (s, c) \<and>
      length (sent io) \<le> p \<and> p < q \<and> q < length (sent (snd st)) \<and>
      sent (snd st) ! p = ScopeCreateReq (bucket opts) s \<and> resp_ec (answers w p) = None \<and>
      sent (snd st) ! q = CollectionCreateReq (bucket opts) s c \<and> resp_ec (answers w q) = None)) \<and>
    (\<not> ok \<longrightarrow> (\<exists>n. length (sent (snd st)) = Suc n \<and> length (sent io) \<le> n \<and> resp_ec (answers w n) \<noteq> None \<and>
      (\<forall>i. length (sent io) \<le> i \<and> i < n \<longrightarrow> resp_ec (answers w i) = None)))"
proof -
  note ints = routing_numbers [OF assms(4-6)]
  define C S L where "C = unat (collections opts)" and "S = unat (scopes opts)" and "L = length (sent io)"
  define R where "R = concat (map (creation_requests (bucket opts) (int C)) [0..int S - 1])"
  have "create_scopes w (bucket opts) (int C) [0..int S - 1] io = (ok, snd st)"
    using generateCollections_run [OF assms(1,2)] by (simp only: ints C_def S_def)
  then have run: "creates w io R (ok, snd st)" using create_scopes_creates unfolding R_def by metis
  show ?thesis
  proof (cases ok)
    case True
    define n where "n = key_number key mod (C * S)"
    have C: "0 < C" and n: "n < C * S" using assms by (simp_all add: C_def S_def n_def)
    note i = scope_range(1) [OF C n] and j = scope_range(2) [OF C n]
    have key: "getCollection opts key = Inr (nat_to_string (n div C), nat_to_string n)"
      using getCollection_number [OF assms(2) _ ints(4)] assms(3)
      by (simp add: ints(3) n_def C_def S_def list_ex_iff Let_def)
    have "int (n div C) \<in> set [0..int S - 1]" using i by simp
    then obtain p q where pq: "p < q" "q < length R" "R ! p = ScopeCreateReq (bucket opts) (nat_to_string (n div C))"
      "R ! q = CollectionCreateReq (bucket opts) (nat_to_string (n div C)) (nat_to_string n)"
      using creation_positions [OF _ j, of _ "bucket opts"] unfolding R_def
      by (metis int_to_string_nonneg nat_int of_nat_0_le_iff)
    have sent: "sent (snd st) = sent io @ R" "\<forall>i < length R. resp_ec (answers w (L + i)) = None"
      using run True by (simp_all add: creates_def L_def)
    have "length (sent io) \<le> L + p \<and> L + p < L + q \<and> L + q < length (sent (snd st)) \<and>
      sent (snd st) ! (L + p) = R ! p \<and> resp_ec (answers w (L + p)) = None \<and>
      sent (snd st) ! (L + q) = R ! q \<and> resp_ec (answers w (L + q)) = None"
      using pq(1,2) sent by (simp add: L_def nth_append)
    with True key pq(3,4) show ?thesis by (simp only: simp_thms) blast
  next
    case False
    then obtain n where n: "n < length R" "sent (snd st) = sent io @ take (Suc n) R"
      "\<forall>i < n. resp_ec (answers w (L + i)) = None" "resp_ec (answers w (L + n)) \<noteq> None"
      using run by (auto simp: creates_def L_def)
    have "resp_ec (answers w i) = None" if "L \<le> i" "i < L + n" for i
      using n(3) [rule_format, of "i - L"] that by simp
    with False n show ?thesis by (auto simp: L_def intro!: exI [of _ "L + n"])
  qed
qed

theorem routed_collection_created_witness:
  "\<exists>s c p q st. generateCollections all_ok_world (many_options 2 3) (False, io_start) = (True, st) \<and>
    getCollection (many_options 2 3) ''key10'' = Inr (s, c) \<and> p < q \<and>
    sent (snd st) ! p = ScopeCreateReq ''b'' s \<and> sent (snd st) ! q = CollectionCreateReq ''b'' s c"
proof -
  have "fst (generateCollections all_ok_world (many_options 2 3) (False, io_start))"
    by code_simp
  then obtain st where g: "generateCollections all_ok_world (many_options 2 3) (False, io_start) = (True, st)"
    by (metis prod.collapse)
  have digit: "list_ex is_digit (drop (length ''key10'' - 3) ''key10'')" by code_simp
  have opts: "bucket (many_options 2 3) = ''b''" "useCollections (many_options 2 3)"
    "scopes (many_options 2 3) = 2" "collections (many_options 2 3) = 3"
    by (simp_all add: many_options_def)
  show ?thesis using routed_collection_created [OF g opts(2) digit] g by (simp add: opts) blast
qed

text \<open>
  The keys of a seeded dataset end with a digit, so that routing never throws on them.
\<close>

theorem seeded_keys_route:
  assumes "routable opts"
  shows "\<exists>p. getCollection opts (fst (seeded_item spec i)) = Inr p"
  by (rule seeded_keys_route_lemma [OF assms])

theorem seeded_keys_route_witness:
  "\<exists>p. getCollection (many_options 4 100) (fst (seeded_item example_seed 1)) = Inr p"
  by (rule seeded_keys_route) (simp add: routable_def many_options_def)

text \<open>
  Creation is tried once in the life of the process: whatever the first attempt gave, also
  when it failed at the first scope, every later call reports failure and sends nothing.
\<close>

theorem creation_tried_once:
  assumes "useCollections opts"
  shows "generateCollections w' opts' (snd (generateCollections w opts st)) =
    (False, snd (generateCollections w opts st))"
  using assms
  by (auto simp: generateCollections_def Collections_generate_def split: prod.splits)

theorem creation_tried_once_witness:
  "generateCollections all_ok_world (many_options 2 3)
      (snd (generateCollections (all_ok_world\<lparr>answers := \<lambda>n. \<lparr>resp_ec = Some ''auth'', resp_rows = 0, resp_token = 0\<rparr>\<rparr>)
        (many_options 2 3) (False, io_start)))
    = (False, (True, snd (snd (generateCollections (all_ok_world\<lparr>answers := \<lambda>n. \<lparr>resp_ec = Some ''auth'',
        resp_rows = 0, resp_token = 0\<rparr>\<rparr>) (many_options 2 3) (False, io_start)))))"
  by (subst creation_tried_once)
    (simp_all add: many_options_def generateCollections_def Collections_generate_def split: prod.split)

end
