(* ===== verification/ResultStats.thy ===== *)
theory ResultStats
  imports Results Json_Ref
begin

text \<open>
  What a result set promises: every recorded operation is counted once, in the totals and in
  one window, the windows' extremes and sums are those of their durations, the window of an
  operation is the one of its time, and when the percentile of a window exists.
\<close>

section \<open>Windows\<close>

definition window_ok :: "TimeWindow \<Rightarrow> bool" where
  "window_ok w \<longleftrightarrow>
     count w = word_of_nat (length (durations w)) \<and>
     smap_ok (ec w) \<and> total_count (ec w) = int (length (durations w)) \<and>
     time_total w = word_of_int (sum_list (durations w)) \<and>
     (if durations w = [] then time_max w = 0
      else time_min w = Min (word_of_int ` set (durations w)) \<and>
           time_max w = Max (word_of_int ` set (durations w)))"

text \<open>A window an operation may be added to.\<close>

definition recordable :: "TimeWindow \<Rightarrow> bool" where
  "recordable w \<longleftrightarrow> window_ok w \<and> (durations w = [] \<longrightarrow> time_min w = - 1)"

lemma window_ok_empty [simp]: "window_ok (TimeWindow_new\<lparr>time_min := m\<rparr>)"
  by (simp add: window_ok_def TimeWindow_new_def)

lemma recordable_new: "recordable TimeWindow_new" "recordable (TimeWindow_new\<lparr>time_min := - 1\<rparr>)"
  by (simp_all add: recordable_def window_ok_def TimeWindow_new_def)

lemma durations_new [simp]: "durations TimeWindow_new = []"
  by (simp add: TimeWindow_new_def)

lemma durations_record_op [simp]: "durations (record_op d e w) = durations w @ [d]"
  by (simp add: record_op_def)

lemma window_ok_record_op:
  assumes "recordable w"
  shows "window_ok (record_op d e w)"
proof (cases "durations w = []")
  case True
  with assms have "time_min w = - 1" "time_max w = 0"
    by (simp_all add: recordable_def window_ok_def)
  moreover have "min (- 1) (word_of_int d :: 32 word) = word_of_int d"
    by (simp add: min_def word_order.extremum_unique)
  ultimately show ?thesis
    using assms True by (simp add: recordable_def window_ok_def record_op_def)
next
  case False
  then have ne: "(word_of_int :: int \<Rightarrow> 32 word) ` set (durations w) \<noteq> {}" by simp
  have "time_min w = Min (word_of_int ` set (durations w))"
    and "time_max w = Max (word_of_int ` set (durations w))"
    using assms False by (simp_all add: recordable_def window_ok_def)
  with ne have "min (time_min w) (word_of_int d) = Min (insert (word_of_int d) (word_of_int ` set (durations w)))"
    and "max (time_max w) (word_of_int d) = Max (insert (word_of_int d) (word_of_int ` set (durations w)))"
    by (simp_all add: min.commute max.commute)
  then show ?thesis
    using assms by (simp add: recordable_def window_ok_def record_op_def)
qed

section \<open>Skipped windows\<close>

lemma fill_windows_spec:
  assumes "0 < step"
  shows "\<exists>k. fill_windows step frame cur ts =
      (cur + Suc k * step, ts @ replicate (Suc k) (TimeWindow_new\<lparr>time_min := 0\<rparr>)) \<and>
    frame \<le> cur + Suc k * step \<and> (cur < frame \<longrightarrow> cur + k * step < frame)"
  using assms
proof (induction step frame cur ts rule: fill_windows.induct)
  case (1 step frame cur ts)
  let ?e = "TimeWindow_new\<lparr>time_min := 0\<rparr>"
  show ?case
  proof (cases "cur + step < frame")
    case False
    then have "fill_windows step frame cur ts = (cur + step, ts @ [?e])"
      by (simp add: fill_windows.simps [of step frame cur ts] Let_def)
    with False show ?thesis by (intro exI [of _ 0]) simp
  next
    case True
    with "1.IH" [OF refl refl] "1.prems" obtain k
      where k: "fill_windows step frame (cur + step) (ts @ [?e]) =
          (cur + step + Suc k * step, (ts @ [?e]) @ replicate (Suc k) ?e)"
        and "frame \<le> cur + step + Suc k * step" and "cur + step + k * step < frame"
      by auto
    moreover have "fill_windows step frame cur ts = fill_windows step frame (cur + step) (ts @ [?e])"
      using True "1.prems" by (simp add: fill_windows.simps [of step frame cur ts] Let_def)
    ultimately show ?thesis by (intro exI [of _ "Suc k"]) simp
  qed
qed

lemma update_last_snoc [simp]: "update_last f (xs @ [x]) = xs @ [f x]"
  by (simp add: update_last_def)

lemma update_last_nonempty [simp]: "update_last f xs = [] \<longleftrightarrow> xs = []"
  by (simp add: update_last_def)

lemma length_update_last [simp]: "length (update_last f xs) = length xs"
  by (simp add: update_last_def)

section \<open>The invariant\<close>

definition recorded :: "ResultSet \<Rightarrow> nat" where
  "recorded rs = sum_list (map (\<lambda>w. length (durations w)) (timestats rs))"

definition results_ok :: "ResultSet \<Rightarrow> bool" where
  "results_ok rs \<longleftrightarrow>
     smap_ok (stats rs) \<and> total_count (stats rs) = int (recorded rs) \<and>
     (\<forall>w \<in> set (timestats rs). window_ok w) \<and>
     (timestats rs = [] \<longrightarrow> cur_wintime rs = 0) \<and>
     (timestats rs \<noteq> [] \<longrightarrow> durations (last (timestats rs)) \<noteq> [])"

lemma results_ok_clear [simp]: "results_ok (clear_results rs)"
  by (simp add: results_ok_def clear_results_def recorded_def)

lemma results_ok_options [simp]:
  "results_ok (rs\<lparr>options := x\<rparr>) \<longleftrightarrow> results_ok rs"
  "results_ok (rs\<lparr>remaining := y\<rparr>) \<longleftrightarrow> results_ok rs"
  "results_ok (rs\<lparr>opstart_tmsec := z\<rparr>) \<longleftrightarrow> results_ok rs"
  "results_ok (rs\<lparr>oper_error := e\<rparr>) \<longleftrightarrow> results_ok rs"
  "results_ok (rs\<lparr>vresp_complete := b\<rparr>) \<longleftrightarrow> results_ok rs"
  "results_ok (rs\<lparr>fullstats := f\<rparr>) \<longleftrightarrow> results_ok rs"
  by (simp_all add: results_ok_def recorded_def)

lemma results_ok_markBegin [simp]: "results_ok (markBegin tv rs) \<longleftrightarrow> results_ok rs"
  by (simp add: markBegin_def)

text \<open>\<open>open_window\<close> leaves a last window to record into, and empty ones before it.\<close>

lemma open_window_spec:
  assumes "\<forall>w \<in> set (timestats rs). window_ok w" and "timestats rs = [] \<longrightarrow> cur_wintime rs = 0"
    and "timestats rs \<noteq> [] \<longrightarrow> durations (last (timestats rs)) \<noteq> []"
    and "timeres (options rs) \<noteq> 0"
  obtains ws w where "timestats (open_window f rs) = ws @ [w]" and "\<forall>v \<in> set ws. window_ok v"
    and "recordable w" and "recorded (open_window f rs) = recorded rs"
proof -
  have step: "0 < unat (timeres (options rs))" using assms(4) by (simp add: unat_gt_0)
  consider (new) "cur_wintime rs = 0" | (later) "cur_wintime rs \<noteq> 0" "cur_wintime rs < f"
    | (same) "cur_wintime rs \<noteq> 0" "\<not> cur_wintime rs < f" by blast
  then show thesis
  proof cases
    case new
    then show thesis
      using that [of "timestats rs" TimeWindow_new] assms(1) recordable_new(1)
      by (simp add: open_window_def recorded_def)
  next
    case later
    obtain k where "fill_windows (unat (timeres (options rs))) f (cur_wintime rs) (timestats rs) =
        (cur_wintime rs + Suc k * unat (timeres (options rs)),
         timestats rs @ replicate (Suc k) (TimeWindow_new\<lparr>time_min := 0\<rparr>))"
      using fill_windows_spec [OF step, of f "cur_wintime rs" "timestats rs"] by blast
    moreover have "replicate (Suc k) (TimeWindow_new\<lparr>time_min := 0\<rparr>) =
        replicate k (TimeWindow_new\<lparr>time_min := 0\<rparr>) @ [TimeWindow_new\<lparr>time_min := 0\<rparr>]"
      by (simp only: replicate_Suc replicate_append_same)
    ultimately have ts: "timestats (open_window f rs) =
        (timestats rs @ replicate k (TimeWindow_new\<lparr>time_min := 0\<rparr>)) @ [TimeWindow_new\<lparr>time_min := - 1\<rparr>]"
      using later by (simp add: open_window_def del: append_assoc add: append_assoc [symmetric])
    show thesis
      by (rule that [OF ts]) (use assms(1) ts recordable_new in \<open>auto simp: recorded_def sum_list_replicate\<close>)
  next
    case same
    then have "timestats rs \<noteq> []" using assms(2) by auto
    then have "timestats rs = butlast (timestats rs) @ [last (timestats rs)]" by simp
    then show thesis
      using that [of "butlast (timestats rs)" "last (timestats rs)"] same assms(1,3)
        \<open>timestats rs \<noteq> []\<close>
      by (auto simp: open_window_def recordable_def dest: in_set_butlastD)
  qed
qed

lemma open_window_frame [simp]:
  "stats (open_window f rs) = stats rs" "remaining (open_window f rs) = remaining rs"
  "options (open_window f rs) = options rs" "fullstats (open_window f rs) = fullstats rs"
  "opstart_tmsec (open_window f rs) = opstart_tmsec rs"
  "oper_error (open_window f rs) = oper_error rs"
  by (simp_all add: open_window_def split_beta Let_def)

text \<open>The message a code is counted under.\<close>

definition message_of :: "error_code \<Rightarrow> string" where
  "message_of err = (case err of None \<Rightarrow> ''success'' | Some m \<Rightarrow> m)"

text \<open>\<open>setRescode\<close> in two parts: the counters and options first, then the window.\<close>

definition counted :: "error_code \<Rightarrow> string \<Rightarrow> bool \<Rightarrow> string option \<Rightarrow> ResultSet \<Rightarrow> ResultSet" where
  "counted err key ev v rs =
     rs\<lparr>stats := count_msg (message_of err) (stats rs), remaining := remaining rs - 1,
        fullstats := (if full (options rs) then
            smap_upd [] (\<lambda>_. if ev then (case v of None \<Rightarrow> [] | Some v \<Rightarrow> v) else message_of err)
              (if (case v of None \<Rightarrow> 0 | Some v \<Rightarrow> length v) \<noteq> 0 then key else []) (fullstats rs)
            else fullstats rs),
        options := (if timeres (options rs) = 0 then (options rs)\<lparr>timeres := 1\<rparr> else options rs)\<rparr>"

definition frame_of :: "timeval \<Rightarrow> ResultSet \<Rightarrow> nat" where
  "frame_of tv rs = fst tv - fst tv mod unat (timeres (options rs))"

lemma setRescode_eq:
  "setRescode err key ev v tv rs =
    (let rs3 = counted err key ev v rs; rs4 = open_window (frame_of tv rs3) rs3
     in rbind (require (timestats rs4 \<noteq> []) AssertFailed) (\<lambda>_. Inr (rs4\<lparr>timestats :=
          update_last (record_op (getEpochMsecs tv - opstart_tmsec rs) (message_of err))
            (timestats rs4)\<rparr>)))"
  unfolding setRescode_def Let_def
  by (simp add: counted_def frame_of_def message_of_def split: option.split)

text \<open>Recording always succeeds and keeps the invariant.\<close>

lemma setRescode_ok:
  assumes "results_ok rs"
  obtains rs' where "setRescode err key ev v tv rs = Inr rs'" and "results_ok rs'"
    and "stats rs' = count_msg (message_of err) (stats rs)"
    and "remaining rs' = remaining rs - 1"
    and "opstart_tmsec rs' = opstart_tmsec rs" and "oper_error rs' = oper_error rs"
    and "\<exists>t. options rs' = (options rs)\<lparr>timeres := t\<rparr>"
proof -
  define rs3 where "rs3 = counted err key ev v rs"
  define f where "f = frame_of tv rs3"
  have rs3: "stats rs3 = count_msg (message_of err) (stats rs)" "remaining rs3 = remaining rs - 1"
    "opstart_tmsec rs3 = opstart_tmsec rs" "oper_error rs3 = oper_error rs"
    "timestats rs3 = timestats rs" "cur_wintime rs3 = cur_wintime rs" "timeres (options rs3) \<noteq> 0"
    "\<exists>t. options rs3 = (options rs)\<lparr>timeres := t\<rparr>"
    by (auto simp: rs3_def counted_def intro: exI [of _ "timeres (options rs)"] exI [of _ 1])
  have rec3: "recorded rs3 = recorded rs" by (simp add: recorded_def rs3)
  obtain ws w where ts: "timestats (open_window f rs3) = ws @ [w]"
    and ws: "\<forall>v \<in> set ws. window_ok v" and w: "recordable w"
    and rec: "recorded (open_window f rs3) = recorded rs3"
    using open_window_spec [of rs3 f] assms rs3 by (auto simp: results_ok_def)
  define rs' where "rs' = (open_window f rs3)\<lparr>timestats := ws @
      [record_op (getEpochMsecs tv - opstart_tmsec rs) (message_of err) w]\<rparr>"
  have run: "setRescode err key ev v tv rs = Inr rs'"
    by (simp add: setRescode_eq Let_def rs'_def ts f_def [symmetric] rs3_def [symmetric])
  have "recorded rs' = Suc (recorded rs)"
    using rec rec3 ts by (simp add: recorded_def rs'_def)
  then have "results_ok rs'"
    using assms ws window_ok_record_op [OF w] rs3
    by (simp add: results_ok_def rs'_def)
  with run rs3 show thesis
    by (intro that [of rs']) (simp_all add: rs'_def)
qed

section \<open>The abstract counters\<close>

text \<open>
  What a client relies on: how many results are still to come, and how often each message was
  counted.
\<close>

definition msg_count :: "(string \<times> int) list \<Rightarrow> string \<Rightarrow> int" where
  "msg_count m k = (case map_of m k of None \<Rightarrow> 0 | Some n \<Rightarrow> n)"

definition results_view :: "ResultSet \<Rightarrow> int \<times> (string \<Rightarrow> int)" where
  "results_view rs = (remaining rs, msg_count (stats rs))"

definition count_step :: "error_code \<Rightarrow> int \<times> (string \<Rightarrow> int) \<Rightarrow> int \<times> (string \<Rightarrow> int)" where
  "count_step err v = (fst v - 1, (snd v)(message_of err := snd v (message_of err) + 1))"

lemma msg_count_Nil [simp]: "msg_count [] = (\<lambda>_. 0)"
  by (simp add: msg_count_def fun_eq_iff)

lemma msg_count_count_msg:
  "smap_ok m \<Longrightarrow> msg_count (count_msg k m) = (msg_count m)(k := msg_count m k + 1)"
  by (auto simp: msg_count_def map_of_count_msg split: option.split)

lemma fold_count_step:
  "fold count_step errs (n, f) =
     (n - int (length errs), \<lambda>m. f m + int (count_list (map message_of errs) m))"
  by (induction errs arbitrary: n f) (auto simp: count_step_def fun_eq_iff)

section \<open>The grid of windows\<close>

text \<open>
  With a clock past the first window length, windows are the consecutive intervals of
  \<open>timeres\<close> seconds from \<open>win_begin\<close> to \<open>cur_wintime\<close>.
\<close>

definition on_grid :: "ResultSet \<Rightarrow> bool" where
  "on_grid rs \<longleftrightarrow>
     (timestats rs = [] \<and> cur_wintime rs = 0) \<or>
     (0 < win_begin rs \<and> 0 < unat (timeres (options rs)) \<and>
      unat (timeres (options rs)) dvd win_begin rs \<and> timestats rs \<noteq> [] \<and>
      cur_wintime rs = win_begin rs + unat (timeres (options rs)) * (length (timestats rs) - 1))"

lemma between_multiples:
  fixes s :: nat
  assumes "s dvd a" and "s dvd b" and "a \<le> b" and "b < a + s"
  shows "b = a"
proof -
  obtain x where x: "b - a = s * x" using assms(1,2) by (meson dvd_diff_nat dvdE)
  with assms(3,4) have "s * x < s * 1" by linarith
  then have "x = 0" by (simp only: mult_less_cancel1) simp
  with x assms(3) show ?thesis by simp
qed

lemma open_window_grid:
  assumes "on_grid rs" and "0 < unat (timeres (options rs))"
    and "unat (timeres (options rs)) dvd f" and "0 < f"
  shows "on_grid (open_window f rs) \<and> timestats (open_window f rs) \<noteq> [] \<and>
    cur_wintime (open_window f rs) = max (cur_wintime rs) f"
proof -
  let ?s = "unat (timeres (options rs))"
  consider (new) "cur_wintime rs = 0" "timestats rs = []" | (later) "cur_wintime rs \<noteq> 0" "cur_wintime rs < f"
    | (same) "cur_wintime rs \<noteq> 0" "\<not> cur_wintime rs < f"
    using assms(1) unfolding on_grid_def by (cases "cur_wintime rs < f") auto
  then show ?thesis
  proof cases
    case new
    with assms show ?thesis by (simp add: open_window_def on_grid_def)
  next
    case later
    have g: "0 < win_begin rs" "?s dvd win_begin rs" "timestats rs \<noteq> []"
      "cur_wintime rs = win_begin rs + ?s * (length (timestats rs) - 1)"
      using assms(1) later by (auto simp: on_grid_def)
    obtain k where fw: "fill_windows ?s f (cur_wintime rs) (timestats rs) =
        (cur_wintime rs + Suc k * ?s, timestats rs @ replicate (Suc k) (TimeWindow_new\<lparr>time_min := 0\<rparr>))"
      and le: "f \<le> cur_wintime rs + Suc k * ?s" and lt: "cur_wintime rs + k * ?s < f"
      using fill_windows_spec [OF assms(2), of f "cur_wintime rs" "timestats rs"] later by blast
    have "?s dvd cur_wintime rs" using g by simp
    then have "?s dvd cur_wintime rs + Suc k * ?s" by simp
    with assms(3) le lt have eq: "cur_wintime rs + Suc k * ?s = f"
      by (intro between_multiples [of ?s f]) auto
    have len: "length (timestats rs) + Suc k - 1 = (length (timestats rs) - 1) + Suc k"
      using g(3) by (cases "timestats rs") auto
    have cur: "cur_wintime (open_window f rs) = f"
      and ts: "length (timestats (open_window f rs)) = length (timestats rs) + Suc k"
      and wb: "win_begin (open_window f rs) = win_begin rs"
      using later fw eq by (simp_all add: open_window_def)
    have "f = win_begin rs + ?s * (length (timestats (open_window f rs)) - 1)"
      unfolding ts len using g(4) eq by (simp add: algebra_simps)
    moreover have "timestats (open_window f rs) \<noteq> []" using ts by auto
    ultimately have "on_grid (open_window f rs)"
      using g(1,2) assms(2) by (simp add: on_grid_def cur wb)
    with later cur \<open>timestats (open_window f rs) \<noteq> []\<close> show ?thesis by simp
  next
    case same
    with assms(1) show ?thesis by (auto simp: open_window_def on_grid_def)
  qed
qed

lemma setRescode_grid:
  assumes "setRescode err key ev v tv rs = Inr rs'" and "on_grid rs"
    and "timeres (options rs) \<noteq> 0" and "unat (timeres (options rs)) \<le> fst tv"
  shows "on_grid rs' \<and> options rs' = options rs \<and> cur_wintime rs' = max (cur_wintime rs) (frame_of tv rs)"
proof -
  define rs3 where "rs3 = counted err key ev v rs"
  have o3: "options rs3 = options rs" "on_grid rs3" "cur_wintime rs3 = cur_wintime rs"
    using assms(2,3) by (simp_all add: rs3_def counted_def on_grid_def)
  have step: "0 < unat (timeres (options rs))" using assms(3) by (simp add: unat_gt_0)
  define f where "f = frame_of tv rs"
  have f3: "frame_of tv rs3 = f" by (simp add: f_def frame_of_def o3)
  have "unat (timeres (options rs)) dvd f"
    by (simp add: f_def frame_of_def minus_mod_eq_mult_div)
  moreover have "0 < f"
    using assms(4) step
    by (metis f_def frame_of_def diff_is_0_eq' leD mod_less_divisor mod_less_eq_dividend
        not_gr_zero order_less_le_trans diff_zero zero_less_diff)
  ultimately have ow: "on_grid (open_window f rs3) \<and> timestats (open_window f rs3) \<noteq> [] \<and>
      cur_wintime (open_window f rs3) = max (cur_wintime rs) f"
    using open_window_grid [of rs3 f] o3 step by simp
  then obtain g where "rs' = (open_window f rs3)\<lparr>timestats := update_last g (timestats (open_window f rs3))\<rparr>"
    using assms(1) by (simp add: setRescode_eq Let_def rs3_def [symmetric] f3) blast
  with ow show ?thesis by (auto simp: o3 on_grid_def f_def)
qed

text \<open>Which windows there are after opening one, and that the first one stays where it is.\<close>

lemma open_window_into:
  assumes "on_grid rs" and "timeres (options rs) \<noteq> 0"
  shows "\<exists>k. (timestats rs = [] \<longrightarrow> k = 0) \<and> timestats (open_window f rs) =
    (if timestats rs \<noteq> [] \<and> f \<le> cur_wintime rs then timestats rs
     else timestats rs @ replicate k (TimeWindow_new\<lparr>time_min := 0\<rparr>) @ [TimeWindow_new])"
    and "timestats rs \<noteq> [] \<Longrightarrow> win_begin (open_window f rs) = win_begin rs"
proof -
  have step: "0 < unat (timeres (options rs))" using assms(2) by (simp add: unat_gt_0)
  have grid: "timestats rs = [] \<longleftrightarrow> cur_wintime rs = 0" using assms(1) by (auto simp: on_grid_def)
  then show "timestats rs \<noteq> [] \<Longrightarrow> win_begin (open_window f rs) = win_begin rs"
    by (simp add: open_window_def split_beta Let_def)
  show "\<exists>k. (timestats rs = [] \<longrightarrow> k = 0) \<and> timestats (open_window f rs) =
    (if timestats rs \<noteq> [] \<and> f \<le> cur_wintime rs then timestats rs
     else timestats rs @ replicate k (TimeWindow_new\<lparr>time_min := 0\<rparr>) @ [TimeWindow_new])"
  proof (cases "timestats rs \<noteq> [] \<and> cur_wintime rs < f")
    case True
    obtain k where k: "fill_windows (unat (timeres (options rs))) f (cur_wintime rs) (timestats rs) =
        (cur_wintime rs + Suc k * unat (timeres (options rs)),
         timestats rs @ replicate (Suc k) (TimeWindow_new\<lparr>time_min := 0\<rparr>))"
      using fill_windows_spec [OF step, of f "cur_wintime rs" "timestats rs"] by blast
    have "replicate (Suc k) (TimeWindow_new\<lparr>time_min := 0\<rparr>) =
        replicate k (TimeWindow_new\<lparr>time_min := 0\<rparr>) @ [TimeWindow_new\<lparr>time_min := 0\<rparr>]"
      by (simp only: replicate_Suc replicate_append_same)
    moreover have "TimeWindow_new\<lparr>time_min := - 1\<rparr> = TimeWindow_new" by (simp add: TimeWindow_new_def)
    ultimately have "timestats (open_window f rs) =
        timestats rs @ replicate k (TimeWindow_new\<lparr>time_min := 0\<rparr>) @ [TimeWindow_new]"
      using True k grid by (simp add: open_window_def update_last_def butlast_append)
    with True show ?thesis by (intro exI [of _ k]) simp
  next
    case False
    with grid show ?thesis by (intro exI [of _ 0]) (auto simp: open_window_def)
  qed
qed

lemma frame_le: "s dvd c \<Longrightarrow> 0 < s \<Longrightarrow> t - t mod s \<le> c \<longleftrightarrow> t < c + s" for s t c :: nat
proof -
  assume s: "s dvd c" "0 < s"
  then obtain q where c: "c = s * q" by (auto elim: dvdE)
  have "t - t mod s = s * (t div s)" by (simp add: minus_mod_eq_mult_div)
  then have "t - t mod s \<le> c \<longleftrightarrow> t div s < Suc q" using s(2) by (auto simp: c less_Suc_eq_le)
  also have "\<dots> \<longleftrightarrow> t < Suc q * s" using s(2) by (rule div_less_iff_less_mult)
  finally show ?thesis by (simp add: c algebra_simps)
qed

section \<open>Delays\<close>

lemma mod_interval:
  fixes a b r :: "32 word"
  assumes "a < b"
  shows "a \<le> a + r mod (b - a) \<and> a + r mod (b - a) < b"
proof -
  have le: "unat a < unat b" using assms by (simp add: word_less_nat_alt)
  have m: "unat (b - a) = unat b - unat a" using assms by (simp add: unat_sub)
  have lt: "unat (r mod (b - a)) < unat (b - a)" using m le by (simp add: unat_mod)
  then have "unat (a + r mod (b - a)) = unat a + unat (r mod (b - a))"
    using m le unat_lt_32 [of b] by (subst unat_add_lem [symmetric]) simp
  then show ?thesis using m le lt by (simp add: word_le_nat_alt word_less_nat_alt)
qed

section \<open>Percentiles\<close>

lemma sdiv_100: "0 \<le> a \<Longrightarrow> (a :: int) sdiv 100 = a div 100"
  by (simp add: signed_divide_int_def sgn_if)

lemma length_filter_sort: "length (filter P (sort xs)) = length (filter P (xs :: int list))"
  by (simp add: filter_sort)

lemma getPercentile_in_range:
  assumes "2 \<le> length ds" and "0 \<le> p"
  shows "getPercentile p ds =
    (let k = int (length ds) * p div 100
     in if 1 \<le> k \<and> k \<le> int (length ds) then Inr (sort ds ! nat (k - 1)) else Inl BadAccess)"
proof -
  have "0 \<le> int (length ds) * p" using assms(2) by simp
  then have "int (length ds) * p sdiv 100 = int (length ds) * p div 100" by (rule sdiv_100)
  moreover have "ds \<noteq> []" using assms(1) by auto
  ultimately show ?thesis using assms(1) by (simp add: getPercentile_def Let_def)
qed

text \<open>Where the element of rank \<open>k\<close> stands.\<close>

lemma rank_of_nth:
  fixes xs :: "int list"
  assumes "k < length xs"
  shows "k < length (filter (\<lambda>d. d \<le> sort xs ! k) xs)"
    and "length (filter (\<lambda>d. d < sort xs ! k) xs) \<le> k"
proof -
  define ys where "ys = sort xs"
  have len: "k < length ys" and sorted: "sorted ys" using assms by (simp_all add: ys_def)
  have split: "length (filter P (take j ys)) + length (filter P (drop j ys)) = length (filter P ys)" for P j
    by (metis append_take_drop_id filter_append length_append)
  have low: "\<forall>d \<in> set (take (Suc k) ys). d \<le> ys ! k"
    using sorted len by (auto simp: in_set_conv_nth sorted_nth_mono)
  then have "filter (\<lambda>d. d \<le> ys ! k) (take (Suc k) ys) = take (Suc k) ys" by simp
  then have "k < length (filter (\<lambda>d. d \<le> ys ! k) ys)"
    using split [of "\<lambda>d. d \<le> ys ! k" "Suc k"] len by simp
  moreover have high: "\<forall>d \<in> set (drop k ys). \<not> d < ys ! k"
    using sorted len by (auto simp: in_set_conv_nth not_less intro!: sorted_nth_mono)
  then have "filter (\<lambda>d. d < ys ! k) (drop k ys) = []" by simp
  then have "length (filter (\<lambda>d. d < ys ! k) ys) \<le> k"
    using split [of "\<lambda>d. d < ys ! k" k] length_filter_le [of "\<lambda>d. d < ys ! k" "take k ys"] by simp
  ultimately show "k < length (filter (\<lambda>d. d \<le> sort xs ! k) xs)"
    and "length (filter (\<lambda>d. d < sort xs ! k) xs) \<le> k"
    by (simp_all add: ys_def length_filter_sort)
qed

section \<open>Properties\<close>

text \<open>Recording a batch of results, each at its time.\<close>

primrec record_all :: "(error_code \<times> timeval) list \<Rightarrow> ResultSet \<Rightarrow> ResultSet run" where
  "record_all [] rs = Inr rs"
| "record_all (c # cs) rs = rbind (setRescode_err (fst c) (snd c) rs) (record_all cs)"

lemma record_all_ok:
  assumes "results_ok rs"
  shows "\<exists>rs'. record_all cs rs = Inr rs' \<and> results_ok rs' \<and>
    results_view rs' = fold count_step (map fst cs) (results_view rs)"
  using assms
proof (induction cs arbitrary: rs)
  case Nil
  then show ?case by simp
next
  case (Cons c cs)
  obtain rs1 where rs1: "setRescode_err (fst c) (snd c) rs = Inr rs1" "results_ok rs1"
    "stats rs1 = count_msg (message_of (fst c)) (stats rs)" "remaining rs1 = remaining rs - 1"
    unfolding setRescode_err_def using setRescode_ok [OF Cons.prems] by metis
  have "smap_ok (stats rs)" using Cons.prems by (simp add: results_ok_def)
  then have "results_view rs1 = count_step (fst c) (results_view rs)"
    by (simp add: results_view_def count_step_def rs1 msg_count_count_msg)
  with Cons.IH [OF rs1(2)] rs1(1) show ?case by simp
qed

definition example_results :: ResultSet where
  "example_results = \<lparr>stats = [], fullstats = [], timestats = [],
     options = ResultOptions_new 0 False False 0 0, oper_error = Error_new, remaining = 2,
     query_resp_count = 0, fts_query_resp_count = 0, cbas_query_resp_count = 0,
     vresp_complete = False, scan_consistency = [], win_begin = 0, cur_wintime = 0,
     opstart_tmsec = 5000\<rparr>"

lemma example_results_ok: "results_ok example_results" "on_grid example_results"
  by (simp_all add: example_results_def results_ok_def recorded_def on_grid_def)

text \<open>
  C4: recording never fails, and a cleared result set into which any sequence of results was
  recorded holds each of them once: the counter of a message is the number of results with
  that message, the counters add up to the number of durations in the windows, and every
  window's count, sum, least, greatest and error counters are those of its durations.
\<close>

theorem results_account:
  "\<exists>rs'. record_all cs (clear_results rs) = Inr rs' \<and>
    remaining rs' = - int (length cs) \<and>
    (\<forall>m. msg_count (stats rs') m = int (count_list (map (message_of \<circ> fst) cs) m)) \<and>
    total_count (stats rs') = int (recorded rs') \<and> list_all window_ok (timestats rs')"
proof -
  obtain rs' where rs': "record_all cs (clear_results rs) = Inr rs'" "results_ok rs'"
    "results_view rs' = fold count_step (map fst cs) (results_view (clear_results rs))"
    using record_all_ok [OF results_ok_clear] by blast
  have "results_view (clear_results rs) = (0, \<lambda>_. 0)"
    by (simp add: results_view_def clear_results_def)
  with rs'(3) have "results_view rs' =
      (- int (length cs), \<lambda>m. int (count_list (map message_of (map fst cs)) m))"
    by (simp add: fold_count_step)
  with rs'(1,2) show ?thesis
    by (auto simp: results_view_def results_ok_def list_all_iff fun_eq_iff)
qed

text \<open>
  C28: a reply is counted in the window of the time it is recorded at, with the time since the last
  submission as its duration. The windows are consecutive intervals of \<open>TimeRes\<close> seconds, the first
  of them stays, and \<open>cur_wintime\<close> is the beginning of the last; unless the clock went back before it,
  the clock is in the last window afterwards. If it was before, or went back, that window gets the
  sample; otherwise a new one does, after the empty ones the clock has passed over; no other
  window changes. For a clock that is not in the first \<open>TimeRes\<close> seconds.
\<close>

theorem window_of_operation:
  assumes "setRescode err key ev v tv rs = Inr rs'" and "on_grid rs"
    and "timeres (options rs) \<noteq> 0" and "unat (timeres (options rs)) \<le> fst tv"
  shows "on_grid rs' \<and> cur_wintime rs' = win_begin rs' + unat (timeres (options rs)) * (length (timestats rs') - 1) \<and>
    (timestats rs \<noteq> [] \<longrightarrow> win_begin rs' = win_begin rs) \<and>
    (cur_wintime rs \<le> fst tv \<longrightarrow> cur_wintime rs' \<le> fst tv \<and> fst tv < cur_wintime rs' + unat (timeres (options rs))) \<and>
    (if timestats rs \<noteq> [] \<and> fst tv < cur_wintime rs + unat (timeres (options rs))
     then timestats rs' = butlast (timestats rs) @
       [record_op (getEpochMsecs tv - opstart_tmsec rs) (message_of err) (last (timestats rs))]
     else \<exists>k. (timestats rs = [] \<longrightarrow> k = 0) \<and>
       timestats rs' = timestats rs @ replicate k (TimeWindow_new\<lparr>time_min := 0\<rparr>) @
         [record_op (getEpochMsecs tv - opstart_tmsec rs) (message_of err) TimeWindow_new])"
proof -
  let ?s = "unat (timeres (options rs))"
  have s: "0 < ?s" using assms(3) by (simp add: unat_gt_0)
  define rs3 where "rs3 = counted err key ev v rs"
  define f where "f = frame_of tv rs"
  have o3: "options rs3 = options rs" "on_grid rs3" "cur_wintime rs3 = cur_wintime rs" "timestats rs3 = timestats rs"
    "win_begin rs3 = win_begin rs"
    using assms(2,3) by (simp_all add: rs3_def counted_def on_grid_def)
  have f3: "frame_of tv rs3 = f" by (simp add: f_def frame_of_def o3)
  note grid = setRescode_grid [OF assms]
  have rs': "rs' = (open_window f rs3)\<lparr>timestats := update_last (record_op (getEpochMsecs tv - opstart_tmsec rs) (message_of err))
      (timestats (open_window f rs3))\<rparr>" and nonempty: "timestats (open_window f rs3) \<noteq> []"
    using assms(1) by (auto simp: setRescode_eq Let_def rs3_def [symmetric] f3 require_def split: if_splits)
  have cur: "cur_wintime rs' = win_begin rs' + ?s * (length (timestats rs') - 1)"
    using grid nonempty by (auto simp: on_grid_def rs' update_last_def)
  have first: "timestats rs \<noteq> [] \<longrightarrow> win_begin rs' = win_begin rs"
    using open_window_into(2) [of rs3 f] assms(3) by (simp add: o3 rs')
  have "?s dvd cur_wintime rs" using assms(2) by (auto simp: on_grid_def)
  then have le: "f \<le> cur_wintime rs \<longleftrightarrow> fst tv < cur_wintime rs + ?s"
    using frame_le [of ?s "cur_wintime rs" "fst tv"] s by (simp add: f_def frame_of_def)
  have "fst tv mod ?s < ?s" "fst tv mod ?s \<le> fst tv" using s by simp_all
  then have "f \<le> fst tv" "fst tv < f + ?s" unfolding f_def frame_of_def by linarith+
  then have inside: "cur_wintime rs \<le> fst tv \<longrightarrow> cur_wintime rs' \<le> fst tv \<and> fst tv < cur_wintime rs' + ?s"
    using grid by (auto simp: f_def max_def)
  obtain k where k: "timestats rs = [] \<longrightarrow> k = 0" "timestats (open_window f rs3) =
    (if timestats rs \<noteq> [] \<and> f \<le> cur_wintime rs then timestats rs
     else timestats rs @ replicate k (TimeWindow_new\<lparr>time_min := 0\<rparr>) @ [TimeWindow_new])"
    using open_window_into(1) [OF o3(2), unfolded o3(1,3,4), OF assms(3), of f] by blast
  show ?thesis
  proof (cases "timestats rs \<noteq> [] \<and> f \<le> cur_wintime rs")
    case True
    with k(2) have "timestats rs' = butlast (timestats rs) @
       [record_op (getEpochMsecs tv - opstart_tmsec rs) (message_of err) (last (timestats rs))]"
      by (simp add: rs' update_last_def)
    with True grid cur first inside le show ?thesis by simp
  next
    case False
    with k have "timestats rs' = timestats rs @ replicate k (TimeWindow_new\<lparr>time_min := 0\<rparr>) @
         [record_op (getEpochMsecs tv - opstart_tmsec rs) (message_of err) TimeWindow_new]"
      by (auto simp: rs' update_last_def butlast_append)
    with False k(1) grid cur first inside le show ?thesis by auto
  qed
qed

theorem window_of_operation_witness:
  "\<exists>rs' w. setRescode None [] False None (27, 0)
      (example_results\<lparr>options := (options example_results)\<lparr>timeres := 10\<rparr>\<rparr>) = Inr rs' \<and>
    cur_wintime rs' = 20 \<and> timestats rs' = [w] \<and> count w = 1"
proof -
  let ?rs = "example_results\<lparr>options := (options example_results)\<lparr>timeres := 10\<rparr>\<rparr>"
  have ok: "results_ok ?rs" by (simp add: example_results_ok)
  obtain rs' where run: "setRescode None [] False None (27, 0) ?rs = Inr rs'"
    using setRescode_ok [OF ok] by metis
  have rs: "on_grid ?rs" "timestats ?rs = []" "cur_wintime ?rs = 0" "unat (timeres (options ?rs)) = 10"
    by (simp_all add: on_grid_def example_results_def)
  then have t: "timestats rs' = [record_op (getEpochMsecs (27, 0) - opstart_tmsec ?rs) (message_of None) TimeWindow_new]"
    "cur_wintime rs' \<le> 27" "27 < cur_wintime rs' + 10" "on_grid rs'" "cur_wintime rs' = win_begin rs'"
    using window_of_operation [OF run] by auto
  have "options rs' = options ?rs" using setRescode_grid [OF run] rs by simp
  with t(4,1,5) have "10 dvd cur_wintime rs'" using rs(4) by (auto simp: on_grid_def)
  with t(2,3) have "cur_wintime rs' = 20" by (auto elim!: dvdE)
  with run t(1) show ?thesis by (auto simp: record_op_def TimeWindow_new_def)
qed

text \<open>
  C30: for a window of two or more durations and a percentile factor that is not negative, the
  percentile is read from inside the vector exactly when \<open>100 \<le> size * factor < 100 * (size + 1)\<close>.
\<close>

theorem percentile_safe_iff:
  assumes "2 \<le> length ds" and "0 \<le> p"
  shows "getPercentile p ds = Inl BadAccess \<longleftrightarrow>
    \<not> (100 \<le> int (length ds) * p \<and> int (length ds) * p < 100 * (int (length ds) + 1))"
  unfolding getPercentile_in_range [OF assms] Let_def by auto

theorem percentile_safe_iff_witness:
  "getPercentile 0 [4, 9] = Inl BadAccess"
  using percentile_safe_iff [of "[4, 9]" 0] by simp

text \<open>
  C29: when it is in range the percentile is one of the durations, with at least
  \<open>size * factor div 100\<close> durations that are not greater and fewer than that many smaller ones.
\<close>

theorem percentile_rank:
  assumes "2 \<le> length ds" and "0 \<le> p" and "p \<le> 100" and "100 \<le> int (length ds) * p"
  shows "\<exists>x \<in> set ds. getPercentile p ds = Inr x \<and>
    int (length ds) * p div 100 \<le> int (length (filter (\<lambda>d. d \<le> x) ds)) \<and>
    int (length (filter (\<lambda>d. d < x) ds)) < int (length ds) * p div 100"
proof -
  define k where "k = int (length ds) * p div 100"
  have "int (length ds) * p \<le> int (length ds) * 100" using assms(3) by (intro mult_left_mono) auto
  then have k: "1 \<le> k" "k \<le> int (length ds)" using assms(4) by (simp_all add: k_def)
  then have lt: "nat (k - 1) < length ds" by simp
  have "getPercentile p ds = Inr (sort ds ! nat (k - 1))"
    using getPercentile_in_range [OF assms(1,2)] k by (simp add: k_def Let_def)
  moreover have "sort ds ! nat (k - 1) \<in> set ds" using lt by (metis length_sort nth_mem set_sort)
  ultimately show ?thesis
    using rank_of_nth [OF lt] k unfolding k_def [symmetric] by (intro bexI conjI) auto
qed

theorem percentile_rank_witness:
  "\<exists>x \<in> set [30, 10, 20::int]. getPercentile 95 [30, 10, 20] = Inr x \<and> 2 \<le> int (length (filter (\<lambda>d. d \<le> x) [30, 10, 20]))"
  using percentile_rank [of "[30, 10, 20]" 95] by auto

text \<open>
  The 95th percentile of three durations is the middle one: \<open>ceil\<close> is applied after the
  integer division, where there is nothing left to round up.
\<close>

theorem percentile_not_rounded_up: "getPercentile 95 [1, 2, 300] = Inr 2"
  by code_simp

text \<open>
  Options that went through the constructor never divide by zero; the delay is \<open>Delay\<close> when
  that is set, and otherwise at least \<open>DelayMin\<close> and below \<open>DelayMax\<close> when those differ in
  that order.
\<close>

theorem delay_bounds:
  "\<exists>d. getDelay (determine_delay opts) r = Inr d \<and>
    (if delay opts \<noteq> 0 then d = delay opts
     else if delay_min opts = delay_max opts then d = delay_max opts
     else if delay_min opts < delay_max opts then delay_min opts \<le> d \<and> d < delay_max opts
     else True)"
proof (cases "delay opts = 0 \<and> delay_min opts \<noteq> delay_max opts")
  case False
  then show ?thesis by (auto simp: getDelay_def determine_delay_def require_def)
next
  case True
  then have run: "getDelay (determine_delay opts) r =
      Inr (delay_min opts + r mod (delay_max opts - delay_min opts))"
    by (auto simp: getDelay_def determine_delay_def require_def)
  show ?thesis
  proof (cases "delay_min opts < delay_max opts")
    case True
    with \<open>delay opts = 0 \<and> _\<close> run show ?thesis using mod_interval [OF True, of r] by auto
  next
    case False
    with \<open>delay opts = 0 \<and> _\<close> run show ?thesis by auto
  qed
qed

text \<open>
  With full results the key a result is stored under is empty unless a value of at least one
  character came with it, because the key is copied under the test of the value's length.
\<close>

theorem full_results_lose_key:
  assumes "results_ok rs" and "full (options rs)"
  shows "\<exists>rs'. setRescode_expect err key ev tv rs = Inr rs' \<and>
    fullstats rs' = smap_upd [] (\<lambda>_. []) [] (fullstats rs)"
proof -
  obtain rs' where run: "setRescode err key True None tv rs = Inr rs'"
    using setRescode_ok [OF assms(1)] by metis
  then have "fullstats rs' = fullstats (counted err key True None rs)"
    by (auto simp: setRescode_eq Let_def rbind_eq_Inr)
  with run assms(2) show ?thesis by (simp add: setRescode_expect_def counted_def)
qed

theorem full_results_lose_key_witness:
  "\<exists>rs'. setRescode_expect None ''k1'' True (27, 0)
      (example_results\<lparr>options := (options example_results)\<lparr>full := True\<rparr>\<rparr>) = Inr rs' \<and>
    fullstats rs' = [([], [])]"
proof -
  let ?rs = "example_results\<lparr>options := (options example_results)\<lparr>full := True\<rparr>\<rparr>"
  have ok: "results_ok ?rs" by (simp add: example_results_ok)
  have "fullstats ?rs = []" and "full (options ?rs)" by (simp_all add: example_results_def)
  with full_results_lose_key [OF ok, of None "''k1''" True "(27, 0)"] show ?thesis by simp
qed

end
