(* ===== verification/Sinks.thy ===== *)
theory Sinks
  imports World ResultStats
begin

text \<open>
  The contract between \<open>drainPendingFutures\<close> and the handlers it is called with: a handler takes
  one error code, does what the abstract step says and touches nothing but the clock. Draining
  is then the abstract steps over the replies, in the order of submission.
\<close>

definition same_requests :: "io \<Rightarrow> io \<Rightarrow> bool" where
  "same_requests io io' \<longleftrightarrow> (\<exists>t. io' = io\<lparr>ticks := t\<rparr>)"

lemma same_requests_refl [simp, intro]: "same_requests io io"
  unfolding same_requests_def by (intro exI [of _ "ticks io"]) simp

lemma same_requests_ticks [simp, intro]: "same_requests io (io\<lparr>ticks := t\<rparr>)"
  unfolding same_requests_def by blast

lemma same_requests_trans: "same_requests a b \<Longrightarrow> same_requests b c \<Longrightarrow> same_requests a c"
  by (auto simp: same_requests_def)

lemma same_requests_fields:
  assumes "same_requests io io'"
  shows "sent io' = sent io" "pending_futures io' = pending_futures io" "do_cancel io' = do_cancel io"
    "polls io' = polls io" "rolls io' = rolls io" "slept io' = slept io"
  using assms by (auto simp: same_requests_def)

locale sink =
  fixes handler :: "error_code \<Rightarrow> io \<times> 's \<Rightarrow> (io \<times> 's) run" and valid :: "'s \<Rightarrow> bool"
    and view :: "'s \<Rightarrow> 'v" and step :: "error_code \<Rightarrow> 'v \<Rightarrow> 'v"
  assumes handle_law: "valid s \<Longrightarrow> \<exists>io' s'. handler err (io, s) = Inr (io', s') \<and> valid s' \<and>
      view s' = step err (view s) \<and> same_requests io io'"
begin

lemma drain_futures_ok:
  "valid s \<Longrightarrow> \<exists>io' s'. drain_futures w handler fs (io, s) = Inr (io', s') \<and> valid s' \<and>
    view s' = fold step (map (\<lambda>f. resp_ec (answers w f)) fs) (view s) \<and> same_requests io io'"
proof (induction fs arbitrary: io s)
  case Nil
  then show ?case by auto
next
  case (Cons f fs)
  obtain io1 s1 where 1: "handler (resp_ec (answers w f)) (io, s) = Inr (io1, s1)" "valid s1"
    "view s1 = step (resp_ec (answers w f)) (view s)" "same_requests io io1"
    using handle_law [OF Cons.prems] by blast
  obtain io' s' where "drain_futures w handler fs (io1, s1) = Inr (io', s')" "valid s'"
    "view s' = fold step (map (\<lambda>f. resp_ec (answers w f)) fs) (view s1)" "same_requests io1 io'"
    using Cons.IH [OF 1(2)] by blast
  with 1 show ?case using same_requests_trans by auto
qed

lemma drain_ok:
  assumes "valid s"
  obtains io' s' where "drainPendingFutures w handler (io, s) = Inr (io', s')" and "valid s'"
    and "view s' = fold step (map (\<lambda>f. resp_ec (answers w f)) (pending_futures io)) (view s)"
    and "pending_futures io' = []" and "sent io' = sent io" and "do_cancel io' = do_cancel io"
    and "polls io' = polls io"
proof -
  obtain io1 s' where 1: "drain_futures w handler (pending_futures io) (io, s) = Inr (io1, s')"
    "valid s'" "view s' = fold step (map (\<lambda>f. resp_ec (answers w f)) (pending_futures io)) (view s)"
    "same_requests io io1"
    using drain_futures_ok [OF assms] by blast
  then show thesis
    by (intro that [of "io1\<lparr>pending_futures := []\<rparr>" s'])
      (simp_all add: drainPendingFutures_def same_requests_fields [OF 1(4)])
qed

end

text \<open>The handlers of the program keep the contract.\<close>

interpretation rescode: sink "rescode_handler w" results_ok results_view count_step for w
proof
  fix s :: ResultSet and err and io :: io
  assume ok: "results_ok s"
  obtain rs' where rs': "setRescode_err err (clock w (ticks io)) s = Inr rs'" "results_ok rs'"
    "stats rs' = count_msg (message_of err) (stats s)" "remaining rs' = remaining s - 1"
    unfolding setRescode_err_def using setRescode_ok [OF ok] by metis
  have "smap_ok (stats s)" using ok by (simp add: results_ok_def)
  then have "results_view rs' = count_step err (results_view s)"
    by (simp add: results_view_def count_step_def rs' msg_count_count_msg)
  moreover have "rescode_handler w err (io, s) = Inr (io\<lparr>ticks := ticks io + 1\<rparr>, rs')"
    by (simp add: rescode_handler_def gettimeofday_def rs'(1))
  moreover have "same_requests io (io\<lparr>ticks := ticks io + 1\<rparr>)" by blast
  ultimately show "\<exists>io' s'. rescode_handler w err (io, s) = Inr (io', s') \<and> results_ok s' \<and>
      results_view s' = count_step err (results_view s) \<and> same_requests io io'"
    using rs'(2) by blast
qed

interpretation all_ok: sink ok_handler "\<lambda>_. True" id "\<lambda>err b. b \<and> err = None"
  by unfold_locales (simp add: ok_handler_def)

interpretation ignored: sink ignore_handler "\<lambda>_. True" id "\<lambda>_ x. x"
  by unfold_locales (simp add: ignore_handler_def)

lemma fold_all_ok: "fold (\<lambda>err b. b \<and> err = None) errs b \<longleftrightarrow> b \<and> (\<forall>e \<in> set errs. e = None)"
  by (induction errs arbitrary: b) auto

end
