(* ===== verification/HandleItems.thy ===== *)
theory HandleItems
  imports Handle RoutingItems Sinks
begin

text \<open>
  Every item a bulk operation visits is submitted once, in order, and its reply is counted
  once; nothing is pending when the operation returns, whatever the batch size and whenever it
  is cancelled. The locale states what one step of a loop has to do for that; the operations
  are its interpretations.
\<close>

section \<open>Accounting\<close>

definition reply_message :: "world \<Rightarrow> nat \<Rightarrow> string" where
  "reply_message w f = message_of (resp_ec (answers w f))"

text \<open>
  With the requests from position \<open>L\<close> on submitted by this operation: those up to some point
  are counted, the others are pending, and \<open>remaining\<close> is their number.
\<close>

definition accounted :: "world \<Rightarrow> nat \<Rightarrow> op_state \<Rightarrow> bool" where
  "accounted w L st \<longleftrightarrow> results_ok (snd st) \<and>
     (\<exists>d. L \<le> d \<and> d \<le> length (sent (fst st)) \<and>
       pending_futures (fst st) = [d..<length (sent (fst st))] \<and>
       results_view (snd st) = (int (length (sent (fst st)) - d),
         \<lambda>m. int (count_list (map (reply_message w) [L..<d]) m)))"

text \<open>Options whose delay can be drawn without a division by zero.\<close>

definition delay_ok :: "ResultOptions \<Rightarrow> bool" where
  "delay_ok opts \<longleftrightarrow> delay opts \<noteq> 0 \<or> delay_min opts \<noteq> delay_max opts \<or> delay_max opts = 0"

lemma delay_ok_determine [simp]: "delay_ok (determine_delay opts)"
  by (auto simp: delay_ok_def determine_delay_def)

lemma delay_ok_json: "ResultOptions_of_json J u j = Inr opts \<Longrightarrow> delay_ok opts"
  by (auto simp: ResultOptions_of_json_def rbind_eq_Inr)

lemma delay_ok_timeres [simp]: "delay_ok (opts\<lparr>timeres := t\<rparr>) = delay_ok opts"
  by (simp add: delay_ok_def)

lemma getDelay_ok: "delay_ok opts \<Longrightarrow> \<exists>d. getDelay opts r = Inr d"
  by (auto simp: getDelay_def delay_ok_def require_def)

lemma accounted_start:
  assumes "pending_futures io = []" and "L = length (sent io)"
  shows "accounted w L (begin_op ropts (io, rs))"
proof -
  let ?st = "begin_op ropts (io, rs)"
  have "results_ok (snd ?st)" by (simp add: begin_op_def)
  moreover have "results_view (snd ?st) = (0, \<lambda>_. 0)"
    by (simp add: begin_op_def clear_results_def results_view_def)
  ultimately show ?thesis
    using assms by (auto simp: accounted_def begin_op_def externalEnter_def intro!: exI [of _ L])
qed

lemma accounted_done:
  assumes "accounted w L (io, rs)" and "pending_futures io = []"
  shows "remaining rs = 0 \<and>
    (\<forall>m. msg_count (stats rs) m = int (count_list (map (reply_message w) [L..<length (sent io)]) m))"
proof -
  obtain d where d: "d \<le> length (sent io)" and pend: "pending_futures io = [d..<length (sent io)]"
    and view: "results_view rs = (int (length (sent io) - d),
      \<lambda>m. int (count_list (map (reply_message w) [L..<d]) m))"
    using assms(1) by (auto simp: accounted_def)
  from pend assms(2) have "[d..<length (sent io)] = []" by simp
  then have "length (sent io) \<le> d" unfolding upt_eq_Nil_conv by auto
  with d have "d = length (sent io)" by simp
  with view show ?thesis by (simp add: results_view_def fun_eq_iff)
qed

lemma accounted_poll:
  "accounted w L st \<Longrightarrow> accounted w L (snd (poll_cancel w st))"
  by (simp add: accounted_def poll_cancel_def isCancelled_def Let_def split_beta)

lemma poll_cancel_fields [simp]:
  "sent (fst (snd (poll_cancel w st))) = sent (fst st)"
  "snd (snd (poll_cancel w st)) = snd st"
  "polls (fst (snd (poll_cancel w st))) = Suc (polls (fst st))"
  "fst (poll_cancel w st) \<longleftrightarrow> do_cancel (fst st) \<or> cancels w (polls (fst st))"
  "do_cancel (fst (snd (poll_cancel w st))) \<longleftrightarrow> do_cancel (fst st) \<or> cancels w (polls (fst st))"
  by (simp_all add: poll_cancel_def isCancelled_def Let_def split_beta)

section \<open>Draining and submitting\<close>

lemma drain_options:
  "drain_futures w (rescode_handler w) fs (io, rs) = Inr (io', rs') \<Longrightarrow> results_ok rs \<Longrightarrow>
    \<exists>t. options rs' = (options rs)\<lparr>timeres := t\<rparr>"
proof (induction fs arbitrary: io rs)
  case Nil
  then show ?case by (auto intro: exI [of _ "timeres (options rs)"])
next
  case (Cons f fs)
  obtain io1 rs1 where 1: "rescode_handler w (resp_ec (answers w f)) (io, rs) = Inr (io1, rs1)"
    and rest: "drain_futures w (rescode_handler w) fs (io1, rs1) = Inr (io', rs')"
    using Cons.prems(1) by (auto simp: rbind_eq_Inr)
  obtain rs2 where 2: "setRescode_err (resp_ec (answers w f)) (clock w (ticks io)) rs = Inr rs2"
    "results_ok rs2" "\<exists>t. options rs2 = (options rs)\<lparr>timeres := t\<rparr>"
    unfolding setRescode_err_def using setRescode_ok [OF Cons.prems(2)] by metis
  with 1 have "rs1 = rs2" by (simp add: rescode_handler_def gettimeofday_def)
  with 2 have "results_ok rs1" and "\<exists>t. options rs1 = (options rs)\<lparr>timeres := t\<rparr>" by simp_all
  with Cons.IH [OF rest] show ?case by auto
qed

lemma accounted_drain:
  assumes "accounted w L (io, rs)"
  obtains io' rs' where "drainPendingFutures w (rescode_handler w) (io, rs) = Inr (io', rs')"
    and "accounted w L (io', rs')" and "pending_futures io' = []" and "sent io' = sent io"
    and "do_cancel io' = do_cancel io" and "polls io' = polls io"
    and "\<exists>t. options rs' = (options rs)\<lparr>timeres := t\<rparr>"
proof -
  obtain d where d: "results_ok rs" "L \<le> d" "d \<le> length (sent io)"
    "pending_futures io = [d..<length (sent io)]"
    "results_view rs = (int (length (sent io) - d), \<lambda>m. int (count_list (map (reply_message w) [L..<d]) m))"
    using assms by (auto simp: accounted_def)
  obtain io' rs' where 1: "drainPendingFutures w (rescode_handler w) (io, rs) = Inr (io', rs')"
    "results_ok rs'" "pending_futures io' = []" "sent io' = sent io"
    "do_cancel io' = do_cancel io" "polls io' = polls io"
    and v: "results_view rs' = fold count_step
      (map (\<lambda>f. resp_ec (answers w f)) (pending_futures io)) (results_view rs)"
    using rescode.drain_ok [OF d(1), of w w io] by metis
  have split: "[L..<length (sent io)] = [L..<d] @ [d..<length (sent io)]"
    using upt_add_eq_append [OF d(2), of "length (sent io) - d"] d(3) by simp
  have msgs: "map message_of (map (\<lambda>f. resp_ec (answers w f)) fs) = map (reply_message w) fs" for fs
    by (simp add: reply_message_def)
  have "results_view rs' = (0, \<lambda>m. int (count_list (map (reply_message w) [L..<length (sent io)]) m))"
    unfolding v d(4,5) fold_count_step msgs split by (simp add: fun_eq_iff)
  then have "accounted w L (io', rs')"
    using 1 d(2,3) by (auto simp: accounted_def intro!: exI [of _ "length (sent io)"])
  moreover have "\<exists>t. options rs' = (options rs)\<lparr>timeres := t\<rparr>"
    using 1(1) d(1) drain_options [of w "pending_futures io" io rs _ rs']
    by (auto simp: drainPendingFutures_def rbind_eq_Inr)
  ultimately show thesis using that 1 by blast
qed

text \<open>One submission: the request is pending, counted as remaining, and possibly drained at once.\<close>

definition pushed :: "request \<Rightarrow> op_state \<Rightarrow> op_state" where
  "pushed r st = (submit r (fst st), (snd st)\<lparr>remaining := remaining (snd st) + 1\<rparr>)"

lemma accounted_pushed:
  assumes "accounted w L st"
  shows "accounted w L (pushed r st)"
proof -
  obtain d where d: "results_ok (snd st)" "L \<le> d" "d \<le> length (sent (fst st))"
    "pending_futures (fst st) = [d..<length (sent (fst st))]"
    "results_view (snd st) = (int (length (sent (fst st)) - d),
       \<lambda>m. int (count_list (map (reply_message w) [L..<d]) m))"
    using assms by (auto simp: accounted_def)
  then show ?thesis
    by (auto simp: accounted_def pushed_def submit_def execute_async_def results_view_def
        intro!: exI [of _ d])
qed

lemma accounted_markBegin: "accounted w L st \<Longrightarrow> accounted w L (io_markBegin w' st)"
  by (simp add: accounted_def io_markBegin_def gettimeofday_def markBegin_def results_view_def)

lemma submit_one_ok:
  assumes "accounted w L st" and "delay_ok (options (snd st))"
  obtains st' where "submit_one w (Some r) st = Inr (True, st')" and "accounted w L st'"
    and "delay_ok (options (snd st'))" and "sent (fst st') = sent (fst st) @ [r]"
    and "do_cancel (fst st') = do_cancel (fst st)" and "polls (fst st') = polls (fst st)"
proof -
  obtain io rs where mb: "io_markBegin w st = (io, rs)" by (cases "io_markBegin w st")
  have io: "sent io = sent (fst st)" "do_cancel io = do_cancel (fst st)" "polls io = polls (fst st)"
    "options rs = options (snd st)"
    using mb by (auto simp: io_markBegin_def gettimeofday_def markBegin_def)
  have acc: "accounted w L (pushed r (io, rs))"
    using accounted_pushed accounted_markBegin [OF assms(1)] mb by metis
  have p: "fst (pushed r (io, rs)) = submit r io"
    "snd (pushed r (io, rs)) = rs\<lparr>remaining := remaining rs + 1\<rparr>"
    "sent (submit r io) = sent io @ [r]" "do_cancel (submit r io) = do_cancel io"
    "polls (submit r io) = polls io"
    by (simp_all add: pushed_def submit_def execute_async_def)
  have dl: "delay_ok (options rs)" using assms(2) io by simp
  show thesis
  proof (cases "iterwait (options rs) = 0 \<or>
      0 < remaining rs + 1 \<and> word_of_int (remaining rs + 1) < iterwait (options rs)")
    case True
    then have "submit_one w (Some r) st = Inr (True, pushed r (io, rs))"
      using mb by (auto simp: submit_one_def postsubmit_def pushed_def Let_def)
    then show thesis
      using that acc p io dl by simp
  next
    case False
    have pp: "pushed r (io, rs) = (submit r io, rs\<lparr>remaining := remaining rs + 1\<rparr>)"
      by (simp add: pushed_def)
    from accounted_drain [OF acc [unfolded pp]] obtain io1 rs1
      where "drainPendingFutures w (rescode_handler w)
          (submit r io, rs\<lparr>remaining := remaining rs + 1\<rparr>) = Inr (io1, rs1)"
        and "accounted w L (io1, rs1)" "sent io1 = sent (submit r io)"
        and "do_cancel io1 = do_cancel (submit r io)" "polls io1 = polls (submit r io)"
        and "\<exists>t. options rs1 = (options (rs\<lparr>remaining := remaining rs + 1\<rparr>))\<lparr>timeres := t\<rparr>"
      by metis
    then have dr: "drainPendingFutures w (rescode_handler w) (pushed r (io, rs)) = Inr (io1, rs1)"
      "accounted w L (io1, rs1)" "sent io1 = sent io @ [r]" "do_cancel io1 = do_cancel io"
      "polls io1 = polls io" "\<exists>t. options rs1 = (options rs)\<lparr>timeres := t\<rparr>"
      using p pp by simp_all
    have dl1: "delay_ok (options rs1)" using dl dr(6) by auto
    obtain ms where ms: "getDelay (options rs1) (rands w (rolls io1)) = Inr ms"
      using getDelay_ok [OF dl1] by blast
    obtain io2 where ro: "roll_delay w (options rs1) io1 = Inr (ms, io2)"
      and io2: "sent io2 = sent io1" "do_cancel io2 = do_cancel io1" "polls io2 = polls io1"
        "pending_futures io2 = pending_futures io1"
      using ms by (auto simp: roll_delay_def)
    define io3 where "io3 = (if ms \<noteq> 0 then sdkd_millisleep ms io2 else io2)"
    have io3: "sent io3 = sent io1" "do_cancel io3 = do_cancel io1" "polls io3 = polls io1"
      "pending_futures io3 = pending_futures io1"
      using io2 by (simp_all add: io3_def sdkd_millisleep_def)
    have "submit_one w (Some r) st = Inr (True, (io3, rs1))"
      using False mb dr(1) ro by (auto simp: submit_one_def postsubmit_def pushed_def Let_def io3_def)
    moreover have "accounted w L (io3, rs1)"
      using dr(2) io3 by (simp add: accounted_def)
    ultimately show thesis using that dr io3 io dl1 by simp
  qed
qed

section \<open>Loops of submissions\<close>

text \<open>How many of \<open>n\<close> items are visited before another thread cancels, from test number \<open>p\<close> on.\<close>

definition visited :: "world \<Rightarrow> nat \<Rightarrow> nat \<Rightarrow> nat" where
  "visited w p n = length (takeWhile (\<lambda>i. \<not> cancels w (p + i)) [0..<n])"

lemma visited_0 [simp]: "visited w p 0 = 0"
  by (simp add: visited_def)

lemma visited_Suc: "visited w p (Suc n) = (if cancels w p then 0 else Suc (visited w (Suc p) n))"
proof -
  have "[0..<Suc n] = 0 # map Suc [0..<n]" by (simp only: upt_conv_Cons map_Suc_upt zero_less_Suc)
  then show ?thesis by (simp add: visited_def takeWhile_map o_def)
qed

lemma visited_le: "visited w p n \<le> n"
  using length_takeWhile_le [of "\<lambda>i. \<not> cancels w (p + i)" "[0..<n]"] by (simp add: visited_def)

lemma visited_all: "(\<And>i. i < n \<Longrightarrow> \<not> cancels w (p + i)) \<Longrightarrow> visited w p n = n"
proof -
  assume "\<And>i. i < n \<Longrightarrow> \<not> cancels w (p + i)"
  then have "takeWhile (\<lambda>i. \<not> cancels w (p + i)) [0..<n] = [0..<n]"
    by (simp only: takeWhile_eq_all_conv) simp
  then show ?thesis by (simp only: visited_def) simp
qed

text \<open>What an operation that submitted the requests \<open>r 0\<close>, ..., \<open>r (n - 1)\<close> leaves behind.\<close>

definition bulk_result :: "world \<Rightarrow> (nat \<Rightarrow> request) \<Rightarrow> io \<Rightarrow> nat \<Rightarrow> op_state \<Rightarrow> bool" where
  "bulk_result w r io n st \<longleftrightarrow>
     sent (fst st) = sent io @ map r [0..<n] \<and>
     pending_futures (fst st) = [] \<and> results_ok (snd st) \<and> remaining (snd st) = 0 \<and>
     (\<forall>m. msg_count (stats (snd st)) m =
       int (count_list (map (reply_message w) [length (sent io)..<length (sent io) + n]) m))"

locale item_operation =
  fixes w :: world and act :: "item \<Rightarrow> op_state \<Rightarrow> (bool \<times> op_state) run"
    and req :: "item \<Rightarrow> request" and good :: "item \<Rightarrow> bool"
  assumes act_law: "good x \<Longrightarrow> accounted w L st \<Longrightarrow> delay_ok (options (snd st)) \<Longrightarrow>
    \<exists>st'. act x st = Inr (True, st') \<and> accounted w L st' \<and> delay_ok (options (snd st')) \<and>
      sent (fst st') = sent (fst st) @ [req x] \<and> do_cancel (fst st') = do_cancel (fst st) \<and>
      polls (fst st') = polls (fst st)"
begin

lemma each_item_ok:
  "\<forall>x \<in> set xs. good x \<Longrightarrow> accounted w L st \<Longrightarrow> delay_ok (options (snd st)) \<Longrightarrow>
    \<not> do_cancel (fst st) \<Longrightarrow>
    \<exists>st'. each_item (poll_cancel w) act xs st =
        Inr (if visited w (polls (fst st)) (length xs) = length xs then Exhausted else Stopped, st') \<and>
      accounted w L st' \<and>
      sent (fst st') = sent (fst st) @ map req (take (visited w (polls (fst st)) (length xs)) xs)"
proof (induction xs arbitrary: st)
  case Nil
  then show ?case by simp
next
  case (Cons x xs)
  define st1 where "st1 = snd (poll_cancel w st)"
  have poll: "poll_cancel w st = (cancels w (polls (fst st)), st1)"
    using Cons.prems(4) by (simp add: prod_eq_iff st1_def)
  have acc1: "accounted w L st1" and dl1: "delay_ok (options (snd st1))"
    using Cons.prems(2,3) accounted_poll by (simp_all add: st1_def)
  have st1: "sent (fst st1) = sent (fst st)" "polls (fst st1) = Suc (polls (fst st))"
    "do_cancel (fst st1) \<longleftrightarrow> cancels w (polls (fst st))"
    using Cons.prems(4) by (simp_all add: st1_def)
  show ?case
  proof (cases "cancels w (polls (fst st))")
    case True
    with poll acc1 st1 show ?thesis by (simp add: visited_Suc)
  next
    case False
    obtain st2 where st2: "act x st1 = Inr (True, st2)" "accounted w L st2"
      "delay_ok (options (snd st2))" "sent (fst st2) = sent (fst st1) @ [req x]"
      "do_cancel (fst st2) = do_cancel (fst st1)" "polls (fst st2) = polls (fst st1)"
      using act_law [OF _ acc1 dl1, of x] Cons.prems(1) by auto
    have "\<not> do_cancel (fst st2)" "polls (fst st2) = Suc (polls (fst st))"
      using st2 False st1 by simp_all
    with Cons.IH [of st2] Cons.prems(1) st2 obtain st' where
      "each_item (poll_cancel w) act xs st2 = Inr (if visited w (Suc (polls (fst st))) (length xs)
         = length xs then Exhausted else Stopped, st')" "accounted w L st'"
      "sent (fst st') = sent (fst st2) @
         map req (take (visited w (Suc (polls (fst st))) (length xs)) xs)"
      by auto
    with False poll st2 st1 show ?thesis by (simp add: visited_Suc)
  qed
qed

lemma collect_ok:
  assumes acc: "accounted w (length (sent io)) (io1, rs1)"
    and sent: "sent io1 = sent io @ map req (map x [0..<n])"
  shows "\<exists>st'. collect_result w (io1, rs1) = Inr st' \<and> bulk_result w (\<lambda>i. req (x i)) io n st'"
proof -
  have "\<exists>io' rs'. collect_result w (io1, rs1) = Inr (io', rs') \<and>
      accounted w (length (sent io)) (io', rs') \<and> pending_futures io' = [] \<and> sent io' = sent io1"
  proof (cases "remaining rs1 = 0")
    case True
    then have "pending_futures io1 = []"
      using acc by (auto simp: accounted_def results_view_def)
    with True acc show ?thesis by (auto simp: collect_result_def)
  next
    case False
    then show ?thesis using accounted_drain [OF acc] by (simp add: collect_result_def) metis
  qed
  then obtain io' rs' where fin: "collect_result w (io1, rs1) = Inr (io', rs')"
    "accounted w (length (sent io)) (io', rs')" "pending_futures io' = []" "sent io' = sent io1" by blast
  moreover have "results_ok rs'" using fin(2) by (simp add: accounted_def)
  ultimately show ?thesis using accounted_done [OF fin(2,3)] sent by (auto simp: bulk_result_def o_def)
qed

lemma begin_ok:
  assumes "delay_ok ropts" and "pending_futures io = []" and "\<And>i. i < n \<Longrightarrow> good (x i)"
  shows "\<exists>io1 rs1. each_item (poll_cancel w) act (map x [0..<n]) (begin_op ropts (io, rs)) =
      Inr (if visited w (polls io) n = n then Exhausted else Stopped, (io1, rs1)) \<and>
    accounted w (length (sent io)) (io1, rs1) \<and>
    sent io1 = sent io @ map req (map x [0..<visited w (polls io) n])"
proof -
  let ?st = "begin_op ropts (io, rs)"
  have "accounted w (length (sent io)) ?st" using assms(2) by (intro accounted_start) simp_all
  moreover have "delay_ok (options (snd ?st))" "\<not> do_cancel (fst ?st)" "polls (fst ?st) = polls io"
    "sent (fst ?st) = sent io"
    using assms(1) by (simp_all add: begin_op_def externalEnter_def clear_results_def)
  moreover have "take (visited w (polls io) n) (map x [0..<n]) = map x [0..<visited w (polls io) n]"
    using visited_le by (simp add: take_map)
  ultimately show ?thesis
    using each_item_ok [of "map x [0..<n]" "length (sent io)" ?st] assms(3) by auto
qed

text \<open>A whole operation on a finite dataset, and one on a dataset without end.\<close>

lemma run_op_ok:
  assumes total: "ds_total J ds = enat N" and loads: "\<And>i. i \<le> N \<Longrightarrow> ds_load J u ds i = Inr (x i)"
    and fuel: "N < fuel" and good: "\<And>i. i < N \<Longrightarrow> good (x i)" and "delay_ok ropts"
    and "pending_futures io = []"
  shows "\<exists>st'. run_op J w u fuel ds act ropts (io, rs) = Inr (True, st') \<and>
    bulk_result w (\<lambda>i. req (x i)) io (visited w (polls io) N) st'"
proof -
  have "iterate J w u fuel ds act (begin_op ropts (io, rs)) =
      each_item (poll_cancel w) act (map x [0..<N]) (begin_op ropts (io, rs))"
    unfolding iterate_def by (rule ds.for_each_finite [OF total loads fuel])
  then show ?thesis
    using begin_ok [OF assms(5,6), where n = N and x = x and rs = rs] good collect_ok
    by (auto simp: run_op_def) (metis rbind_Inr)
qed

lemma run_op_endless:
  assumes "ds_total J ds = \<infinity>" and loads: "\<And>i. ds_load J u ds i = Inr (x i)"
    and good: "\<And>i. good (x i)" and "delay_ok ropts" and "pending_futures io = []"
  shows "if visited w (polls io) fuel = fuel then run_op J w u fuel ds act ropts (io, rs) = Inl Running
    else \<exists>st'. run_op J w u fuel ds act ropts (io, rs) = Inr (True, st') \<and>
      bulk_result w (\<lambda>i. req (x i)) io (visited w (polls io) fuel) st'"
proof -
  have "iterate J w u fuel ds act (begin_op ropts (io, rs)) =
      rbind (each_item (poll_cancel w) act (map x [0..<fuel]) (begin_op ropts (io, rs)))
        (\<lambda>(e, s'). if e = Exhausted then Inl Running else Inr (e, s'))"
    unfolding iterate_def by (rule ds.for_each_prefix [OF loads]) (simp add: assms(1))
  then show ?thesis
    using begin_ok [OF assms(4,5), where n = fuel and x = x and rs = rs] good collect_ok
    by (auto simp: run_op_def) (metis rbind_Inr)
qed

end

section \<open>The operations\<close>

definition route :: "HandleOptions \<Rightarrow> string \<Rightarrow> string \<times> string" where
  "route opts key = (case getCollection opts key of Inl h \<Rightarrow> ([], []) | Inr p \<Rightarrow> p)"

definition routes :: "HandleOptions \<Rightarrow> item \<Rightarrow> bool" where
  "routes opts x \<longleftrightarrow> (\<exists>p. getCollection opts (fst x) = Inr p)"

definition item_id :: "HandleOptions \<Rightarrow> item \<Rightarrow> document_id" where
  "item_id opts x = document_id_of opts (fst x) (route opts (fst x))"

lemma submit_one_law:
  assumes "accounted w L st" and "delay_ok (options (snd st))"
  shows "\<exists>st'. submit_one w (Some r) st = Inr (True, st') \<and> accounted w L st' \<and>
    delay_ok (options (snd st')) \<and> sent (fst st') = sent (fst st) @ [r] \<and>
    do_cancel (fst st') = do_cancel (fst st) \<and> polls (fst st') = polls (fst st)"
  using submit_one_ok [OF assms] by metis

interpretation get: item_operation w "get_item w opts" "\<lambda>x. GetReq (item_id opts x)" "routes opts"
  for w opts
proof
  fix x L st
  assume "routes opts x" and "accounted w L st" and "delay_ok (options (snd st))"
  then show "\<exists>st'. get_item w opts x st = Inr (True, st') \<and> accounted w L st' \<and>
    delay_ok (options (snd st')) \<and> sent (fst st') = sent (fst st) @ [GetReq (item_id opts x)] \<and>
    do_cancel (fst st') = do_cancel (fst st) \<and> polls (fst st') = polls (fst st)"
    using submit_one_law [of w L st]
    by (cases x) (auto simp: get_item_def routes_def item_id_def route_def)
qed

definition mutation :: "Code \<Rightarrow> document_id \<Rightarrow> string \<Rightarrow> 32 word \<Rightarrow> request" where
  "mutation cmd did v ex = the (mutate_request cmd did v ex)"

lemma mutate_request_known:
  "cmd \<in> set mutation_commands \<Longrightarrow> mutate_request cmd did v ex = Some (mutation cmd did v ex)"
  by (auto simp: mutation_def mutate_request_def mutation_commands_def)

text \<open>The request of each command, written out.\<close>

lemma mutation_cases:
  "cmd \<in> set mutation_commands \<Longrightarrow> mutation cmd did v ex =
    (case cmd of
       MC_DS_MUTATE_SET \<Rightarrow> UpsertReq did v (Some (ex, 2))
     | MC_DS_MUTATE_ADD \<Rightarrow> InsertReq did v (Some (ex, 2))
     | MC_DS_MUTATE_REPLACE \<Rightarrow> ReplaceReq did v (Some (ex, 2))
     | MC_DS_MUTATE_APPEND \<Rightarrow> AppendReq did v
     | _ \<Rightarrow> PrependReq did v)"
  by (auto simp: mutation_def mutate_request_def mutation_commands_def FLAGS_def)

interpretation mutate: item_operation w
  "mutate_item w opts (if cmd \<in> set mutation_commands then cmd else MC_DS_MUTATE_SET) ex"
  "\<lambda>x. mutation (if cmd \<in> set mutation_commands then cmd else MC_DS_MUTATE_SET)
      (item_id opts x) (fst (snd x)) ex" "routes opts"
  for w opts cmd ex
proof
  fix x L st
  let ?c = "if cmd \<in> set mutation_commands then cmd else MC_DS_MUTATE_SET"
  assume "routes opts x" and "accounted w L st" and "delay_ok (options (snd st))"
  moreover have "?c \<in> set mutation_commands" by (simp add: mutation_commands_def)
  ultimately show "\<exists>st'. mutate_item w opts ?c ex x st = Inr (True, st') \<and> accounted w L st' \<and>
    delay_ok (options (snd st')) \<and>
    sent (fst st') = sent (fst st) @ [mutation ?c (item_id opts x) (fst (snd x)) ex] \<and>
    do_cancel (fst st') = do_cancel (fst st) \<and> polls (fst st') = polls (fst st)"
    using submit_one_law [of w L st]
    by (cases x) (auto simp only: mutate_item_def routes_def item_id_def route_def
        mutate_request_known rbind_Inr Let_def case_prod_conv sum.case fst_conv snd_conv)
qed

interpretation keyop: item_operation w "keyop_item w opts cmd"
  "\<lambda>x. if cmd = MC_DS_DELETE then RemoveReq (item_id opts x) else TouchReq (item_id opts x)" "routes opts"
  for w opts cmd
proof
  fix x L st
  assume "routes opts x" and "accounted w L st" and "delay_ok (options (snd st))"
  then show "\<exists>st'. keyop_item w opts cmd x st = Inr (True, st') \<and> accounted w L st' \<and>
    delay_ok (options (snd st')) \<and> sent (fst st') = sent (fst st) @
      [if cmd = MC_DS_DELETE then RemoveReq (item_id opts x) else TouchReq (item_id opts x)] \<and>
    do_cancel (fst st') = do_cancel (fst st) \<and> polls (fst st') = polls (fst st)"
    using submit_one_law [of w L st]
    by (cases x) (auto simp only: keyop_item_def routes_def item_id_def route_def
        rbind_Inr Let_def case_prod_conv sum.case fst_conv snd_conv)
qed

definition subdoc_known :: "string \<Rightarrow> bool" where
  "subdoc_known c \<longleftrightarrow> c \<in> {''get'', ''get_multi'', ''replace'', ''dict_add'', ''dict_upsert'',
     ''array_add'', ''array_add_last'', ''counter''}"

lemma subdoc_request_known: "subdoc_known c \<longleftrightarrow> subdoc_request did c p v \<noteq> None"
  by (simp add: subdoc_known_def subdoc_request_def)

definition subdoc :: "HandleOptions \<Rightarrow> item \<Rightarrow> request" where
  "subdoc opts x = the (subdoc_request (item_id opts x) (snd (snd (snd x))) (fst (snd (snd x))) (fst (snd x)))"

text \<open>What each known command asks of a document at a path, with a value.\<close>

definition subdoc_table :: "(string \<times> (document_id \<Rightarrow> string \<Rightarrow> string \<Rightarrow> request)) list" where
  "subdoc_table =
     [(''get'', \<lambda>d p v. LookupInReq d [(SdGet, p)]),
      (''get_multi'', \<lambda>d p v. LookupInReq d [(SdGet, p), (SdExists, p)]),
      (''replace'', \<lambda>d p v. MutateInReq d [(SdReplace, p, v)]),
      (''dict_add'', \<lambda>d p v. MutateInReq d [(SdDictAdd, p, v)]),
      (''dict_upsert'', \<lambda>d p v. MutateInReq d [(SdDictUpsert, p, v)]),
      (''array_add'', \<lambda>d p v. MutateInReq d [(SdArrayPushFirst, p, v)]),
      (''array_add_last'', \<lambda>d p v. MutateInReq d [(SdArrayPushLast, p, v)]),
      (''counter'', \<lambda>d p v. MutateInReq d [(SdCounter, p, v)])]"

lemma subdoc_table_request:
  "map_of subdoc_table c = Some r \<Longrightarrow> subdoc_request d c p v = Some (r d p v) \<and> subdoc_known c"
  by (auto simp: subdoc_table_def subdoc_request_def subdoc_known_def split: if_splits)

interpretation subdoc: item_operation w "subdoc_item w opts" "subdoc opts"
  "\<lambda>x. routes opts x \<and> subdoc_known (snd (snd (snd x)))" for w opts
proof
  fix x L st
  assume good: "routes opts x \<and> subdoc_known (snd (snd (snd x)))"
    and st: "accounted w L st" "delay_ok (options (snd st))"
  have "subdoc_item w opts x st = submit_one w (Some (subdoc opts x)) st"
    using good subdoc_request_known
    by (cases x) (auto simp: subdoc_item_def routes_def item_id_def route_def subdoc_def)
  with submit_one_law [OF st] show "\<exists>st'. subdoc_item w opts x st = Inr (True, st') \<and>
    accounted w L st' \<and> delay_ok (options (snd st')) \<and>
    sent (fst st') = sent (fst st) @ [subdoc opts x] \<and>
    do_cancel (fst st') = do_cancel (fst st) \<and> polls (fst st') = polls (fst st)"
    by simp
qed

end
