(* ===== verification/HandleProps.thy ===== *)
theory HandleProps
  imports HandleItems
begin

text \<open>
  The properties of the bulk operations, for the datasets of each kind.
\<close>

lemma seeded_routes:
  "routable opts \<Longrightarrow> routes opts (seeded_item spec i)"
  unfolding routes_def by (rule seeded_keys_route_lemma)

definition example_ropts :: "32 word \<Rightarrow> ResultOptions" where
  "example_ropts iw = (ResultOptions_new 0 False False 0 0)\<lparr>iterwait := iw\<rparr>"

lemma delay_ok_example [simp]: "delay_ok (example_ropts iw)"
  by (simp add: example_ropts_def ResultOptions_new_def delay_ok_def determine_delay_def)

lemma visited_all_ok [simp]: "visited all_ok_world p n = n"
  by (rule visited_all) (simp add: all_ok_world_def)

section \<open>Items that build no request\<close>

definition idle :: "io \<Rightarrow> int \<Rightarrow> op_state \<Rightarrow> bool" where
  "idle io k st \<longleftrightarrow> pending_futures (fst st) = [] \<and> sent (fst st) = sent io \<and>
     stats (snd st) = [] \<and> remaining (snd st) = k \<and> delay_ok (options (snd st))"

lemma drain_nothing:
  "pending_futures io = [] \<Longrightarrow> drainPendingFutures w h (io, x) = Inr (io, x)"
  by (simp add: drainPendingFutures_def)

lemma submit_none:
  assumes "idle io0 k st"
  shows "\<exists>st'. submit_one w None st = Inr (True, st') \<and> idle io0 (k + 1) st' \<and>
    do_cancel (fst st') = do_cancel (fst st) \<and> polls (fst st') = polls (fst st)"
proof -
  obtain io rs where mb: "io_markBegin w st = (io, rs)" by (cases "io_markBegin w st")
  have f: "pending_futures io = []" "sent io = sent io0" "do_cancel io = do_cancel (fst st)"
    "polls io = polls (fst st)" "stats rs = []" "remaining rs = k" "delay_ok (options rs)"
    using mb assms by (auto simp: io_markBegin_def gettimeofday_def markBegin_def idle_def)
  obtain ms where ms: "getDelay (options rs) (rands w (rolls io)) = Inr ms"
    using getDelay_ok [OF f(7)] by blast
  show ?thesis
    using f ms mb
    by (auto simp: submit_one_def postsubmit_def Let_def roll_delay_def idle_def sdkd_millisleep_def
        drain_nothing)
qed

lemma each_item_idle:
  assumes "\<And>x st. x \<in> set xs \<Longrightarrow> act x st = submit_one w None st"
  shows "idle io0 k st \<Longrightarrow> \<not> do_cancel (fst st) \<Longrightarrow>
    \<exists>e st'. each_item (poll_cancel w) act xs st = Inr (e, st') \<and>
      idle io0 (k + int (visited w (polls (fst st)) (length xs))) st'"
  using assms
proof (induction xs arbitrary: st k)
  case Nil
  then show ?case by simp
next
  case (Cons x xs)
  define st1 where "st1 = snd (poll_cancel w st)"
  have st1: "idle io0 k st1" "polls (fst st1) = Suc (polls (fst st))"
    "do_cancel (fst st1) \<longleftrightarrow> cancels w (polls (fst st))"
    and poll: "poll_cancel w st = (cancels w (polls (fst st)), st1)"
    using Cons.prems(1,2)
    by (simp_all add: st1_def prod_eq_iff idle_def) (simp add: poll_cancel_def isCancelled_def Let_def split_beta)
  show ?case
  proof (cases "cancels w (polls (fst st))")
    case True
    with poll st1 show ?thesis by (simp add: visited_Suc)
  next
    case False
    obtain st2 where st2: "submit_one w None st1 = Inr (True, st2)" "idle io0 (k + 1) st2"
      "do_cancel (fst st2) = do_cancel (fst st1)" "polls (fst st2) = polls (fst st1)"
      using submit_none [OF st1(1)] by blast
    have "\<not> do_cancel (fst st2)" using st2 st1 False by simp
    then obtain e st' where rest: "each_item (poll_cancel w) act xs st2 = Inr (e, st')"
      "idle io0 (k + 1 + int (visited w (polls (fst st2)) (length xs))) st'"
      using Cons.IH [OF st2(2)] Cons.prems(3) by (meson list.set_intros(2))
    have "each_item (poll_cancel w) act (x # xs) st = Inr (e, st')"
      using False poll st2(1) rest(1) Cons.prems(3) [of x st1] by simp
    moreover have "k + 1 + int (visited w (polls (fst st2)) (length xs)) =
        k + int (visited w (polls (fst st)) (length (x # xs)))"
      using False st1(2) st2(4) by (simp add: visited_Suc)
    ultimately show ?thesis using rest(2) by metis
  qed
qed

text \<open>The keys of a subdocument dataset are numbers, which are routed.\<close>

lemma number_routes:
  assumes "routable opts"
  shows "\<exists>p. getCollection opts (nat_to_string n) = Inr p"
proof (cases "useCollections opts")
  case False
  then show ?thesis by (simp add: getCollection_def)
next
  case True
  have "is_digit (last (nat_to_string n))" by (intro nat_to_string_digits [of _ n]) simp
  moreover have "last (nat_to_string n) \<in> set (drop (length (nat_to_string n) - 3) (nat_to_string n))"
    by (rule last_in_last_three) simp
  ultimately have "\<exists>c \<in> set (drop (length (nat_to_string n) - 3) (nat_to_string n)). is_digit c"
    by blast
  moreover have "collections opts * scopes opts \<noteq> 0" using assms True by (simp add: routable_def)
  ultimately show ?thesis using getCollection_number [OF True] by (simp add: Let_def)
qed

lemma sd_loads:
  assumes "ds_body ds = SD spec" and "\<not> sd_load spec" and "\<not> sd_continuous spec"
    and "unat (sd_count spec) < 2 ^ 31"
  shows "ds_total J ds = enat (unat (sd_count spec))"
    and "i \<le> unat (sd_count spec) \<Longrightarrow> ds_load J u ds i =
      Inr (nat_to_string i, sd_value spec, sd_path spec, sd_command spec)"
proof -
  show total: "ds_total J ds = enat (unat (sd_count spec))"
    using assms(1,3) by (simp add: ds_total_def ds_continuous_def getCount_def)
  assume i: "i \<le> unat (sd_count spec)"
  with assms(4) have "i < 2 ^ 31" by linarith
  then have "int_to_string (sint (word_of_nat i :: 32 word)) = nat_to_string i" by (rule numbered_key)
  with ds_load_sd [OF assms(1), of i J u] i assms(2,3) total
  show "ds_load J u ds i = Inr (nat_to_string i, sd_value spec, sd_path spec, sd_command spec)"
    by (simp add: position_def sd_item_def)
qed

definition example_sd_run :: "string \<Rightarrow> jval Dataset" where
  "example_sd_run c = Dataset_new DSTYPE_SD (SD \<lparr>sd_doc = JNull, sd_load = False,
     sd_command = c, sd_path = ''a.b'', sd_value = ''7'', sd_continuous = False, sd_count = 4\<rparr>)"

text \<open>A bulk get over a finite seeded dataset.\<close>

lemma get_seeded_ok:
  assumes "ds_body ds = Seeded spec" and "\<not> seed_continuous spec"
    and "routable opts" and "delay_ok ropts" and "pending_futures io = []"
    and "unat (seed_count spec) < fuel"
  shows "\<exists>st'. dsGet J w opts u fuel ds ropts (io, rs) = Inr (True, st') \<and>
    bulk_result w (\<lambda>i. GetReq (item_id opts (seeded_item spec (word_of_nat i)))) io
      (visited w (polls io) (unat (seed_count spec))) st'"
proof -
  have total: "ds_total J ds = enat (unat (seed_count spec))"
    using assms(1,2) by (simp add: ds_total_def ds_continuous_def getCount_def)
  have loads: "ds_load J u ds i = Inr (seeded_item spec (word_of_nat i))"
    if "i \<le> unat (seed_count spec)" for i
    using ds_load_seeded [OF assms(1), of i J u] that assms(2) total by (simp add: position_def)
  show ?thesis
    unfolding dsGet_def
    by (rule get.run_op_ok [OF total loads assms(6) seeded_routes [OF assms(3)] assms(4,5)])
qed

section \<open>Properties\<close>

text \<open>
  C3: a bulk get over a finite seeded dataset returns, for any batch size, once every item was
  visited or another thread cancelled; the requests sent are the gets of the visited items, in
  index order, each routed by its key; no reply is left pending, \<open>remaining\<close> is 0 and each
  message is counted as often as it was replied.
\<close>

theorem dsGet_seeded:
  assumes "ds_body ds = Seeded spec" and "\<not> seed_continuous spec"
    and "routable opts" and "delay_ok ropts" and "pending_futures io = []"
    and "unat (seed_count spec) < fuel"
  shows "\<exists>st'. dsGet J w opts u fuel ds ropts (io, rs) = Inr (True, st') \<and>
    bulk_result w (\<lambda>i. GetReq (item_id opts (seeded_item spec (word_of_nat i)))) io
      (visited w (polls io) (unat (seed_count spec))) st'"
  using assms by (rule get_seeded_ok)

theorem dsGet_seeded_witness:
  "\<exists>st'. dsGet Jref all_ok_world (many_options 2 3) 0 3 example_seeded (example_ropts 1)
      (io_start, example_results) = Inr (True, st') \<and>
    length (sent (fst st')) = 2 \<and> remaining (snd st') = 0"
proof -
  have body: "ds_body example_seeded = Seeded example_seed" by (simp add: example_defs)
  have "\<not> seed_continuous example_seed" "unat (seed_count example_seed) < 3"
    "routable (many_options 2 3)" "pending_futures io_start = []"
    by (simp_all add: example_seed_def routable_def many_options_def io_start_def)
  from dsGet_seeded [OF body this(1,3) delay_ok_example this(4,2), of Jref all_ok_world 0 1 example_results]
  show ?thesis by (auto simp: bulk_result_def example_seed_def io_start_def)
qed

text \<open>
  C36: a bulk get over a continuous seeded dataset ends only by cancellation: it is still running
  after any number of rounds without one, and returns at the first test of the flag that finds
  it set, with exactly the items before it submitted and counted.
\<close>

theorem dsGet_continuous:
  assumes "ds_body ds = Seeded spec" and "seed_continuous spec" and "seed_count spec \<noteq> 0"
    and "routable opts" and "delay_ok ropts" and "pending_futures io = []"
  shows "if visited w (polls io) fuel = fuel
    then dsGet J w opts u fuel ds ropts (io, rs) = Inl Running
    else \<exists>st'. dsGet J w opts u fuel ds ropts (io, rs) = Inr (True, st') \<and>
      bulk_result w (\<lambda>i. GetReq (item_id opts (seeded_item spec (word_of_nat (i mod unat (seed_count spec))))))
        io (visited w (polls io) fuel) st'"
proof -
  have total: "ds_total J ds = \<infinity>"
    using assms(1,2) by (simp add: ds_total_def ds_continuous_def)
  have loads: "ds_load J u ds i = Inr (seeded_item spec (word_of_nat (i mod unat (seed_count spec))))" for i
    using ds_load_seeded [OF assms(1), of i J u] assms(2,3) total by (simp add: position_def unat_eq_0)
  show ?thesis
    unfolding dsGet_def
    by (rule get.run_op_endless [OF total loads seeded_routes [OF assms(4)] assms(5,6)])
qed

theorem dsGet_continuous_witness:
  "dsGet Jref all_ok_world (many_options 2 3) 0 500 example_cycle (example_ropts 0)
      (io_start, example_results) = Inl Running"
proof -
  have body: "ds_body example_cycle = Seeded (example_seed\<lparr>seed_continuous := True, seed_count := 3\<rparr>)"
    by (simp add: example_defs)
  have "routable (many_options 2 3)" "pending_futures io_start = []"
    by (simp_all add: routable_def many_options_def io_start_def)
  from dsGet_continuous [OF body _ _ this(1) delay_ok_example this(2), of all_ok_world 500 Jref 0 0 example_results]
  show ?thesis by simp
qed

text \<open>
  C15: a bulk mutation over any finite dataset whose items load and route sends, for each of the
  five mutation commands, one request of its kind per visited item with the item's key and
  value - an upsert, insert or replace with the expiry and the flags 2, an append or prepend
  without - and accounts for every reply; the conditions hold for any dataset kind.
\<close>

theorem dsMutate_accounts:
  assumes "cmd_code cmd \<in> set mutation_commands"
    and "ds_total J ds = enat N" and "\<And>i. i \<le> N \<Longrightarrow> ds_load J u ds i = Inr (x i)" and "N < fuel"
    and "\<And>i. i < N \<Longrightarrow> routes opts (x i)" and "delay_ok ropts" and "pending_futures io = []"
  shows "\<exists>st'. dsMutate J w opts u fuel cmd ds ropts (io, rs) = Inr (True, st') \<and>
    bulk_result w (\<lambda>i. case cmd_code cmd of
        MC_DS_MUTATE_SET \<Rightarrow> UpsertReq (item_id opts (x i)) (fst (snd (x i))) (Some (expiry ropts, 2))
      | MC_DS_MUTATE_ADD \<Rightarrow> InsertReq (item_id opts (x i)) (fst (snd (x i))) (Some (expiry ropts, 2))
      | MC_DS_MUTATE_REPLACE \<Rightarrow> ReplaceReq (item_id opts (x i)) (fst (snd (x i))) (Some (expiry ropts, 2))
      | MC_DS_MUTATE_APPEND \<Rightarrow> AppendReq (item_id opts (x i)) (fst (snd (x i)))
      | _ \<Rightarrow> PrependReq (item_id opts (x i)) (fst (snd (x i)))) io
      (visited w (polls io) N) st'"
  unfolding mutation_cases [OF assms(1), symmetric]
  using mutate.run_op_ok [OF assms(2-7), where w = w and cmd = "cmd_code cmd" and ex = "expiry ropts" and rs = rs]
    assms(1)
  by (simp add: dsMutate_def)

theorem dsMutate_accounts_witness:
  "\<exists>st'. dsMutate Jref all_ok_world (many_options 2 3) 0 9 (Command_of_code MC_DS_MUTATE_ADD)
      example_seeded (example_ropts 2) (io_start, example_results) = Inr (True, st') \<and>
    length (sent (fst st')) = 2 \<and> msg_count (stats (snd st')) ''success'' = 2"
proof -
  let ?cmd = "Command_of_code MC_DS_MUTATE_ADD"
  have cmd: "cmd_code ?cmd \<in> set mutation_commands"
    by (simp add: Command_of_code_def mutation_commands_def)
  have total: "ds_total Jref example_seeded = enat 2"
    by (simp add: ds_total_def ds_continuous_def getCount_def example_defs)
  have body: "ds_body example_seeded = Seeded example_seed" by (simp add: example_defs)
  have loads: "i \<le> 2 \<Longrightarrow> ds_load Jref 0 example_seeded i = Inr (seeded_item example_seed (word_of_nat i))" for i
    using ds_load_seeded [OF body, of i Jref 0] total by (simp add: position_def example_seed_def)
  have "routable (many_options 2 3)" by (simp add: routable_def many_options_def)
  note r = seeded_routes [OF this]
  have p: "pending_futures io_start = []" by (simp add: io_start_def)
  have msg: "reply_message all_ok_world = (\<lambda>_. ''success'')"
    by (simp add: reply_message_def all_ok_world_def message_of_def fun_eq_iff)
  from dsMutate_accounts [OF cmd total loads _ r delay_ok_example p, of 9 all_ok_world 2 example_results]
  show ?thesis by (auto simp: bulk_result_def io_start_def msg upt_rec)
qed

text \<open>
  A mutation command that is none of the five is refused before anything is sent, with the
  invalid-input error in the result set.
\<close>

theorem dsMutate_refuses:
  assumes "cmd_code cmd \<notin> set mutation_commands"
  shows "\<exists>io' rs'. dsMutate J w opts u fuel cmd ds ropts (io, rs) = Inr (False, (io', rs')) \<and>
    sent io' = sent io \<and> stats rs' = [] \<and> code (oper_error rs') = 0x220"
  using assms
  by (simp add: dsMutate_def begin_op_def externalEnter_def clear_results_def Error_of_def)

theorem dsMutate_refuses_witness:
  "\<exists>io' rs'. dsMutate Jref all_ok_world (many_options 2 3) 0 9 (Command_of_code MC_DS_GET)
      example_seeded (example_ropts 2) (io_start, example_results) = Inr (False, (io', rs')) \<and>
    sent io' = []"
  using dsMutate_refuses [of "Command_of_code MC_DS_GET"]
  by (force simp: Command_of_code_def mutation_commands_def io_start_def)

text \<open>
  C16: a subdocument run with one of the eight known commands sends, for each visited document,
  the lookup or mutation of that command on the dataset's path and value, and accounts for
  every reply.
\<close>

theorem dsSDSinglePath_accounts:
  assumes "ds_body ds = SD spec" and "\<not> sd_load spec" and "\<not> sd_continuous spec"
    and "unat (sd_count spec) < 2 ^ 31" and "map_of subdoc_table (sd_command spec) = Some r"
    and "routable opts" and "delay_ok ropts" and "pending_futures io = []"
    and "unat (sd_count spec) < fuel"
  shows "\<exists>st'. dsSDSinglePath J w opts u fuel ds ropts (io, rs) = Inr (True, st') \<and>
    bulk_result w (\<lambda>i. r (item_id opts (nat_to_string i, sd_value spec, sd_path spec, sd_command spec))
        (sd_path spec) (sd_value spec)) io
      (visited w (polls io) (unat (sd_count spec))) st'"
proof -
  note table = subdoc_table_request [OF assms(5)]
  have good: "routes opts (nat_to_string i, sd_value spec, sd_path spec, sd_command spec) \<and>
      subdoc_known (snd (snd (snd (nat_to_string i, sd_value spec, sd_path spec, sd_command spec))))" for i
    unfolding routes_def fst_conv snd_conv using table by (intro conjI number_routes assms(6)) simp_all
  have r: "subdoc opts (nat_to_string i, sd_value spec, sd_path spec, sd_command spec) =
      r (item_id opts (nat_to_string i, sd_value spec, sd_path spec, sd_command spec)) (sd_path spec) (sd_value spec)" for i
    using table by (simp add: subdoc_def)
  show ?thesis
    unfolding dsSDSinglePath_def r [symmetric]
    by (rule subdoc.run_op_ok [OF sd_loads(1) [OF assms(1-4)] sd_loads(2) [OF assms(1-4)]
          assms(9) good assms(7,8)])
qed

theorem dsSDSinglePath_accounts_witness:
  "\<exists>st'. dsSDSinglePath Jref all_ok_world (many_options 2 3) 0 9 (example_sd_run ''counter'')
      (example_ropts 3) (io_start, example_results) = Inr (True, st') \<and> length (sent (fst st')) = 4"
proof -
  have body: "ds_body (example_sd_run ''counter'') = SD \<lparr>sd_doc = JNull, sd_load = False,
     sd_command = ''counter'', sd_path = ''a.b'', sd_value = ''7'', sd_continuous = False, sd_count = 4\<rparr>"
    by (simp add: example_sd_run_def Dataset_new_def)
  have "routable (many_options 2 3)" "pending_futures io_start = []"
    by (simp_all add: routable_def many_options_def io_start_def)
  moreover have "map_of subdoc_table ''counter'' = Some (\<lambda>d p v. MutateInReq d [(SdCounter, p, v)])"
    by (simp add: subdoc_table_def)
  ultimately show ?thesis
    using dsSDSinglePath_accounts [OF body, of "\<lambda>d p v. MutateInReq d [(SdCounter, p, v)]" "many_options 2 3"
        "example_ropts 3" io_start 9 Jref all_ok_world 0 example_results] delay_ok_example
    by (auto simp: bulk_result_def io_start_def)
qed

text \<open>
  With an unknown subdocument command nothing is sent, but every document still counts as
  submitted: the operation reports success with no result at all and \<open>remaining\<close> stays at
  the number of documents.
\<close>

theorem sd_unknown_command:
  assumes "ds_body ds = SD spec" and "\<not> sd_load spec" and "\<not> sd_continuous spec"
    and "unat (sd_count spec) < 2 ^ 31" and "\<not> subdoc_known (sd_command spec)"
    and "routable opts" and "delay_ok ropts" and "pending_futures io = []"
    and "unat (sd_count spec) < fuel"
  shows "\<exists>st'. dsSDSinglePath J w opts u fuel ds ropts (io, rs) = Inr (True, st') \<and>
    sent (fst st') = sent io \<and> stats (snd st') = [] \<and>
    remaining (snd st') = int (visited w (polls io) (unat (sd_count spec)))"
proof -
  let ?N = "unat (sd_count spec)" and ?st = "begin_op ropts (io, rs)"
  let ?x = "\<lambda>i. (nat_to_string i, sd_value spec, sd_path spec, sd_command spec)"
  have act: "subdoc_item w opts x st = submit_one w None st" if "x \<in> set (map ?x [0..<?N])" for x st
  proof -
    from that obtain i where x: "x = ?x i" by auto
    obtain p where "getCollection opts (nat_to_string i) = Inr p" using number_routes [OF assms(6)] by blast
    moreover have "subdoc_request did (sd_command spec) q v = None" for did q v
      using assms(5) subdoc_request_known by blast
    ultimately show ?thesis by (simp add: subdoc_item_def x)
  qed
  have st: "idle io 0 ?st" "\<not> do_cancel (fst ?st)" "polls (fst ?st) = polls io"
    using assms(7,8) by (simp_all add: idle_def begin_op_def externalEnter_def clear_results_def)
  have "iterate J w u fuel ds (subdoc_item w opts) ?st =
      each_item (poll_cancel w) (subdoc_item w opts) (map ?x [0..<?N]) ?st"
    unfolding iterate_def
    by (rule ds.for_each_finite [OF sd_loads(1) [OF assms(1-4)] sd_loads(2) [OF assms(1-4)] assms(9)])
  moreover obtain e io1 rs1 where
    "each_item (poll_cancel w) (subdoc_item w opts) (map ?x [0..<?N]) ?st = Inr (e, (io1, rs1))"
    and idle: "idle io (int (visited w (polls io) ?N)) (io1, rs1)"
    using each_item_idle [where act = "subdoc_item w opts" and xs = "map ?x [0..<?N]", OF act st(1,2)]
      st(3) by auto
  moreover have "collect_result w (io1, rs1) = Inr (io1, rs1)"
    using idle by (simp add: collect_result_def idle_def drain_nothing)
  ultimately show ?thesis
    by (auto simp: dsSDSinglePath_def run_op_def idle_def)
qed

theorem sd_unknown_command_witness:
  "\<exists>st'. dsSDSinglePath Jref all_ok_world (many_options 2 3) 0 9 (example_sd_run ''upsert'')
      (example_ropts 3) (io_start, example_results) = Inr (True, st') \<and>
    sent (fst st') = [] \<and> remaining (snd st') = 4"
proof -
  have body: "ds_body (example_sd_run ''upsert'') = SD \<lparr>sd_doc = JNull, sd_load = False,
     sd_command = ''upsert'', sd_path = ''a.b'', sd_value = ''7'', sd_continuous = False, sd_count = 4\<rparr>"
    by (simp add: example_sd_run_def Dataset_new_def)
  have "routable (many_options 2 3)" "pending_futures io_start = []"
    by (simp_all add: routable_def many_options_def io_start_def)
  from sd_unknown_command [OF body _ _ _ _ this(1) delay_ok_example this(2), of 9 Jref all_ok_world 0 3 example_results]
  show ?thesis by (auto simp: io_start_def subdoc_known_def)
qed

text \<open>
  \<open>postsubmit\<close> either returns at once, below the batch size, or with nothing in flight.
\<close>

lemma postsubmit_drains:
  assumes "postsubmit w 1 (io, rs) = Inr (b, st')"
    and "iterwait (options rs) \<noteq> 0" and "0 < remaining rs + 1"
  shows "(word_of_int (remaining rs + 1) :: 32 word) < iterwait (options rs) \<and> fst st' = io
    \<or> pending_futures (fst st') = []"
proof (cases "(word_of_int (remaining rs + 1) :: 32 word) < iterwait (options rs)")
  case True
  with assms show ?thesis by (auto simp: postsubmit_def Let_def)
next
  case False
  with assms obtain io2 rs2 ms io3 where
    "drainPendingFutures w (rescode_handler w) (io, rs\<lparr>remaining := remaining rs + 1\<rparr>) = Inr (io2, rs2)"
    and rd: "roll_delay w (options rs2) io2 = Inr (ms, io3)"
    and st': "fst st' = (if ms \<noteq> 0 then sdkd_millisleep ms io3 else io3)"
    by (auto simp: postsubmit_def Let_def rbind_eq_Inr)
  then have "pending_futures io2 = []" by (auto simp: drainPendingFutures_def rbind_eq_Inr)
  with rd have "pending_futures io3 = []" by (auto simp: roll_delay_def rbind_eq_Inr)
  with st' show ?thesis by (simp add: sdkd_millisleep_def)
qed

text \<open>
  C27: with a batch size, a submission never leaves that many requests in flight: after
  \<open>postsubmit\<close> fewer than \<open>IterWait\<close> futures are pending.
\<close>

theorem batch_bound:
  assumes "accounted w L (io, rs)" and "delay_ok (options rs)" and "iterwait (options rs) \<noteq> 0"
    and "int (length (pending_futures io)) < 2 ^ 31"
  shows "\<exists>st'. submit_one w (Some r) (io, rs) = Inr (True, st') \<and>
    length (pending_futures (fst st')) < unat (iterwait (options rs))"
proof -
  obtain io1 rs1 where mb: "io_markBegin w (io, rs) = (io1, rs1)" by (cases "io_markBegin w (io, rs)")
  have m: "pending_futures io1 = pending_futures io" "options rs1 = options rs" "remaining rs1 = remaining rs"
    using mb by (auto simp: io_markBegin_def gettimeofday_def markBegin_def)
  have rem: "remaining rs + 1 = int (Suc (length (pending_futures io)))"
    using assms(1) by (auto simp: accounted_def results_view_def)
  have len: "length (pending_futures (submit r io1)) = Suc (length (pending_futures io))"
    by (simp add: submit_def execute_async_def m)
  have "Suc (length (pending_futures io)) < 2 ^ 32" using assms(4) by simp
  then have u: "unat (word_of_int (remaining rs + 1) :: 32 word) = Suc (length (pending_futures io))"
    unfolding rem of_int_of_nat_eq by (rule unat_of_small)
  obtain st' where run: "submit_one w (Some r) (io, rs) = Inr (True, st')"
    using submit_one_ok [OF assms(1)] assms(2) by (metis snd_conv)
  then obtain b where "postsubmit w 1 (submit r io1, rs1) = Inr (b, st')"
    using mb by (auto simp: submit_one_def Let_def rbind_eq_Inr)
  from postsubmit_drains [OF this] run len u assms(3) rem show ?thesis
    by (auto simp: m word_less_nat_alt unat_gt_0)
qed

theorem batch_bound_witness:
  "\<exists>st'. submit_one all_ok_world (Some (ScopeCreateReq [] [])) (begin_op (example_ropts 1) (io_start, example_results))
      = Inr (True, st') \<and> length (pending_futures (fst st')) < 1"
proof -
  have acc: "accounted all_ok_world 0 (begin_op (example_ropts 1) (io_start, example_results))"
    by (rule accounted_start) (simp_all add: io_start_def)
  have "pending_futures (externalEnter io_start) = []" by (simp add: io_start_def externalEnter_def)
  moreover have "iterwait (example_ropts 1) = 1" by (simp add: example_ropts_def)
  ultimately show ?thesis
    using batch_bound [OF acc [unfolded begin_op_def], of "ScopeCreateReq [] []"]
    by (simp add: begin_op_def clear_results_def)
qed

end
