(* ===== verification/LoaderItems.thy ===== *)
theory LoaderItems
  imports Loaders HandleProps
begin

text \<open>
  What the document loaders promise: every document is stored once and in order, unless a
  checked batch has a failure; the last, partial batch is never checked; nothing but a failure
  or the end of the dataset ends the loop.
\<close>

section \<open>Batches\<close>

text \<open>How many of the first \<open>j\<close> replies were checked: those up to the last multiple of 100.\<close>

definition checked :: "nat \<Rightarrow> nat" where
  "checked j = (if j = 0 then 0 else 100 * ((j - 1) div 100) + 1)"

lemma checked_Suc: "checked (Suc j) = (if j mod 100 = 0 then Suc j else checked j)"
proof (cases "j mod 100 = 0")
  case True
  then have "100 * (j div 100) = j" by (metis mult_div_mod_eq add.right_neutral)
  with True show ?thesis by (simp add: checked_def)
next
  case False
  then obtain i where j: "j = Suc i" by (cases j) auto
  have "Suc i div 100 = i div 100" using False j by (simp add: div_Suc)
  with False j show ?thesis by (simp add: checked_def)
qed

lemma checked_le: "checked j \<le> j"
  by (induction j) (simp_all add: checked_Suc checked_def [of 0])

lemma checked_mono: "checked j \<le> checked (Suc j)"
  using checked_le [of j] by (simp add: checked_Suc)

lemma checked_mono_add: "checked j \<le> checked (j + n)"
proof (induction n)
  case 0
  then show ?case by simp
next
  case (Suc n)
  then show ?case using checked_mono [of "j + n"] by simp
qed

definition reply_ok :: "world \<Rightarrow> nat \<Rightarrow> bool" where
  "reply_ok w f \<longleftrightarrow> resp_ec (answers w f) = None"

definition upsert :: "HandleOptions \<Rightarrow> item \<Rightarrow> request" where
  "upsert opts x = UpsertReq (item_id opts x) (fst (snd x)) None"

lemma shift_ball:
  fixes L :: nat
  shows "(\<forall>f \<in> {L + a..<L + Suc j}. P f) \<longleftrightarrow> (\<forall>i \<in> {a..j}. P (L + i))"
proof
  assume right: "\<forall>i \<in> {a..j}. P (L + i)"
  show "\<forall>f \<in> {L + a..<L + Suc j}. P f"
  proof
    fix f assume "f \<in> {L + a..<L + Suc j}"
    then have "f - L \<in> {a..j}" and "L + (f - L) = f" by auto
    with right show "P f" by metis
  qed
qed simp

lemma load_item_step:
  assumes "routes opts x" and "length (sent io) = L + j" and "pending_futures io = [L + checked j..<L + j]"
  shows "\<exists>io'. load_item w opts x (io, j) =
      Inr (j mod 100 = 0 \<longrightarrow> (\<forall>i \<in> {checked j..j}. reply_ok w (L + i)), (io', Suc j)) \<and>
    sent io' = sent io @ [upsert opts x] \<and> pending_futures io' = [L + checked (Suc j)..<L + Suc j]"
proof -
  obtain k v p c where x: "x = (k, v, p, c)" by (cases x)
  obtain coll where coll: "getCollection opts k = Inr coll" using assms(1) by (auto simp: routes_def x)
  define io1 where "io1 = submit (upsert opts x) io"
  have up: "UpsertReq (document_id_of opts k coll) v None = upsert opts x"
    by (simp add: upsert_def item_id_def route_def coll x)
  have io1: "sent io1 = sent io @ [upsert opts x]" "pending_futures io1 = [L + checked j..<L + Suc j]"
    using assms(2,3) checked_le [of j] by (simp_all add: io1_def submit_def execute_async_def)
  show ?thesis
  proof (cases "j mod 100 = 0")
    case False
    then have "load_item w opts x (io, j) = Inr (True, (io1, Suc j))"
      using coll up by (simp add: load_item_def x [symmetric]) (simp add: x io1_def)
    with False io1 show ?thesis by (simp add: checked_Suc)
  next
    case True
    obtain io2 ok where dr: "drainPendingFutures w ok_handler (io1, True) = Inr (io2, ok)"
      and ok: "ok = fold (\<lambda>err b. b \<and> err = None) (map (\<lambda>f. resp_ec (answers w f)) (pending_futures io1)) True"
      and p2: "pending_futures io2 = []" "sent io2 = sent io1"
      using all_ok.drain_ok [where s = True and w = w and io = io1, OF TrueI, unfolded id_apply] by metis
    have "ok \<longleftrightarrow> (\<forall>f \<in> {L + checked j..<L + Suc j}. reply_ok w f)"
      unfolding ok fold_all_ok by (auto simp: io1 reply_ok_def)
    also have "\<dots> \<longleftrightarrow> (\<forall>i \<in> {checked j..j}. reply_ok w (L + i))"
      by (rule shift_ball)
    finally have "ok \<longleftrightarrow> (\<forall>i \<in> {checked j..j}. reply_ok w (L + i))" .
    moreover have "load_item w opts x (io, j) = Inr (ok, (io2, Suc j))"
      using True coll up dr by (simp add: load_item_def x) (simp add: io1_def x)
    ultimately show ?thesis using True io1 p2 by (simp add: checked_Suc)
  qed
qed

text \<open>
  Where a load of the items at \<open>j\<close> and after stops: \<open>m\<close> items on, at the first check of which one of
  the replies it looks at is a failure. That check is the last thing done.
\<close>

definition stops_at :: "world \<Rightarrow> nat \<Rightarrow> nat \<Rightarrow> nat \<Rightarrow> bool" where
  "stops_at w L j m \<longleftrightarrow> (j + m) mod 100 = 0 \<and> (\<forall>i \<in> {checked j..<checked (j + m)}. reply_ok w (L + i)) \<and>
     (\<exists>i \<in> {checked (j + m)..j + m}. \<not> reply_ok w (L + i))"

lemma checked_split:
  "{checked j..<checked (Suc j + n)} = {checked j..<checked (Suc j)} \<union> {checked (Suc j)..<checked (Suc j + n)}"
  using checked_mono [of j] checked_mono_add [of "Suc j" n] by (auto simp: ivl_disj_un)

lemma check_Suc:
  "(j mod 100 = 0 \<longrightarrow> (\<forall>i \<in> {checked j..j}. P i)) \<longleftrightarrow> (\<forall>i \<in> {checked j..<checked (Suc j)}. P i)"
  by (auto simp: checked_Suc less_Suc_eq_le)

lemma load_items:
  assumes "\<forall>x \<in> set xs. routes opts x" and "length (sent io) = L + j"
    and "pending_futures io = [L + checked j..<L + j]"
  shows "\<exists>io' j'. each_item no_stop (load_item w opts) xs (io, j) =
      Inr (if \<forall>i \<in> {checked j..<checked (j + length xs)}. reply_ok w (L + i) then Exhausted else Returned,
           (io', j')) \<and>
    ((\<forall>i \<in> {checked j..<checked (j + length xs)}. reply_ok w (L + i)) \<longrightarrow>
      sent io' = sent io @ map (upsert opts) xs \<and>
      pending_futures io' = [L + checked (j + length xs)..<L + (j + length xs)]) \<and>
    (\<not> (\<forall>i \<in> {checked j..<checked (j + length xs)}. reply_ok w (L + i)) \<longrightarrow>
      (\<exists>m < length xs. stops_at w L j m \<and> sent io' = sent io @ map (upsert opts) (take (Suc m) xs) \<and>
        pending_futures io' = []))"
  using assms
proof (induction xs arbitrary: io j)
  case Nil
  then show ?case by simp
next
  case (Cons x xs)
  let ?b = "j mod 100 = 0 \<longrightarrow> (\<forall>i \<in> {checked j..j}. reply_ok w (L + i))"
  let ?r = "\<forall>i \<in> {checked (Suc j)..<checked (Suc j + length xs)}. reply_ok w (L + i)"
  obtain io1 where io1: "load_item w opts x (io, j) = Inr (?b, (io1, Suc j))"
    "sent io1 = sent io @ [upsert opts x]" "pending_futures io1 = [L + checked (Suc j)..<L + Suc j]"
    using load_item_step [OF _ Cons.prems(2,3), of opts x w] Cons.prems(1) by auto
  have len1: "length (sent io1) = L + Suc j" using io1(2) Cons.prems(2) by simp
  have b: "?b \<longleftrightarrow> (\<forall>i \<in> {checked j..<checked (Suc j)}. reply_ok w (L + i))" by (rule check_Suc)
  have split: "(\<forall>i \<in> {checked j..<checked (j + length (x # xs))}. reply_ok w (L + i)) \<longleftrightarrow> ?b \<and> ?r"
    unfolding b using checked_split [of j "length xs"] by (simp add: ball_Un)
  show ?case
  proof (cases ?b)
    case False
    then have "stops_at w L j 0" "j mod 100 = 0" by (auto simp: stops_at_def)
    moreover from this(2) have "pending_futures io1 = []" using io1(3) by (simp add: checked_Suc)
    moreover have "each_item no_stop (load_item w opts) (x # xs) (io, j) = Inr (Returned, (io1, Suc j))"
      using False io1(1) by (auto simp: no_stop_def)
    ultimately show ?thesis
      unfolding split using False io1(2) by (intro exI [of _ io1] exI [of _ "Suc j"]) auto
  next
    case True
    obtain io' j' where rest: "each_item no_stop (load_item w opts) xs (io1, Suc j) =
        Inr (if ?r then Exhausted else Returned, (io', j'))"
      "?r \<longrightarrow> sent io' = sent io1 @ map (upsert opts) xs \<and>
        pending_futures io' = [L + checked (Suc j + length xs)..<L + (Suc j + length xs)]"
      "\<not> ?r \<longrightarrow> (\<exists>m < length xs. stops_at w L (Suc j) m \<and>
        sent io' = sent io1 @ map (upsert opts) (take (Suc m) xs) \<and> pending_futures io' = [])"
      using Cons.IH [OF _ len1 io1(3)] Cons.prems(1) by auto
    have "stops_at w L j (Suc m)" if "stops_at w L (Suc j) m" for m
      using that True [unfolded b] checked_split [of j m] by (simp add: stops_at_def ball_Un)
    with rest(3) have stop: "\<not> ?r \<longrightarrow> (\<exists>m < length (x # xs). stops_at w L j m \<and>
        sent io' = sent io @ map (upsert opts) (take (Suc m) (x # xs)) \<and> pending_futures io' = [])"
      using io1(2) by fastforce
    have "each_item no_stop (load_item w opts) (x # xs) (io, j) =
        each_item no_stop (load_item w opts) xs (io1, Suc j)"
      using True io1(1) by (simp add: no_stop_def)
    with rest(1,2) io1(2) stop show ?thesis
      unfolding split using True by (intro exI [of _ io'] exI [of _ j']) simp
  qed
qed

section \<open>Whole loads\<close>

lemma populate_finite:
  assumes total: "ds_total J ds = enat N" and loads: "\<And>i. i \<le> N \<Longrightarrow> ds_load J u ds i = Inr (x i)"
    and fuel: "N < fuel" and good: "\<And>i. i < N \<Longrightarrow> routes opts (x i)" and "pending_futures io = []"
  shows "\<exists>ok io' n. SDLoader_populate J w opts u fuel ds io = Inr (ok, io') \<and>
    (ok \<longleftrightarrow> (\<forall>i < checked N. reply_ok w (length (sent io) + i))) \<and>
    sent io' = sent io @ map (\<lambda>i. upsert opts (x i)) [0..<n] \<and> pending_futures io' = [] \<and>
    (if ok then n = N else 0 < n \<and> n \<le> N \<and> stops_at w (length (sent io)) 0 (n - 1))"
proof -
  let ?L = "length (sent io)" and ?xs = "map x [0..<N]"
  let ?ok = "\<forall>i \<in> {checked 0..<checked (0 + length ?xs)}. reply_ok w (?L + i)"
  have c0: "checked 0 = 0" by (simp add: checked_def)
  have run: "rbind (DatasetIterator_start J ds (getIter u ds)) (\<lambda>it.
      for_each (iter_done J ds) (iter_advance J ds) no_stop
        (\<lambda>it. load_item w opts (iter_item it)) fuel it (io, 0)) = each_item no_stop (load_item w opts) ?xs (io, 0)"
    by (rule ds.for_each_finite [OF total loads fuel])
  have good': "\<forall>x \<in> set ?xs. routes opts x" using good by auto
  obtain io1 j where it: "each_item no_stop (load_item w opts) ?xs (io, 0) =
      Inr (if ?ok then Exhausted else Returned, (io1, j))"
    and sent: "?ok \<longrightarrow> sent io1 = sent io @ map (upsert opts) ?xs"
    and stop: "\<not> ?ok \<longrightarrow> (\<exists>m < length ?xs. stops_at w ?L 0 m \<and>
      sent io1 = sent io @ map (upsert opts) (take (Suc m) ?xs) \<and> pending_futures io1 = [])"
    using load_items [OF good', of io ?L 0 w] assms(5) c0 by auto
  have ok: "?ok \<longleftrightarrow> (\<forall>i < checked N. reply_ok w (?L + i))" using c0 by auto
  show ?thesis
  proof (cases ?ok)
    case False
    have "each_item no_stop (load_item w opts) ?xs (io, 0) = Inr (Returned, (io1, j))"
      unfolding it if_not_P [OF False] ..
    then have "SDLoader_populate J w opts u fuel ds io = Inr (False, io1)"
      using run by (simp add: SDLoader_populate_def rbind_assoc [symmetric])
    moreover obtain m where m: "m < N" "stops_at w ?L 0 m" "pending_futures io1 = []"
      "sent io1 = sent io @ map (upsert opts) (take (Suc m) ?xs)"
      using stop False by auto
    moreover from m(1) have "map (upsert opts) (take (Suc m) ?xs) = map (\<lambda>i. upsert opts (x i)) [0..<Suc m]"
      by (simp only: take_map take_upt map_map o_def) simp
    moreover have "\<not> (\<forall>i < checked N. reply_ok w (?L + i))" using False unfolding ok .
    ultimately show ?thesis by (intro exI [of _ False] exI [of _ io1] exI [of _ "Suc m"]) simp
  next
    case True
    obtain io2 y where dr: "drainPendingFutures w ignore_handler (io1, ()) = Inr (io2, y)"
      "pending_futures io2 = []" "sent io2 = sent io1"
      using ignored.drain_ok [where s = "()" and w = w and io = io1, OF TrueI] by metis
    moreover have "each_item no_stop (load_item w opts) ?xs (io, 0) = Inr (Exhausted, (io1, j))"
      unfolding it if_P [OF True] ..
    ultimately have "SDLoader_populate J w opts u fuel ds io = Inr (True, io2)"
      using run by (simp add: SDLoader_populate_def rbind_assoc [symmetric])
    with True ok sent dr show ?thesis
      by (intro exI [of _ True] exI [of _ io2] exI [of _ N]) (simp add: o_def)
  qed
qed

definition fail_after :: "nat \<Rightarrow> world" where
  "fail_after n = all_ok_world\<lparr>answers := \<lambda>i. \<lparr>resp_ec = if n < i then Some ''timeout'' else None,
     resp_rows = 0, resp_token = i\<rparr>\<rparr>"

definition fail_first :: "world \<Rightarrow> world" where
  "fail_first w = w\<lparr>answers := \<lambda>i. \<lparr>resp_ec = if i = 0 then Some ''timeout'' else None,
     resp_rows = 0, resp_token = i\<rparr>\<rparr>"

lemma example_sd_loads:
  "ds_total Jref (example_sd_run c) = enat 4"
  "i \<le> 4 \<Longrightarrow> ds_load Jref u (example_sd_run c) i = Inr (nat_to_string i, ''7'', ''a.b'', c)"
proof -
  let ?spec = "\<lparr>sd_doc = JNull, sd_load = False, sd_command = c, sd_path = ''a.b'', sd_value = ''7'',
      sd_continuous = False, sd_count = 4\<rparr> :: jval SDDatasetSpecification"
  have "ds_body (example_sd_run c) = SD ?spec" "\<not> sd_load ?spec" "\<not> sd_continuous ?spec"
    "unat (sd_count ?spec) < 2 ^ 31"
    by (simp_all add: example_sd_run_def Dataset_new_def)
  from sd_loads [OF this] show "ds_total Jref (example_sd_run c) = enat 4"
    "i \<le> 4 \<Longrightarrow> ds_load Jref u (example_sd_run c) i = Inr (nat_to_string i, ''7'', ''a.b'', c)"
    by simp_all
qed

lemma number_item_routes:
  "routable opts \<Longrightarrow> routes opts (nat_to_string i, r)"
  unfolding routes_def fst_conv by (rule number_routes)

section \<open>Properties\<close>

text \<open>
  C24: a document loader over a finite dataset succeeds exactly when all checked replies do, which
  are those up to the last position that is a multiple of 100. When it succeeds it has stored every
  document once, in order and with the key's routing. Otherwise it has stopped at a check: it has sent
  the documents up to that position and nothing after it, all checks before had only good
  replies, and one of the replies looked at there is a failure. Nothing is pending in either case.
\<close>

theorem loader_stores_all:
  assumes "ds_total J ds = enat N" and "\<And>i. i \<le> N \<Longrightarrow> ds_load J u ds i = Inr (x i)"
    and "N < fuel" and "\<And>i. i < N \<Longrightarrow> routes opts (x i)" and "pending_futures io = []"
  shows "\<exists>ok io' n. SDLoader_populate J w opts u fuel ds io = Inr (ok, io') \<and>
    (ok \<longleftrightarrow> (\<forall>i < checked N. reply_ok w (length (sent io) + i))) \<and>
    sent io' = sent io @ map (\<lambda>i. upsert opts (x i)) [0..<n] \<and> pending_futures io' = [] \<and>
    (if ok then n = N
     else 0 < n \<and> n \<le> N \<and> (n - 1) mod 100 = 0 \<and> (\<forall>i < checked (n - 1). reply_ok w (length (sent io) + i)) \<and>
       (\<exists>i \<in> {checked (n - 1)..n - 1}. \<not> reply_ok w (length (sent io) + i)))"
proof -
  have stops: "stops_at w L 0 m \<longleftrightarrow> m mod 100 = 0 \<and> (\<forall>i < checked m. reply_ok w (L + i)) \<and>
      (\<exists>i \<in> {checked m..m}. \<not> reply_ok w (L + i))" for L m
    by (auto simp: stops_at_def checked_def [of 0])
  show ?thesis using populate_finite [OF assms, of w] unfolding stops .
qed

theorem loader_stores_all_witness:
  "(\<exists>io'. SDLoader_populate Jref all_ok_world (many_options 2 3) 0 9 (example_sd_run ''get'') io_start
      = Inr (True, io') \<and> length (sent io') = 4) \<and>
   (\<exists>io'. SDLoader_populate Jref (fail_first all_ok_world) (many_options 2 3) 0 9 (example_sd_run ''get'') io_start
      = Inr (False, io') \<and> length (sent io') = 1)"
proof -
  have nz: "routable (many_options 2 3)" by (simp add: routable_def many_options_def)
  have p: "pending_futures io_start = []" by (simp add: io_start_def)
  have fuel: "(4 :: nat) < 9" by simp
  note app = loader_stores_all [OF example_sd_loads(1) example_sd_loads(2) fuel number_item_routes [OF nz] p,
      of _ 0 "''get''"]
  have "reply_ok all_ok_world f" for f by (simp add: reply_ok_def all_ok_world_def)
  then have "\<exists>io'. SDLoader_populate Jref all_ok_world (many_options 2 3) 0 9 (example_sd_run ''get'') io_start
      = Inr (True, io') \<and> length (sent io') = 4"
    using app [of all_ok_world] by (auto simp: io_start_def)
  moreover have first: "\<not> reply_ok (fail_first all_ok_world) 0" by (simp add: reply_ok_def fail_first_def)
  have "\<exists>io'. SDLoader_populate Jref (fail_first all_ok_world) (many_options 2 3) 0 9 (example_sd_run ''get'') io_start
      = Inr (False, io') \<and> length (sent io') = 1"
  proof -
    from app [of "fail_first all_ok_world"] obtain ok io' n where r: "SDLoader_populate Jref (fail_first all_ok_world) (many_options 2 3) 0 9
        (example_sd_run ''get'') io_start = Inr (ok, io')"
      "ok \<longleftrightarrow> (\<forall>i < checked 4. reply_ok (fail_first all_ok_world) (length (sent io_start) + i))"
      "sent io' = sent io_start @ map (\<lambda>i. upsert (many_options 2 3) (nat_to_string i, ''7'', ''a.b'', ''get'')) [0..<n]"
      and n: "if ok then n = 4
        else 0 < n \<and> n \<le> 4 \<and> (n - 1) mod 100 = 0 \<and>
          (\<forall>i < checked (n - 1). reply_ok (fail_first all_ok_world) (length (sent io_start) + i)) \<and>
          (\<exists>i \<in> {checked (n - 1)..n - 1}. \<not> reply_ok (fail_first all_ok_world) (length (sent io_start) + i))"
      by blast
    have "0 < checked 4" by (simp add: checked_def)
    with r(2) first have "\<not> ok" by (auto simp: io_start_def)
    moreover from this n have "0 < n \<and> n \<le> 4 \<and> (n - 1) mod 100 = 0" by simp
    then have "n = 1" using mod_less [of "n - 1" 100] by linarith
    ultimately show ?thesis using r(1,3) by (simp add: io_start_def)
  qed
  ultimately show ?thesis by blast
qed

text \<open>
  The last, partial batch is drained by a handler that ignores the codes: with at most 100
  documents a load reports success as soon as the first document was stored, whatever the other
  replies say.
\<close>

theorem loader_last_batch_unchecked:
  assumes "ds_total J ds = enat N" and "\<And>i. i \<le> N \<Longrightarrow> ds_load J u ds i = Inr (x i)"
    and "N < fuel" and "\<And>i. i < N \<Longrightarrow> routes opts (x i)" and "pending_futures io = []"
    and "N \<le> 100" and "reply_ok w (length (sent io))"
  shows "\<exists>io'. SDLoader_populate J w opts u fuel ds io = Inr (True, io')"
proof -
  have "checked N \<le> 1" using assms(6) by (simp add: checked_def)
  have "\<forall>i < checked N. reply_ok w (length (sent io) + i)"
  proof (intro allI impI)
    fix i assume "i < checked N"
    with \<open>checked N \<le> 1\<close> have "i = 0" by simp
    with assms(7) show "reply_ok w (length (sent io) + i)" by simp
  qed
  moreover obtain ok io' where run: "SDLoader_populate J w opts u fuel ds io = Inr (ok, io')"
    and "ok \<longleftrightarrow> (\<forall>i < checked N. reply_ok w (length (sent io) + i))"
    using populate_finite [OF assms(1-5), where w = w] by blast
  ultimately have ok by simp
  with run show ?thesis by simp
qed

theorem loader_last_batch_unchecked_witness:
  "\<exists>io'. SDLoader_populate Jref (fail_after 0) (many_options 2 3) 0 9 (example_sd_run ''get'') io_start
      = Inr (True, io')"
proof -
  have nz: "routable (many_options 2 3)" by (simp add: routable_def many_options_def)
  have p: "pending_futures io_start = []" by (simp add: io_start_def)
  show ?thesis
    by (rule loader_last_batch_unchecked [OF example_sd_loads(1) example_sd_loads(2) _ number_item_routes [OF nz] p])
      (simp_all add: reply_ok_def fail_after_def io_start_def)
qed

text \<open>
  A loader over a dataset without end is never ended by cancellation: as long as the
  replies are good it is still running after any number of rounds, whatever other threads ask
  for.
\<close>

theorem loader_ignores_cancel:
  assumes "ds_total J ds = \<infinity>" and "\<And>i. ds_load J u ds i = Inr (x i)" and "\<And>i. routes opts (x i)"
    and "pending_futures io = []" and "\<And>f. reply_ok w f"
  shows "N1QLLoader_populate J w opts u fuel ds io = Inl Running"
proof -
  let ?xs = "map x [0..<fuel]"
  have good: "\<forall>x \<in> set ?xs. routes opts x" using assms(3) by auto
  obtain s' where "each_item no_stop (load_item w opts) ?xs (io, 0) = Inr (Exhausted, s')"
    using load_items [OF good, of io "length (sent io)" 0 w] assms(4,5) by (auto simp: checked_def)
  moreover have "rbind (DatasetIterator_start J ds (getIter u ds)) (\<lambda>it.
      for_each (iter_done J ds) (iter_advance J ds) no_stop
        (\<lambda>it. load_item w opts (iter_item it)) fuel it (io, 0)) =
      rbind (each_item no_stop (load_item w opts) ?xs (io, 0))
        (\<lambda>(e, s'). if e = Exhausted then Inl Running else Inr (e, s'))"
    by (rule ds.for_each_prefix [OF assms(2)]) (simp add: assms(1))
  ultimately show ?thesis
    by (simp add: N1QLLoader_populate_def rbind_assoc [symmetric])
qed

theorem loader_ignores_cancel_witness:
  "N1QLLoader_populate Jref (all_ok_world\<lparr>cancels := \<lambda>n. True\<rparr>) (many_options 2 3) 0 700
      example_cycle io_start = Inl Running"
proof -
  have body: "ds_body example_cycle = Seeded (example_seed\<lparr>seed_continuous := True, seed_count := 3\<rparr>)"
    by (simp add: example_defs)
  have "ds_load Jref 0 example_cycle i = Inr (seeded_item (example_seed\<lparr>seed_continuous := True, seed_count := 3\<rparr>)
      (word_of_nat (position True (unat (3 :: 32 word)) i)))" for i
    using ds_load_seeded [OF body, of i Jref 0] body by (simp add: ds_total_def ds_continuous_def)
  moreover have "routes (many_options 2 3) (seeded_item spec i)" for spec i
    by (rule seeded_routes) (simp add: routable_def many_options_def)
  ultimately show ?thesis
    by (intro loader_ignores_cancel [where x = "\<lambda>i. seeded_item (example_seed\<lparr>seed_continuous := True, seed_count := 3\<rparr>)
        (word_of_nat (position True (unat (3 :: 32 word)) i))"])
      (simp_all add: ds_total_def ds_continuous_def body io_start_def reply_ok_def all_ok_world_def)
qed

end
