(* ===== verification/IOProto.thy ===== *)
theory IOProto
  imports Messages
begin

text \<open>
  Framing and buffering on a socket (\<open>IOProtoHandler\<close> in \<open>src/IODispatch.h\<close> and
  \<open>src/IODispatch.cpp\<close>): incoming bytes are cut into lines, one line is one request; responses
  are appended to an output buffer that is flushed when the socket takes bytes. The kernel's
  side of a socket is a script: what the next calls of \<open>recv\<close>, \<open>send\<close> and \<open>select\<close> return. When
  a script is used up, \<open>recv\<close> and \<open>send\<close> report that they would block, and \<open>select\<close> waits.
\<close>

section \<open>The state of a connection\<close>

datatype sockerr = WouldBlock | Interrupted | OtherError

text \<open>A return value of \<open>recv\<close> (no bytes: the peer closed the connection) or of \<open>send\<close>.\<close>

datatype recv_result = Bytes string | RecvError sockerr

datatype send_result = Taken nat | SendError sockerr

datatype select_result = Writable | SelectError sockerr

record conn =
  inbuf :: string
  outbuf :: string
  newlines :: "string list"
  sock_open :: bool
  incoming :: "recv_result list"
  sends :: "send_result list"
  selects :: "select_result list"
  wire :: string

definition newline :: char where
  "newline = CHR 0x0A"

section \<open>Reading lines\<close>

text \<open>The loop over the bytes of one \<open>recv\<close>: the rest of the line in the buffer, and the lines.\<close>

fun absorb :: "string \<Rightarrow> string \<times> string list \<Rightarrow> string \<times> string list" where
  "absorb [] s = s"
| "absorb (c # cs) (buf, ls) =
     (if c \<noteq> newline then absorb cs (buf @ [c], ls) else absorb cs ([], ls @ [buf]))"

text \<open>\<open>readSocket\<close> over the script: the last value of \<open>recv\<close>, the rest of the script, the buffers.\<close>

fun read_script :: "recv_result list \<Rightarrow> string \<times> string list
    \<Rightarrow> recv_result \<times> recv_result list \<times> string \<times> string list" where
  "read_script [] s = (RecvError WouldBlock, [], s)"
| "read_script (RecvError e # rs) s = (RecvError e, rs, s)"
| "read_script (Bytes b # rs) s = (if b = [] then (Bytes [], rs, s) else read_script rs (absorb b s))"

definition readSocket :: "conn \<Rightarrow> recv_result \<times> conn" where
  "readSocket c =
     (if \<not> sock_open c then (RecvError OtherError, c)
      else let (rv, rs, buf, ls) = read_script (incoming c) (inbuf c, newlines c)
           in (rv, c\<lparr>incoming := rs, inbuf := buf, newlines := ls\<rparr>))"

datatype IOStatus = IO_OK | IO_NOTYET | IO_ERR

text \<open>
  \<open>getRawMessage\<close>: with \<open>fresh\<close> set from its beginning, where a pending line is taken, without from
  the head of its loop. An empty line is dropped.
\<close>

definition script_size :: "recv_result list \<Rightarrow> nat" where
  "script_size rs = sum_list (map (\<lambda>r. case r of Bytes b \<Rightarrow> Suc (length b) | RecvError _ \<Rightarrow> 1) rs)"

lemma script_size_simps [simp]:
  "script_size [] = 0"
  "script_size (Bytes b # rs) = Suc (length b + script_size rs)"
  "script_size (RecvError e # rs) = Suc (script_size rs)"
  by (simp_all add: script_size_def)

lemma length_absorb: "length (snd (absorb cs s)) \<le> length (snd s) + length cs"
proof (induction cs s rule: absorb.induct)
  case (2 c cs buf ls)
  then show ?case by (cases "c = newline") auto
qed simp

lemma read_script_size:
  "read_script rs s = (rv, rs', buf, ls) \<Longrightarrow> script_size rs' + length ls \<le> script_size rs + length (snd s)"
proof (induction rs s rule: read_script.induct)
  case (3 b rs s)
  show ?case
  proof (cases "b = []")
    case True
    with 3 show ?thesis by auto
  next
    case False
    with 3 have "script_size rs' + length ls \<le> script_size rs + length (snd (absorb b s))" by simp
    with length_absorb [of b s] show ?thesis by simp
  qed
qed auto

lemma read_script_interrupted:
  "read_script rs s = (RecvError Interrupted, rs', buf, ls) \<Longrightarrow>
    script_size rs' + length ls < script_size rs + length (snd s)"
proof (induction rs s rule: read_script.induct)
  case (3 b rs s)
  show ?case
  proof (cases "b = []")
    case False
    with 3 have "script_size rs' + length ls < script_size rs + length (snd (absorb b s))" by simp
    with length_absorb [of b s] show ?thesis by simp
  qed (use 3 in simp)
qed auto

definition todo_size :: "conn \<Rightarrow> nat" where
  "todo_size c = script_size (incoming c) + length (newlines c)"

lemma readSocket_size:
  assumes "readSocket c = (rv, c1)"
  shows "todo_size c1 \<le> todo_size c" and "rv = RecvError Interrupted \<Longrightarrow> todo_size c1 < todo_size c"
  using assms read_script_size [of "incoming c" "(inbuf c, newlines c)"]
    read_script_interrupted [of "incoming c" "(inbuf c, newlines c)"]
  by (auto simp: readSocket_def todo_size_def split: if_splits prod.splits)

function get_raw :: "bool \<Rightarrow> conn \<Rightarrow> IOStatus \<times> string \<times> conn" where
  "get_raw fresh c =
     (if fresh then
        (case newlines c of
           l # ls \<Rightarrow> if l \<noteq> [] then (IO_OK, l, c\<lparr>newlines := ls\<rparr>)
                     else get_raw False (c\<lparr>newlines := ls\<rparr>)
         | [] \<Rightarrow> get_raw False c)
      else
        let (rv, c1) = readSocket c in
        if newlines c1 \<noteq> [] then get_raw True c1
        else (case rv of
                Bytes _ \<Rightarrow> (IO_ERR, [], c1\<lparr>sock_open := False\<rparr>)
              | RecvError WouldBlock \<Rightarrow> (IO_NOTYET, [], c1)
              | RecvError Interrupted \<Rightarrow> get_raw False c1
              | RecvError OtherError \<Rightarrow> (IO_ERR, [], c1)))"
  by pat_completeness auto

text \<open>Popping a line, reading one and retrying an interrupted call each use something up.\<close>

definition raw_measure :: "bool \<times> conn \<Rightarrow> nat" where
  "raw_measure p = (case p of (fresh, c) \<Rightarrow>
     if \<not> fresh then 2 * todo_size c
     else if newlines c = [] then 2 * todo_size c + 1 else 2 * todo_size c - 1)"

termination get_raw
proof (relation "measure raw_measure")
  fix fresh :: bool and c :: conn and p rv c1
  assume fresh: "\<not> fresh" and p: "p = readSocket c" "(rv, c1) = p"
  then have sz: "todo_size c1 \<le> todo_size c"
    and lt: "rv = RecvError Interrupted \<Longrightarrow> todo_size c1 < todo_size c"
    using readSocket_size [of c rv c1] by auto
  show "((True, c1), (fresh, c)) \<in> measure raw_measure" if "newlines c1 \<noteq> []"
  proof -
    have "0 < todo_size c1" using that by (simp add: todo_size_def)
    with that fresh sz show ?thesis by (simp add: raw_measure_def)
  qed
  show "((False, c1), (fresh, c)) \<in> measure raw_measure" if "rv = RecvError e" "e = Interrupted" for e
    using that lt fresh by (simp add: raw_measure_def)
qed (auto simp: raw_measure_def todo_size_def)

declare get_raw.simps [simp del]

definition getRawMessage :: "conn \<Rightarrow> IOStatus \<times> string \<times> conn" where
  "getRawMessage c = get_raw True c"

section \<open>Writing\<close>

text \<open>\<open>encoded.at(encoded.size() - 1)\<close> throws on an empty text.\<close>

definition writeResponse :: "'j json_api \<Rightarrow> 'j Response \<Rightarrow> conn \<Rightarrow> conn run" where
  "writeResponse J res c =
     rbind (encode J res) (\<lambda>encoded.
     rbind (require (encoded \<noteq> []) (Uncaught ''out_of_range'')) (\<lambda>_.
     let encoded' = (if last encoded \<noteq> newline then encoded @ [newline] else encoded)
     in Inr (c\<lparr>outbuf := outbuf c @ encoded'\<rparr>)))"

text \<open>
  The loop of \<open>flushBuffer\<close>: its result, what the socket took, what remains, the script. A
  call never takes more than it is given.
\<close>

fun send_loop :: "send_result list \<Rightarrow> string \<Rightarrow> int \<times> string \<times> string \<times> send_result list" where
  "send_loop rs [] = (0, [], [], rs)"
| "send_loop [] data = (0, [], data, [])"
| "send_loop (Taken n # rs) data =
     (if n = 0 then (-1, [], data, rs)
      else let (r, done, rest, rs') = send_loop rs (drop n data) in (r, take n data @ done, rest, rs'))"
| "send_loop (SendError e # rs) data =
     (case e of
        Interrupted \<Rightarrow> send_loop rs data
      | WouldBlock \<Rightarrow> (0, [], data, rs)
      | OtherError \<Rightarrow> (-1, [], data, rs))"

definition flushBuffer :: "conn \<Rightarrow> int \<times> conn" where
  "flushBuffer c =
     (if \<not> sock_open c \<and> outbuf c \<noteq> [] then (-1, c)
      else let (r, done, rest, rs) = send_loop (sends c) (outbuf c)
           in (r, c\<lparr>outbuf := rest, wire := wire c @ done, sends := rs\<rparr>))"

text \<open>
  \<open>flushBufferBlock\<close>, over the script of \<open>select\<close>; \<open>FD_SET\<close> of the descriptor -1 of a closed
  socket writes outside the set.
\<close>

fun flush_block :: "select_result list \<Rightarrow> conn \<Rightarrow> (int \<times> conn) run" where
  "flush_block sels c =
     (if outbuf c = [] then Inr (0, c\<lparr>selects := sels\<rparr>)
      else if \<not> sock_open c then Inl BadAccess
      else (case sels of
              [] \<Rightarrow> Inl Running
            | SelectError e # rest \<Rightarrow>
                if e = Interrupted then flush_block rest c else Inr (-1, c\<lparr>selects := rest\<rparr>)
            | Writable # rest \<Rightarrow>
                let (r, c1) = flushBuffer c
                in if r = -1 then Inr (-1, c1\<lparr>selects := rest\<rparr>) else flush_block rest c1))"

declare flush_block.simps [simp del]

definition flushBufferBlock :: "conn \<Rightarrow> (int \<times> conn) run" where
  "flushBufferBlock c = flush_block (selects c) c"

text \<open>\<open>setupFdSets\<close>: the socket is always in the read and error sets; is it in the write set?\<close>

definition setupFdSets :: "conn \<Rightarrow> bool run" where
  "setupFdSets c = rbind (require (sock_open c) BadAccess) (\<lambda>_. Inr (outbuf c \<noteq> []))"

section \<open>Requests\<close>

text \<open>
  \<open>readRequest\<close>: its result, the pointer it leaves behind and whether the pointed-to request is
  deleted. A request that is not valid is answered and deleted, and the pointer stays.
\<close>

datatype 'j reqptr = NullPtr | Live "'j Message" | Dangling

definition readRequest :: "'j json_api \<Rightarrow> 'j Message \<Rightarrow> conn \<Rightarrow> (int \<times> 'j reqptr \<times> conn) run" where
  "readRequest J u c =
     (let (status, reqbuf, c1) = getRawMessage c in
      case status of
        IO_NOTYET \<Rightarrow> Inr (0, NullPtr, c1)
      | IO_ERR \<Rightarrow> Inr (-1, NullPtr, c1)
      | IO_OK \<Rightarrow>
          rbind (require (reqbuf \<noteq> []) AssertFailed) (\<lambda>_.
          rbind (Request_decode J u reqbuf None True) (\<lambda>(reqp, _).
          case reqp of
            None \<Rightarrow> Inl BadAccess
          | Some req \<Rightarrow>
              if \<not> Request_isValid req then
                rbind (writeResponse J (Response_new J req (msg_err req)) c1) (\<lambda>c2.
                Inr (-1, Dangling, c2))
              else Inr (1, Live req, c1))))"

section \<open>The time limit\<close>

text \<open>
  The global timer: whether it was created, whether it is armed, and for how many seconds. When
  it fires the process aborts.
\<close>

record ttl_timer =
  ttl_created :: bool
  ttl_initialized :: bool
  ttl_scheduled :: "32 word option"

definition sdkd_init_timer :: "ttl_timer \<Rightarrow> ttl_timer" where
  "sdkd_init_timer t = t\<lparr>ttl_initialized := False\<rparr>"

definition sdkd_set_ttl :: "32 word \<Rightarrow> ttl_timer \<Rightarrow> ttl_timer" where
  "sdkd_set_ttl seconds t =
     (let t1 = t\<lparr>ttl_created := True\<rparr>;
          t2 = (if ttl_initialized t1 then t1\<lparr>ttl_scheduled := None, ttl_initialized := False\<rparr> else t1)
      in if seconds \<noteq> 0 then t2\<lparr>ttl_scheduled := Some seconds, ttl_initialized := True\<rparr> else t2)"

definition ttl_expired_func :: "ttl_timer \<Rightarrow> 'a run" where
  "ttl_expired_func t = Inl Aborted"

end
