(* ===== verification/IOProps.thy ===== *)
theory IOProps
  imports IOProto Protocol
begin

text \<open>
  What framing and flushing promise. The abstract view of the reading side is the list of lines
  still to be delivered, whatever the chunks they arrive in; that of the writing side is the
  byte string already sent followed by the bytes waiting.
\<close>

section \<open>Lines of a byte string\<close>

text \<open>The complete lines of a string, and what follows the last of them.\<close>

fun split_lines :: "string \<Rightarrow> string list \<times> string" where
  "split_lines [] = ([], [])"
| "split_lines (c # cs) =
     (if c = newline then ([] # fst (split_lines cs), snd (split_lines cs))
      else case split_lines cs of
             ([], r) \<Rightarrow> ([], c # r)
           | (l # ls, r) \<Rightarrow> ((c # l) # ls, r))"

definition unlines :: "string list \<Rightarrow> string \<Rightarrow> string" where
  "unlines ls r = concat (map (\<lambda>l. l @ [newline]) ls) @ r"

definition one_line :: "string \<Rightarrow> bool" where
  "one_line s \<longleftrightarrow> newline \<notin> set s"

lemma one_line_simps [simp]:
  "one_line []" "one_line (c # s) \<longleftrightarrow> c \<noteq> newline \<and> one_line s"
  "one_line (s @ t) \<longleftrightarrow> one_line s \<and> one_line t"
  by (auto simp: one_line_def)

lemma split_lines_rest [simp]: "one_line s \<Longrightarrow> split_lines s = ([], s)"
  by (induction s) simp_all

lemma split_lines_line [simp]:
  "one_line l \<Longrightarrow> split_lines (l @ newline # s) = (l # fst (split_lines s), snd (split_lines s))"
  by (induction l) simp_all

lemma split_lines_unlines:
  "(\<forall>l \<in> set ls. one_line l) \<Longrightarrow> one_line r \<Longrightarrow> split_lines (unlines ls r) = (ls, r)"
  by (induction ls) (simp_all add: unlines_def)

lemma one_line_split: "\<forall>l \<in> set (fst (split_lines s)). one_line l"
  by (induction s) (auto split: prod.splits list.splits)

lemma one_line_rest: "one_line (snd (split_lines s))"
  by (induction s) (auto split: prod.splits list.splits)

text \<open>Absorbing a chunk keeps the lines and the rest of what is in the buffer and yet to come.\<close>

lemma absorb_split:
  assumes "one_line buf"
  shows "one_line (fst (absorb b (buf, ls)))"
    and "snd (absorb b (buf, ls)) @ fst (split_lines (fst (absorb b (buf, ls)) @ d)) =
      ls @ fst (split_lines (buf @ b @ d))"
    and "snd (split_lines (fst (absorb b (buf, ls)) @ d)) = snd (split_lines (buf @ b @ d))"
  using assms
proof (induction b arbitrary: buf ls)
  case (Cons c b)
  {
    case 1
    then show ?case using Cons.IH(1) by simp
  next
    case 2
    then show ?case
      using Cons.IH(2) [of "[]" "ls @ [buf]"] Cons.IH(2) [of "buf @ [c]" ls] by (cases "c = newline") simp_all
  next
    case 3
    then show ?case
      using Cons.IH(3) [of "[]" "ls @ [buf]"] Cons.IH(3) [of "buf @ [c]" ls] by (cases "c = newline") simp_all
  }
qed simp_all

section \<open>A socket that is only slow\<close>

text \<open>
  A script on which nothing goes wrong: bytes in chunks of any size, and interrupted calls.
\<close>

definition live_script :: "recv_result list \<Rightarrow> bool" where
  "live_script rs \<longleftrightarrow> (\<forall>r \<in> set rs. case r of Bytes b \<Rightarrow> b \<noteq> [] | RecvError e \<Rightarrow> e = Interrupted)"

fun script_data :: "recv_result list \<Rightarrow> string" where
  "script_data [] = []"
| "script_data (Bytes b # rs) = b @ script_data rs"
| "script_data (RecvError e # rs) = script_data rs"

lemma live_script_simps [simp]:
  "live_script []" "live_script (Bytes b # rs) \<longleftrightarrow> b \<noteq> [] \<and> live_script rs"
  "live_script (RecvError e # rs) \<longleftrightarrow> e = Interrupted \<and> live_script rs"
  by (auto simp: live_script_def)

text \<open>Whatever the script, no byte of a line is lost: the lines to come stay the same.\<close>

lemma read_script_data:
  assumes "one_line buf" and "read_script rs (buf, ls) = (rv, rs', buf', ls')"
  shows "one_line buf'"
    and "ls' @ fst (split_lines (buf' @ script_data rs')) = ls @ fst (split_lines (buf @ script_data rs))"
    and "snd (split_lines (buf' @ script_data rs')) = snd (split_lines (buf @ script_data rs))"
proof -
  have "one_line buf' \<and>
    ls' @ fst (split_lines (buf' @ script_data rs')) = ls @ fst (split_lines (buf @ script_data rs)) \<and>
    snd (split_lines (buf' @ script_data rs')) = snd (split_lines (buf @ script_data rs))"
    using assms
  proof (induction rs "(buf, ls)" arbitrary: buf ls rule: read_script.induct)
    case (3 b rs)
    show ?case
    proof (cases "b = []")
      case False
      obtain buf1 ls1 where a: "absorb b (buf, ls) = (buf1, ls1)" by (cases "absorb b (buf, ls)")
      with 3 False have "read_script rs (buf1, ls1) = (rv, rs', buf', ls')" by auto
      moreover have "one_line buf1" using absorb_split(1) [OF \<open>one_line buf\<close>, of b ls] a by simp
      ultimately show ?thesis
        using "3.hyps" False a absorb_split(2,3) [OF \<open>one_line buf\<close>, of b ls "script_data rs"] by simp
    qed (use 3 in auto)
  qed auto
  then show "one_line buf'"
    and "ls' @ fst (split_lines (buf' @ script_data rs')) = ls @ fst (split_lines (buf @ script_data rs))"
    and "snd (split_lines (buf' @ script_data rs')) = snd (split_lines (buf @ script_data rs))"
    by blast+
qed

lemma read_script_live:
  assumes "live_script rs" and "read_script rs s = (rv, rs', buf', ls')"
  shows "live_script rs' \<and> (rv = RecvError Interrupted \<or> rv = RecvError WouldBlock \<and> rs' = [])"
  using assms by (induction rs s rule: read_script.induct) auto

definition conn_live :: "conn \<Rightarrow> bool" where
  "conn_live c \<longleftrightarrow> sock_open c \<and> live_script (incoming c) \<and> one_line (inbuf c)"

text \<open>The lines not yet delivered, and the incomplete line after them.\<close>

definition todo :: "conn \<Rightarrow> string list" where
  "todo c = newlines c @ fst (split_lines (inbuf c @ script_data (incoming c)))"

definition rest_of :: "conn \<Rightarrow> string" where
  "rest_of c = snd (split_lines (inbuf c @ script_data (incoming c)))"

definition same_output :: "conn \<Rightarrow> conn \<Rightarrow> bool" where
  "same_output c c' \<longleftrightarrow> outbuf c' = outbuf c \<and> wire c' = wire c \<and> sends c' = sends c \<and> selects c' = selects c"

lemma same_output_refl [simp]: "same_output c c"
  by (simp add: same_output_def)

lemma readSocket_data:
  assumes "one_line (inbuf c)" and "readSocket c = (rv, c1)"
  shows "one_line (inbuf c1)" and "todo c1 = todo c" and "rest_of c1 = rest_of c" and "same_output c c1"
proof -
  obtain rv' rs' buf' ls' where r: "read_script (incoming c) (inbuf c, newlines c) = (rv', rs', buf', ls')"
    by (metis prod_cases4)
  then have c1: "c1 = c \<or> c1 = c\<lparr>incoming := rs', inbuf := buf', newlines := ls'\<rparr>"
    using assms(2) by (auto simp: readSocket_def split: if_splits)
  show "one_line (inbuf c1)" "todo c1 = todo c" "rest_of c1 = rest_of c" "same_output c c1"
    using c1 assms(1) read_script_data [OF assms(1) r] by (auto simp: todo_def rest_of_def same_output_def)
qed

lemma readSocket_live:
  assumes "conn_live c" and "readSocket c = (rv, c1)"
  shows "conn_live c1" and "todo c1 = todo c" and "rest_of c1 = rest_of c" and "same_output c c1"
    and "rv = RecvError Interrupted \<or> rv = RecvError WouldBlock \<and> incoming c1 = []"
proof -
  have one: "one_line (inbuf c)" using assms(1) by (simp add: conn_live_def)
  note data = readSocket_data [OF one assms(2)]
  show "todo c1 = todo c" "rest_of c1 = rest_of c" "same_output c c1" by (fact data)+
  obtain rv' rs' buf' ls' where r: "read_script (incoming c) (inbuf c, newlines c) = (rv', rs', buf', ls')"
    by (metis prod_cases4)
  with assms have c1: "rv' = rv" "c1 = c\<lparr>incoming := rs', inbuf := buf', newlines := ls'\<rparr>"
    by (auto simp: readSocket_def conn_live_def)
  show "conn_live c1" "rv = RecvError Interrupted \<or> rv = RecvError WouldBlock \<and> incoming c1 = []"
    using assms(1) data(1) read_script_live [OF _ r] by (auto simp: c1 conn_live_def)
qed

text \<open>
  A call on any socket, also on one that fails: the message it gives is the first nonempty line
  to come, and without a message the nonempty lines to come stay the same.
\<close>

definition pending :: "conn \<Rightarrow> string list" where
  "pending c = filter (\<lambda>l. l \<noteq> []) (todo c)"

definition takes_message :: "conn \<Rightarrow> IOStatus \<times> string \<times> conn \<Rightarrow> bool" where
  "takes_message c res \<longleftrightarrow> (case res of (status, msg, c') \<Rightarrow>
     one_line (inbuf c') \<and> rest_of c' = rest_of c \<and> same_output c c' \<and>
     pending c = (if status = IO_OK then msg # pending c' else pending c'))"

lemma takes_message_cong:
  assumes "takes_message c1 res" and "pending c1 = pending c" and "rest_of c1 = rest_of c" and "same_output c c1"
  shows "takes_message c res"
  using assms by (cases res) (auto simp: takes_message_def same_output_def)

lemma get_raw_takes: "one_line (inbuf c) \<Longrightarrow> takes_message c (get_raw fresh c)"
proof (induction fresh c rule: get_raw.induct)
  case (1 fresh c)
  show ?case
  proof (cases fresh)
    case True
    show ?thesis
    proof (cases "newlines c")
      case Nil
      with True 1 show ?thesis by (simp add: get_raw.simps [of True c] get_raw.simps [of False c])
    next
      case (Cons l ls)
      define c1 where "c1 = c\<lparr>newlines := ls\<rparr>"
      have c1: "one_line (inbuf c1)" "todo c = l # todo c1" "rest_of c1 = rest_of c" "same_output c c1"
        using "1.prems" Cons by (simp_all add: c1_def todo_def rest_of_def same_output_def)
      show ?thesis
      proof (cases "l = []")
        case True
        with \<open>fresh\<close> Cons "1.IH"(2) c1(1) have "takes_message c1 (get_raw False c1)" by (simp add: c1_def)
        then have "takes_message c (get_raw False c1)"
          by (rule takes_message_cong) (use c1 True in \<open>simp_all add: pending_def\<close>)
        with \<open>fresh\<close> Cons True show ?thesis by (simp add: get_raw.simps [of True c] get_raw.simps [of False c] c1_def)
      next
        case False
        then have "get_raw fresh c = (IO_OK, l, c1)"
          using \<open>fresh\<close> Cons by (simp add: get_raw.simps [of True c] c1_def)
        with False c1 show ?thesis by (simp add: takes_message_def pending_def)
      qed
    qed
  next
    case False
    obtain rv c1 where r: "readSocket c = (rv, c1)" by (cases "readSocket c")
    note data = readSocket_data [OF "1.prems" r]
    have eq: "get_raw fresh c = (if newlines c1 \<noteq> [] then get_raw True c1
        else case rv of Bytes _ \<Rightarrow> (IO_ERR, [], c1\<lparr>sock_open := False\<rparr>)
          | RecvError WouldBlock \<Rightarrow> (IO_NOTYET, [], c1) | RecvError Interrupted \<Rightarrow> get_raw False c1
          | RecvError OtherError \<Rightarrow> (IO_ERR, [], c1))"
      using False r by (simp add: get_raw.simps [of False c])
    have again: "takes_message c res" if "takes_message c1 res" for res
      by (rule takes_message_cong [OF that]) (simp_all add: data pending_def)
    consider "newlines c1 \<noteq> []" | "newlines c1 = []" "rv = RecvError Interrupted"
      | (stop) "get_raw fresh c \<in> {(IO_ERR, [], c1\<lparr>sock_open := False\<rparr>), (IO_NOTYET, [], c1), (IO_ERR, [], c1)}"
      using eq by (fastforce split: recv_result.splits sockerr.splits)
    then show ?thesis
    proof cases
      case 1
      with False r "1.IH"(3) data(1) have "takes_message c1 (get_raw True c1)" by simp
      with 1 show ?thesis by (simp add: eq again)
    next
      case 2
      with False r "1.IH"(4) data(1) have "takes_message c1 (get_raw False c1)" by simp
      with 2 show ?thesis by (simp add: eq again)
    next
      case stop
      then have "takes_message c1 (get_raw fresh c)"
        using data(1) by (auto simp: takes_message_def pending_def todo_def rest_of_def same_output_def)
      then show ?thesis by (rule again)
    qed
  qed
qed

text \<open>One call: the first nonempty line still to be delivered, or nothing when there is none.\<close>

definition next_message :: "conn \<Rightarrow> IOStatus \<times> string \<times> conn \<Rightarrow> bool" where
  "next_message c res \<longleftrightarrow> (case res of (status, msg, c') \<Rightarrow>
     conn_live c' \<and> rest_of c' = rest_of c \<and> same_output c c' \<and>
     (case filter (\<lambda>l. l \<noteq> []) (todo c) of
        [] \<Rightarrow> status = IO_NOTYET \<and> todo c' = [] \<and> inbuf c' = rest_of c
      | l # ls \<Rightarrow> status = IO_OK \<and> msg = l \<and> filter (\<lambda>l. l \<noteq> []) (todo c') = ls))"

lemma next_message_cong:
  assumes "next_message c1 res" and "filter (\<lambda>l. l \<noteq> []) (todo c1) = filter (\<lambda>l. l \<noteq> []) (todo c)"
    and "rest_of c1 = rest_of c" and "same_output c c1"
  shows "next_message c res"
  using assms by (cases res) (auto simp: next_message_def same_output_def split: list.splits)

lemma get_raw_live: "conn_live c \<Longrightarrow> next_message c (get_raw fresh c)"
proof (induction fresh c rule: get_raw.induct)
  case (1 fresh c)
  show ?case
  proof (cases fresh)
    case True
    show ?thesis
    proof (cases "newlines c")
      case Nil
      with True 1 show ?thesis by (simp add: get_raw.simps [of True c] get_raw.simps [of False c])
    next
      case (Cons l ls)
      define c1 where "c1 = c\<lparr>newlines := ls\<rparr>"
      have c1: "conn_live c1" "todo c = l # todo c1" "rest_of c1 = rest_of c" "same_output c c1"
        using "1.prems" Cons by (simp_all add: c1_def conn_live_def todo_def rest_of_def same_output_def)
      show ?thesis
      proof (cases "l = []")
        case True
        with \<open>fresh\<close> Cons "1.IH"(2) c1(1) have "next_message c1 (get_raw False c1)" by (simp add: c1_def)
        then have "next_message c (get_raw False c1)"
          by (rule next_message_cong) (use c1 True in simp_all)
        with \<open>fresh\<close> Cons True show ?thesis by (simp add: get_raw.simps [of True c] get_raw.simps [of False c] c1_def)
      next
        case False
        with \<open>fresh\<close> Cons c1 show ?thesis
          by (simp add: get_raw.simps [of True c] get_raw.simps [of False c] next_message_def c1_def)
      qed
    qed
  next
    case False
    obtain rv c1 where r: "readSocket c = (rv, c1)" by (cases "readSocket c")
    note live = readSocket_live [OF "1.prems" r]
    have eq: "get_raw fresh c = (if newlines c1 \<noteq> [] then get_raw True c1
        else if rv = RecvError Interrupted then get_raw False c1 else (IO_NOTYET, [], c1))"
      using False r live(5) by (auto simp: get_raw.simps [of True c] get_raw.simps [of False c])
    consider "newlines c1 \<noteq> []" | "newlines c1 = []" "rv = RecvError Interrupted"
      | "newlines c1 = []" "rv = RecvError WouldBlock" "incoming c1 = []"
      using live(5) by blast
    then show ?thesis
    proof cases
      case 1
      with False r "1.IH"(3) live(1) have "next_message c1 (get_raw True c1)" by simp
      then show ?thesis using 1 live by (auto simp: eq intro: next_message_cong)
    next
      case 2
      with False r "1.IH"(4) live(1) have "next_message c1 (get_raw False c1)" by simp
      then show ?thesis using 2 live by (auto simp: eq intro: next_message_cong)
    next
      case 3
      have "one_line (inbuf c1)" using live(1) by (simp add: conn_live_def)
      with 3 have "todo c1 = []" "rest_of c1 = inbuf c1" by (simp_all add: todo_def rest_of_def)
      with 3 live show ?thesis by (simp add: eq next_message_def)
    qed
  qed
qed

text \<open>Taking messages until there is none.\<close>

fun take_messages :: "nat \<Rightarrow> conn \<Rightarrow> string list \<times> conn" where
  "take_messages 0 c = ([], c)"
| "take_messages (Suc n) c =
     (let (status, msg, c1) = getRawMessage c in
      if status = IO_OK then let (ms, c2) = take_messages n c1 in (msg # ms, c2) else ([], c1))"

lemma take_messages_live:
  assumes "conn_live c" and "length (filter (\<lambda>l. l \<noteq> []) (todo c)) < n"
  shows "\<exists>c'. take_messages n c = (filter (\<lambda>l. l \<noteq> []) (todo c), c') \<and>
    inbuf c' = rest_of c \<and> newlines c' = [] \<and> same_output c c'"
  using assms
proof (induction n arbitrary: c)
  case 0
  then show ?case by simp
next
  case (Suc n)
  obtain status msg c1 where r: "getRawMessage c = (status, msg, c1)" by (cases "getRawMessage c")
  have nm: "next_message c (status, msg, c1)"
    using get_raw_live [OF Suc.prems(1), of True] r by (simp add: getRawMessage_def)
  show ?case
  proof (cases "filter (\<lambda>l. l \<noteq> []) (todo c)")
    case Nil
    with nm have "status = IO_NOTYET" "todo c1 = []" "inbuf c1 = rest_of c" "same_output c c1"
      by (simp_all add: next_message_def)
    with r Nil show ?thesis by (simp add: todo_def)
  next
    case (Cons l ls)
    with nm have 1: "conn_live c1" "status = IO_OK" "msg = l" "filter (\<lambda>l. l \<noteq> []) (todo c1) = ls"
      "rest_of c1 = rest_of c" "same_output c c1"
      by (simp_all add: next_message_def)
    with Suc.prems(2) Cons Suc.IH [OF 1(1)] obtain c' where
      "take_messages n c1 = (ls, c')" "inbuf c' = rest_of c" "newlines c' = []" "same_output c1 c'"
      by auto
    with r Cons 1 show ?thesis by (auto simp: same_output_def)
  qed
qed

section \<open>Flushing\<close>

lemma send_loop_conserves:
  "send_loop rs data = (r, d, rest, rs') \<Longrightarrow> d @ rest = data \<and> (r = 0 \<or> r = -1)"
proof (induction rs data arbitrary: r d rest rs' rule: send_loop.induct)
  case (3 n rs c data)
  show ?case
  proof (cases "n = 0")
    case False
    obtain r1 d1 e1 s1 where s: "send_loop rs (drop n (c # data)) = (r1, d1, e1, s1)"
      by (metis prod_cases4)
    with "3.IH" [OF False s] "3.prems" False show ?thesis by auto
  qed (use 3 in auto)
next
  case (4 e rs c data)
  then show ?case by (cases e) auto
qed auto

lemma flushBuffer_conserves:
  assumes "flushBuffer c = (r, c')"
  shows "wire c' @ outbuf c' = wire c @ outbuf c" and "r = 0 \<or> r = -1" and "sock_open c' = sock_open c"
proof -
  obtain r1 d e s where s: "send_loop (sends c) (outbuf c) = (r1, d, e, s)" by (metis prod_cases4)
  with send_loop_conserves [OF s] assms
  show "wire c' @ outbuf c' = wire c @ outbuf c" "r = 0 \<or> r = -1" "sock_open c' = sock_open c"
    by (auto simp: flushBuffer_def split: if_splits)
qed

lemma flush_block_conserves:
  "flush_block sels c = Inr (r, c') \<Longrightarrow>
    wire c' @ outbuf c' = wire c @ outbuf c \<and> (r = 0 \<longrightarrow> outbuf c' = []) \<and> (r = 0 \<or> r = -1)"
proof (induction sels c rule: flush_block.induct)
  case (1 sels c)
  show ?case
  proof (cases "outbuf c = [] \<or> \<not> sock_open c \<or> sels = []")
    case True
    with "1.prems" show ?thesis by (auto simp: flush_block.simps [of "[]" c] flush_block.simps [of sels c] split: if_splits list.splits)
  next
    case False
    then obtain s rest where sels: "sels = s # rest" by (cases sels) auto
    show ?thesis
    proof (cases s)
      case Writable
      obtain r1 c1 where f: "flushBuffer c = (r1, c1)" by (cases "flushBuffer c")
      note fl = flushBuffer_conserves [OF f]
      show ?thesis
      proof (cases "r1 = -1")
        case True
        with False sels Writable f fl "1.prems" show ?thesis by (auto simp: flush_block.simps [of "Writable # rest" c])
      next
        case r1: False
        with False sels Writable f "1.prems" have "flush_block rest c1 = Inr (r, c')"
          by (simp add: flush_block.simps [of "Writable # rest" c])
        with "1.IH"(1) False sels Writable f r1 fl show ?thesis by simp
      qed
    next
      case (SelectError e)
      note sel = SelectError
      show ?thesis
      proof (cases "e = Interrupted")
        case True
        with False sels sel "1.prems" have "flush_block rest c = Inr (r, c')"
          by (simp add: flush_block.simps [of "SelectError Interrupted # rest" c])
        with "1.IH"(2) False sels sel True show ?thesis by simp
      next
        case other: False
        with False sels sel "1.prems" show ?thesis
          by (auto simp: flush_block.simps [of "SelectError e # rest" c])
      qed
    qed
  qed
qed

text \<open>A flush that comes to an end in the send loop alone: the calls of \<open>send\<close> take everything.\<close>

definition takes :: "send_result list \<Rightarrow> nat" where
  "takes rs = length (filter (\<lambda>r. case r of Taken n \<Rightarrow> True | SendError _ \<Rightarrow> False) rs)"

definition blocks :: "send_result list \<Rightarrow> nat" where
  "blocks rs = length (filter (\<lambda>r. r = SendError WouldBlock) rs)"

definition good_sends :: "send_result list \<Rightarrow> bool" where
  "good_sends rs \<longleftrightarrow> (\<forall>r \<in> set rs. case r of Taken n \<Rightarrow> 0 < n | SendError e \<Rightarrow> e \<noteq> OtherError)"

lemma sends_simps [simp]:
  "takes [] = 0" "takes (Taken n # rs) = Suc (takes rs)" "takes (SendError e # rs) = takes rs"
  "blocks [] = 0" "blocks (Taken n # rs) = blocks rs"
  "blocks (SendError e # rs) = (if e = WouldBlock then Suc (blocks rs) else blocks rs)"
  "good_sends []" "good_sends (Taken n # rs) \<longleftrightarrow> 0 < n \<and> good_sends rs"
  "good_sends (SendError e # rs) \<longleftrightarrow> e \<noteq> OtherError \<and> good_sends rs"
  by (auto simp: takes_def blocks_def good_sends_def)

lemma send_loop_good:
  assumes "good_sends rs" and "length data \<le> takes rs" and "send_loop rs data = (r, d, rest, rs')"
  shows "r = 0 \<and> good_sends rs' \<and> length rest \<le> takes rs' \<and> d @ rest = data \<and>
    (rest = [] \<or> blocks rs' < blocks rs) \<and> blocks rs' \<le> blocks rs"
  using assms
proof (induction rs data arbitrary: r d rest rs' rule: send_loop.induct)
  case (3 n rs c data)
  obtain r1 d1 e1 s1 where s: "send_loop rs (drop n (c # data)) = (r1, d1, e1, s1)"
    by (metis prod_cases4)
  from 3 have n: "n \<noteq> 0" "good_sends rs" "length (drop n (c # data)) \<le> takes rs" by auto
  from "3.IH" [OF n s] "3.prems" s n show ?case by auto
next
  case (4 e rs c data)
  then show ?case by (cases e) auto
qed auto

lemma flush_block_delivers:
  assumes "sock_open c" and "good_sends (sends c)" and "length (outbuf c) \<le> takes (sends c)"
    and "\<forall>s \<in> set sels. s = Writable \<or> s = SelectError Interrupted"
    and "blocks (sends c) < count_list sels Writable"
  shows "\<exists>c'. flush_block sels c = Inr (0, c') \<and> outbuf c' = []"
  using assms
proof (induction sels arbitrary: c)
  case Nil
  then show ?case by simp
next
  case (Cons s sels)
  show ?case
  proof (cases "outbuf c = []")
    case True
    then show ?thesis by (simp add: flush_block.simps [of "s # sels" c])
  next
    case False
    show ?thesis
    proof (cases "s = Writable")
      case True
      obtain r1 d e rs where sl: "send_loop (sends c) (outbuf c) = (r1, d, e, rs)" by (metis prod_cases4)
      note g = send_loop_good [OF Cons.prems(2,3) sl]
      define c1 where "c1 = c\<lparr>outbuf := e, wire := wire c @ d, sends := rs\<rparr>"
      have eq: "flush_block (s # sels) c = flush_block sels c1"
        using True False Cons.prems(1) sl g
        by (simp add: flush_block.simps [of "Writable # sels" c] flushBuffer_def c1_def)
      show ?thesis
      proof (cases "e = []")
        case True
        then have "outbuf c1 = []" by (simp add: c1_def)
        then show ?thesis unfolding eq by (simp add: flush_block.simps [of sels c1])
      next
        case False
        with g Cons.prems \<open>s = Writable\<close> show ?thesis
          unfolding eq by (intro Cons.IH) (auto simp: c1_def)
      qed
    next
      case False
      with Cons.prems have "s = SelectError Interrupted" by auto
      with \<open>outbuf c \<noteq> []\<close> Cons.prems Cons.IH [of c] show ?thesis
        by (simp add: flush_block.simps [of "SelectError Interrupted # sels" c])
    qed
  qed
qed

section \<open>Properties\<close>

text \<open>
  C11: framing. When the peer sends the lines \<open>ls\<close> and the beginning \<open>r\<close> of another, cut into chunks
  of any size and with calls interrupted anywhere, the messages taken are exactly the nonempty
  lines, in order, and \<open>r\<close> stays in the buffer; nothing is written.
\<close>

theorem messages_framing:
  assumes "sock_open c" and "inbuf c = []" and "newlines c = []" and "live_script (incoming c)"
    and "script_data (incoming c) = unlines ls r" and "\<forall>l \<in> set ls. one_line l" and "one_line r"
    and "length ls < n"
  shows "\<exists>c'. take_messages n c = (filter (\<lambda>l. l \<noteq> []) ls, c') \<and> inbuf c' = r \<and> newlines c' = [] \<and>
    outbuf c' = outbuf c \<and> wire c' = wire c"
proof -
  have t: "todo c = ls" "rest_of c = r" and live: "conn_live c"
    using assms split_lines_unlines [OF assms(6,7)] by (simp_all add: todo_def rest_of_def conn_live_def)
  have "length (filter (\<lambda>l. l \<noteq> []) (todo c)) < n"
    using assms(8) length_filter_le [of "\<lambda>l. l \<noteq> []" ls] unfolding t by linarith
  from take_messages_live [OF live this] t show ?thesis by (auto simp: same_output_def)
qed

definition new_conn :: "recv_result list \<Rightarrow> conn" where
  "new_conn rs = \<lparr>inbuf = [], outbuf = [], newlines = [], sock_open = True, incoming = rs, sends = [],
     selects = [], wire = []\<rparr>"

lemma messages_framing_witness:
  "fst (take_messages 9 (new_conn [Bytes ''a'', RecvError Interrupted, Bytes ([CHR ''b'', newline, newline] @ ''c''),
     Bytes ([newline] @ ''d'')])) = [''ab'', ''c'']"
proof -
  define c where "c = new_conn [Bytes ''a'', RecvError Interrupted, Bytes ([CHR ''b'', newline, newline] @ ''c''),
     Bytes ([newline] @ ''d'')]"
  have h: "sock_open c" "inbuf c = []" "newlines c = []" "live_script (incoming c)"
    "script_data (incoming c) = unlines [''ab'', [], ''c''] ''d''" "\<forall>l \<in> set [''ab'', [], ''c'']. one_line l"
    "one_line ''d''" "length [''ab'', [], ''c''] < 9"
    by (simp_all add: c_def new_conn_def unlines_def newline_def)
  from messages_framing [OF h] show ?thesis unfolding c_def by auto
qed

text \<open>
  C25: flushing neither loses nor duplicates nor reorders a byte, also when it fails: what was sent
  followed by what waits stays the same; when the blocking flush reports success nothing waits.
\<close>

theorem flush_conserves:
  assumes "flushBufferBlock c = Inr (r, c')"
  shows "wire c' @ outbuf c' = wire c @ outbuf c \<and> r \<in> {0, -1} \<and> (r = 0 \<longrightarrow> outbuf c' = []) \<and>
    wire (snd (flushBuffer c)) @ outbuf (snd (flushBuffer c)) = wire c @ outbuf c"
proof -
  obtain r1 c1 where f: "flushBuffer c = (r1, c1)" by (cases "flushBuffer c")
  from flush_block_conserves [OF assms [unfolded flushBufferBlock_def]] flushBuffer_conserves(1) [OF f] f
  show ?thesis by auto
qed

definition full_conn :: "send_result list \<Rightarrow> select_result list \<Rightarrow> conn" where
  "full_conn ss sels = (new_conn [])\<lparr>outbuf := ''reply'', sends := ss, selects := sels\<rparr>"

lemma flush_conserves_witness:
  "\<exists>c'. flushBufferBlock (full_conn [Taken 2, SendError OtherError] [Writable]) = Inr (-1, c') \<and>
     wire c' @ outbuf c' = ''reply''"
proof -
  define c where "c = full_conn [Taken 2, SendError OtherError] [Writable]"
  have "\<exists>c'. flushBufferBlock c = Inr (-1, c')"
    by (simp add: c_def full_conn_def new_conn_def flushBufferBlock_def flush_block.simps flushBuffer_def)
  then obtain c' where "flushBufferBlock c = Inr (-1, c')" by blast
  with flush_conserves [OF this] show ?thesis by (auto simp: c_def full_conn_def new_conn_def)
qed

text \<open>
  C26: the blocking flush ends with every byte sent when the socket takes at least one byte per
  call that does not block, often enough, and becomes writable once more than it blocks.
\<close>

theorem flush_delivers:
  assumes "sock_open c" and "good_sends (sends c)" and "length (outbuf c) \<le> takes (sends c)"
    and "\<forall>s \<in> set (selects c). s = Writable \<or> s = SelectError Interrupted"
    and "blocks (sends c) < count_list (selects c) Writable"
  shows "\<exists>c'. flushBufferBlock c = Inr (0, c') \<and> outbuf c' = [] \<and> wire c' = wire c @ outbuf c"
proof -
  obtain c' where c': "flush_block (selects c) c = Inr (0, c')" "outbuf c' = []"
    using flush_block_delivers [OF assms] by blast
  with flush_block_conserves [OF c'(1)] show ?thesis by (auto simp: flushBufferBlock_def)
qed

lemma flush_delivers_witness:
  "\<exists>c'. flushBufferBlock (full_conn (SendError WouldBlock # replicate 5 (Taken 1)) [Writable, SelectError Interrupted, Writable])
     = Inr (0, c') \<and> outbuf c' = [] \<and> wire c' = ''reply''"
proof -
  define c where "c = full_conn (SendError WouldBlock # replicate 5 (Taken 1)) [Writable, SelectError Interrupted, Writable]"
  have h: "sock_open c" "good_sends (sends c)" "length (outbuf c) \<le> takes (sends c)"
    "\<forall>s \<in> set (selects c). s = Writable \<or> s = SelectError Interrupted"
    "blocks (sends c) < count_list (selects c) Writable"
    by (simp_all add: c_def full_conn_def new_conn_def numeral_eq_Suc)
  from flush_delivers [OF h] show ?thesis by (simp add: c_def full_conn_def new_conn_def)
qed

end
