(* ===== verification/Registry.thy ===== *)
theory Registry
  imports Datasets World IOProto
begin

text \<open>
  What the control thread and the workers share (the members of \<open>MainDispatch\<close> in
  \<open>src/IODispatch.h\<close> that have a mutex, the percentile factor and the flag of the collections):
  the map from handle numbers to workers, the map of named datasets, and the one cluster
  connection. A pointer that is null in a map is \<open>Some None\<close>; a worker is named by a number.
\<close>

section \<open>The shared state\<close>

record 'j shared =
  h2wmap :: "64 word \<Rightarrow> nat option option"
  dsmap :: "string \<Rightarrow> 'j Dataset option option"
  cluster_initialized :: bool
  g_pFactor :: int
  collectionsGenerated :: bool

definition shared_new :: "'j shared" where
  "shared_new = \<lparr>h2wmap = (\<lambda>_. None), dsmap = (\<lambda>_. None), cluster_initialized = False,
     g_pFactor = 95, collectionsGenerated = False\<rparr>"

text \<open>How the cluster client answers: opening the cluster for an origin, opening a bucket.\<close>

record origin =
  o_connstr :: string
  o_username :: string
  o_password :: string

record cluster_env =
  open_cluster :: "origin \<Rightarrow> error_code"
  open_bucket :: "string \<Rightarrow> error_code"

section \<open>Operations\<close>

definition registerWDHandle :: "64 word \<Rightarrow> nat \<Rightarrow> 'j shared \<Rightarrow> 'j shared" where
  "registerWDHandle h_id d m = m\<lparr>h2wmap := (h2wmap m)(h_id := Some (Some d))\<rparr>"

definition unregisterWDHandle :: "64 word \<Rightarrow> 'j shared \<Rightarrow> 'j shared" where
  "unregisterWDHandle h_id m = m\<lparr>h2wmap := (h2wmap m)(h_id := None)\<rparr>"

text \<open>\<open>h2wmap[id]\<close>, which inserts a null pointer for an absent key.\<close>

definition h2wmap_at :: "64 word \<Rightarrow> 'j shared \<Rightarrow> nat option \<times> 'j shared" where
  "h2wmap_at h_id m =
     (case h2wmap m h_id of
        Some d \<Rightarrow> (d, m)
      | None \<Rightarrow> (None, m\<lparr>h2wmap := (h2wmap m)(h_id := Some None)\<rparr>))"

text \<open>
  Once the cluster is open a later origin or bucket is not looked at. The two calls with the
  callbacks they wait for are one step here; \<open>Threads\<close> takes them apart.
\<close>

definition ensureCluster :: "cluster_env \<Rightarrow> origin \<Rightarrow> string \<Rightarrow> 'j shared \<Rightarrow> error_code \<times> 'j shared" where
  "ensureCluster env orig buck m =
     (if cluster_initialized m then (None, m)
      else let err = open_cluster env orig;
               err2 = (if err = None then open_bucket env buck else err)
           in (err2, if err2 = None then m\<lparr>cluster_initialized := True\<rparr> else m))"

definition dsmap_at :: "string \<Rightarrow> 'j shared \<Rightarrow> 'j Dataset option \<times> 'j shared" where
  "dsmap_at dsid m =
     (case dsmap m dsid of
        Some d \<Rightarrow> (d, m)
      | None \<Rightarrow> (None, m\<lparr>dsmap := (dsmap m)(dsid := Some None)\<rparr>))"

definition getDatasetById :: "string \<Rightarrow> 'j shared \<Rightarrow> 'j Dataset option \<times> 'j shared" where
  "getDatasetById dsid m = dsmap_at dsid m"

lemmas registry_defs = registerWDHandle_def unregisterWDHandle_def h2wmap_at_def ensureCluster_def
  dsmap_at_def getDatasetById_def

text \<open>What a reader sees of the maps: a null pointer and an absent key are the same.\<close>

definition owners :: "'j shared \<Rightarrow> 64 word \<Rightarrow> nat option" where
  "owners m k = (case h2wmap m k of Some d \<Rightarrow> d | None \<Rightarrow> None)"

definition named :: "'j shared \<Rightarrow> string \<Rightarrow> 'j Dataset option" where
  "named m i = (case dsmap m i of Some d \<Rightarrow> d | None \<Rightarrow> None)"

lemma owners_updates [simp]:
  "owners (registerWDHandle h_id d m) = (owners m)(h_id \<mapsto> d)"
  "owners (unregisterWDHandle h_id m) = (owners m)(h_id := None)"
  "owners (snd (h2wmap_at h_id m)) = owners m" "fst (h2wmap_at h_id m) = owners m h_id"
  "owners (snd (dsmap_at dsid m)) = owners m" "owners (m\<lparr>dsmap := x\<rparr>) = owners m"
  "owners (m\<lparr>g_pFactor := p\<rparr>) = owners m" "owners (m\<lparr>collectionsGenerated := b\<rparr>) = owners m"
  by (auto simp: owners_def registry_defs split: option.splits)

lemma named_updates [simp]:
  "named (registerWDHandle h_id d m) = named m" "named (unregisterWDHandle h_id m) = named m"
  "named (snd (h2wmap_at h_id m)) = named m" "named (snd (dsmap_at dsid m)) = named m"
  "fst (dsmap_at dsid m) = named m dsid" "named (m\<lparr>g_pFactor := p\<rparr>) = named m"
  "named (m\<lparr>collectionsGenerated := b\<rparr>) = named m"
  by (auto simp: named_def registry_defs split: option.splits)

lemma ensureCluster_maps [simp]:
  "h2wmap (snd (ensureCluster env orig b m)) = h2wmap m"
  "owners (snd (ensureCluster env orig b m)) = owners m" "named (snd (ensureCluster env orig b m)) = named m"
  by (auto simp: ensureCluster_def owners_def named_def Let_def)

lemma new_maps [simp]: "owners shared_new = Map.empty" "named shared_new = Map.empty"
  by (auto simp: owners_def named_def shared_new_def)

end
