(* ===== verification/Executors.thy ===== *)
theory Executors
  imports Loaders "HOL-Library.Signed_Division"
begin

text \<open>
  The query executors (\<open>src/N1QLQueryExecutor.cpp\<close>, \<open>src/FTSQueryExecutor.cpp\<close>,
  \<open>src/CBASQueryExecutor.cpp\<close>, \<open>src/ViewExecutor.cpp\<close>): each repeats a query until another
  thread cancels the handle, so that every loop has fuel. The rows of a reply are only counted.
\<close>

section \<open>The loop of the executors\<close>

text \<open>
  \<open>while (!handle->isCancelled())\<close>; \<open>'g\<close> is what an executor keeps from one round to the next.
\<close>

type_synonym 'g round = "'g \<times> op_state \<Rightarrow> ('g \<times> op_state) run"

fun query_loop :: "world \<Rightarrow> 'g round \<Rightarrow> nat \<Rightarrow> 'g round" where
  "query_loop w body 0 s = Inl Running"
| "query_loop w body (Suc fuel) s =
     (let (b, st1) = poll_cancel w (snd s) in
      if b then Inr (fst s, st1)
      else rbind (body (fst s, st1)) (query_loop w body fuel))"

definition record_final :: "world \<Rightarrow> error_code \<Rightarrow> op_state \<Rightarrow> op_state run" where
  "record_final w err st =
     (let (tv, io1) = gettimeofday w (fst st)
      in rbind (setRescode_final err True tv (snd st)) (\<lambda>rs. Inr (io1, rs)))"

section \<open>N1QL queries\<close>

text \<open>
  \<open>istringstream(s) >> boolalpha >> b\<close>: at the end of the text the variable keeps what the memory
  held (\<open>u\<close>); any other text that is not \<open>true\<close> gives false.
\<close>

definition parse_boolalpha :: "bool \<Rightarrow> string \<Rightarrow> bool" where
  "parse_boolalpha u s =
     (let t = dropWhile is_space s in if t = [] then u else take 4 t = ''true'')"

record n1ql_config =
  n_consistency :: string
  n_index_type :: string
  n_prepared :: bool
  n_flex :: bool
  n_params :: "string list"
  n_values :: "string list"

text \<open>
  Reading the request. \<open>up\<close> and \<open>uf\<close> are the uninitialised \<open>prepared\<close> and \<open>flex\<close>; the handle's
  number is appended to the values, then a place for the round.
\<close>

definition n1ql_configure ::
    "'j json_api \<Rightarrow> 64 word \<Rightarrow> bool \<Rightarrow> bool \<Rightarrow> 'j Message \<Rightarrow> n1ql_config run" where
  "n1ql_configure J hid up uf req =
     (let p = payload req in
      rbind (rbind (jfield J p CBSDKD_MSGFLD_HANDLE_OPTIONS) (\<lambda>o'. jint J o' CBSDKD_MSGFLD_V_QDELAY)) (\<lambda>_.
      rbind (jstr J p CBSDKD_MSGFLD_NQ_SCANCONSISTENCY) (\<lambda>_.
      rbind (jstr J p CBSDKD_MSGFLD_NQ_INDEX_TYPE) (\<lambda>indexType.
      rbind (jstr J p CBSDKD_MSGFLD_NQ_INDEX_ENGINE) (\<lambda>_.
      rbind (jstr J p CBSDKD_MSGFLD_NQ_DEFAULT_INDEX_NAME) (\<lambda>_.
      rbind (jstr J p CBSDKD_MSGFLD_NQ_PREPARED) (\<lambda>preparedStr.
      rbind (jstr J p CBSDKD_MSGFLD_NQ_FLEX) (\<lambda>flexStr.
      rbind (jstr J p CBSDKD_MSGFLD_NQ_PARAM) (\<lambda>ps.
      rbind (jstr J p CBSDKD_MSGFLD_NQ_PARAMVALUES) (\<lambda>vs.
      rbind (jstr J p CBSDKD_MSGFLD_NQ_SCANCONSISTENCY) (\<lambda>scanConsistency.
      Inr \<lparr>n_consistency = scanConsistency, n_index_type = indexType,
           n_prepared = parse_boolalpha up preparedStr, n_flex = parse_boolalpha uf flexStr,
           n_params = split_nonempty ps CHR '','' [] @ [''handleid'', ''unique_id''],
           n_values = split_nonempty vs CHR '','' [] @
             [nat_to_string (unat hid), nat_to_string 0]\<rparr>)))))))))))"

text \<open>\<open>insertDoc\<close>: the answer, the io state and the tokens.\<close>

definition insertDoc ::
    "'j json_api \<Rightarrow> world \<Rightarrow> HandleOptions \<Rightarrow> 64 word \<Rightarrow> string list \<Rightarrow> string list \<Rightarrow> io \<times> nat list
      \<Rightarrow> (bool \<times> (io \<times> nat list)) run" where
  "insertDoc J w opts hid params paramValues s =
     (let (io, tokens) = s in
      rbind (jset J (j_null J) ''id'' (j_str J (nat_to_string (unat hid)))) (\<lambda>doc0.
      rbind (set_params J doc0 params paramValues) (\<lambda>doc.
      let val = j_write J doc in
      rbind (jstr J doc ''id'') (\<lambda>key.
      rbind (getCollection opts key) (\<lambda>collection.
      let (resp, io1) = execute w (UpsertReq (document_id_of opts key collection) val None) io
      in if resp_ec resp \<noteq> None then Inr (False, (io1, tokens))
         else Inr (True, (io1, tokens @ [resp_token resp])))))))"

text \<open>The loop over \<open>params\<close> and \<open>paramValues\<close> of a query with a secondary index.\<close>

fun where_clause :: "bool \<Rightarrow> string list \<Rightarrow> string list \<Rightarrow> string run" where
  "where_clause isFirst [] vs = Inr []"
| "where_clause isFirst (p # ps) [] = Inl BadAccess"
| "where_clause isFirst (p # ps) (v # vs) =
     rbind (where_clause False ps vs) (\<lambda>rest.
     Inr ((if isFirst then [] else '' and '') @ p @ ''='' @ [CHR 0x22] @ v @ [CHR 0x22, CHR '' ''] @ rest))"

definition n1ql_statement :: "HandleOptions \<Rightarrow> string \<Rightarrow> string list \<Rightarrow> string list \<Rightarrow> string run" where
  "n1ql_statement opts indexType params paramValues =
     (let q = ''select * from `'' @ (if useCollections opts then ''0'' else bucket opts) @ ''`''
      in if indexType = ''secondary''
         then rbind (where_clause True params paramValues) (\<lambda>c. Inr (q @ '' where '' @ c))
         else Inr q)"

definition n1ql_round ::
    "'j json_api \<Rightarrow> world \<Rightarrow> HandleOptions \<Rightarrow> 64 word \<Rightarrow> n1ql_config \<Rightarrow> (nat \<times> nat list) round" where
  "n1ql_round J w opts hid cfg s =
     (let ((ii, tokens), (io, rs)) = s; rs1 = rs\<lparr>query_resp_count := 0\<rparr>;
          vals = butlast (n_values cfg) @ [nat_to_string ii] in
      rbind (insertDoc J w opts hid (n_params cfg) vals (io, tokens)) (\<lambda>(_, (io1, tokens1)).
      let rs2 = rs1\<lparr>scan_consistency := n_consistency cfg\<rparr> in
      rbind (n1ql_statement opts (n_index_type cfg) (n_params cfg) vals) (\<lambda>q.
      let (io2, rs3) = io_markBegin w (io1, rs2);
          request = \<lparr>q_adhoc = \<not> n_prepared cfg, q_flex_index = n_flex cfg, q_bucket = bucket opts,
            q_statement = q, q_scope = (if useCollections opts then Some ''0'' else None),
            q_consistency = (if n_consistency cfg = ''request_plus'' then RequestPlus
              else if n_consistency cfg = ''at_plus'' then AtPlus tokens1 else NotBounded)\<rparr>;
          (resp, io3) = execute w (QueryReq request) io2
      in rbind (record_final w (resp_ec resp)
                  (io3, rs3\<lparr>query_resp_count := word_of_nat (resp_rows resp)\<rparr>)) (\<lambda>st'.
         Inr ((ii + 1, tokens1), st')))))"

definition N1QL_execute ::
    "'j json_api \<Rightarrow> world \<Rightarrow> HandleOptions \<Rightarrow> 64 word \<Rightarrow> bool \<Rightarrow> bool \<Rightarrow> nat \<Rightarrow> 'j Message \<Rightarrow> op_state
      \<Rightarrow> (bool \<times> op_state) run" where
  "N1QL_execute J w opts hid up uf fuel req st =
     rbind (n1ql_configure J hid up uf req) (\<lambda>cfg.
     rbind (query_loop w (n1ql_round J w opts hid cfg) fuel
              ((0, []), (externalEnter (fst st), clear_results (snd st)))) (\<lambda>(_, st').
     Inr (True, st')))"

section \<open>Full text search\<close>

text \<open>Conversions of a 64-bit number to \<open>int\<close>, and the wrapped value of \<open>int\<close> arithmetic.\<close>

definition to_int32 :: "int \<Rightarrow> int" where
  "to_int32 i = sint (word_of_int i :: 32 word)"


definition collectionsForSearch :: "int \<Rightarrow> string list" where
  "collectionsForSearch n = map int_to_string [0..n - 1]"

record fts_state =
  f_generator :: int
  f_collections :: int

definition search_collections :: "fts_state \<Rightarrow> string list" where
  "search_collections f = (if f_collections f \<noteq> 0 then collectionsForSearch (f_collections f) else [])"

definition runSearchOnPreloadedData ::
    "'j json_api \<Rightarrow> world \<Rightarrow> string \<Rightarrow> int \<Rightarrow> fts_state \<times> op_state \<Rightarrow> (error_code \<times> (fts_state \<times> op_state)) run" where
  "runSearchOnPreloadedData J w indexName kvCount s =
     (let (f, st) = s; (io, rs) = io_markBegin w st; rs1 = rs\<lparr>fts_query_resp_count := 0\<rparr> in
      rbind (require (to_int32 (2 * kvCount) \<noteq> 0) ArithTrap) (\<lambda>_.
      let g = to_int32 (f_generator f + 1) smod to_int32 (2 * kvCount); f1 = f\<lparr>f_generator := g\<rparr>;
          searchField = (if g smod 2 = 0 then ''SampleValue'' @ int_to_string (g sdiv 2)
                         else ''SampleSubvalue'' @ int_to_string (g sdiv 2)) in
      rbind (jset J (j_null J) ''match'' (j_str J searchField)) (\<lambda>query.
      let (resp, io1) = execute w (SearchReq \<lparr>s_index_name = indexName, s_query = j_write J query,
            s_collections = search_collections f1, s_mutation_state = []\<rparr>) io
      in Inr (resp_ec resp, (f1, (io1, rs1\<lparr>fts_query_resp_count := word_of_nat (resp_rows resp)\<rparr>))))))"

definition runSearchUnderAtPlusConsistency ::
    "'j json_api \<Rightarrow> world \<Rightarrow> HandleOptions \<Rightarrow> string \<Rightarrow> fts_state \<times> op_state
      \<Rightarrow> (error_code \<times> (fts_state \<times> op_state)) run" where
  "runSearchUnderAtPlusConsistency J w opts indexName s =
     (let (f, st) = s; (io, rs) = io_markBegin w st; rs1 = rs\<lparr>fts_query_resp_count := 0\<rparr>;
          g = f_generator f;
          match_term = ''SampleValue:'' @ thread_id w @ '':'' @ int_to_string g in
      rbind (jset J (j_null J) ''value'' (j_str J match_term)) (\<lambda>doc.
      let curv' = j_write J doc;
          curk' = ''key'' @ thread_id w @ '':'' @
            (if g smod 2 = 0 then int_to_string g else int_to_string (g sdiv 2)) in
      rbind (getCollection opts curk') (\<lambda>collection.
      let (resp, io1) = execute w (UpsertReq (document_id_of opts curk' collection) curv' None) io in
      if resp_ec resp \<noteq> None then Inr (resp_ec resp, (f, (io1, rs1)))
      else
        rbind (jset J (j_null J) ''match'' (j_str J match_term)) (\<lambda>query.
        let (resp2, io2) = execute w (SearchReq \<lparr>s_index_name = indexName, s_query = j_write J query,
              s_collections = search_collections f, s_mutation_state = [resp_token resp]\<rparr>) io1
        in Inr (resp_ec resp2, (f\<lparr>f_generator := to_int32 (g + 1)\<rparr>,
             (io2, rs1\<lparr>fts_query_resp_count := word_of_nat (resp_rows resp2)\<rparr>)))))))"

definition fts_round ::
    "'j json_api \<Rightarrow> world \<Rightarrow> HandleOptions \<Rightarrow> string \<Rightarrow> int \<Rightarrow> bool \<Rightarrow> fts_state round" where
  "fts_round J w opts indexName kvCount not_bounded s =
     rbind (if not_bounded then runSearchOnPreloadedData J w indexName kvCount s
            else runSearchUnderAtPlusConsistency J w opts indexName s) (\<lambda>(err, (f, st)).
     rbind (record_final w err st) (\<lambda>st'. Inr (f, st')))"

definition FTS_execute ::
    "'j json_api \<Rightarrow> world \<Rightarrow> HandleOptions \<Rightarrow> nat \<Rightarrow> 'j Message \<Rightarrow> op_state \<Rightarrow> (bool \<times> op_state) run" where
  "FTS_execute J w opts fuel req st =
     (let st0 = (externalEnter (fst st), clear_results (snd st)) in
      rbind (jstr J (payload req) CBSDKD_MSGFLD_FTS_INDEXNAME) (\<lambda>indexName.
      rbind (jint64 J (payload req) CBSDKD_MSGFLD_FTS_COUNT) (\<lambda>kvCount.
      rbind (jint64 J (payload req) CBSDKD_MSGFLD_FTS_COLLECTIONS) (\<lambda>ncolls.
      rbind (jfield J (payload req) CBSDKD_MSGFLD_FTS_CONSISTENCY) (\<lambda>c.
      rbind (throws ''Json'' (j_asCString J c)) (\<lambda>consistency.
      rbind (query_loop w
               (fts_round J w opts indexName (to_int32 kvCount) (c_string consistency \<noteq> ''at_plus'')) fuel
               (\<lparr>f_generator = 0, f_collections = to_int32 ncolls\<rparr>, st0)) (\<lambda>(_, st').
      Inr (True, st'))))))))"

section \<open>Analytics\<close>

definition cbas_statement :: "HandleOptions \<Rightarrow> int \<Rightarrow> string" where
  "cbas_statement opts g =
     (if useCollections opts
      then ''SELECT * FROM `0` where `0`.`value` = '' @ [CHR 0x27] @ ''SampleValue'' @ int_to_string g @ [CHR 0x27]
      else ''SELECT * FROM defaultDataSet where `value` = '' @ [CHR 0x27] @ ''SampleValue'' @ int_to_string g
             @ [CHR 0x27])"

text \<open>
  One round. The sum \<open>generator + 1\<close> is an \<open>int\<close>, the remainder is taken of \<open>unsigned int\<close>s; it
  comes after the query.
\<close>

definition cbas_round ::
    "world \<Rightarrow> HandleOptions \<Rightarrow> 32 word \<Rightarrow> int round" where
  "cbas_round w opts kvCount s =
     (let (g, (io, rs)) = s;
          (io1, rs1) = io_markBegin w (io, rs\<lparr>cbas_query_resp_count := 0\<rparr>);
          (resp, io2) = execute w (AnalyticsReq \<lparr>a_statement = cbas_statement opts g,
            a_bucket = bucket opts, a_scope = (if useCollections opts then Some ''0'' else None)\<rparr>) io1
      in rbind (record_final w (resp_ec resp)
                  (io2, rs1\<lparr>cbas_query_resp_count := word_of_nat (resp_rows resp)\<rparr>)) (\<lambda>st'.
         rbind (require (kvCount \<noteq> 0) ArithTrap) (\<lambda>_.
         Inr (sint (word_of_int (g + 1) mod kvCount), st'))))"

definition CBAS_execute ::
    "'j json_api \<Rightarrow> world \<Rightarrow> HandleOptions \<Rightarrow> nat \<Rightarrow> 'j Message \<Rightarrow> op_state \<Rightarrow> (bool \<times> op_state) run" where
  "CBAS_execute J w opts fuel req st =
     rbind (jint64 J (payload req) CBSDKD_MSGFLD_CBAS_COUNT) (\<lambda>kvCount.
     rbind (query_loop w (cbas_round w opts (word_of_int kvCount)) fuel
              (0, (externalEnter (fst st), clear_results (snd st)))) (\<lambda>(_, st').
     Inr (True, st')))"

section \<open>Views\<close>

definition view_round ::
    "world \<Rightarrow> HandleOptions \<Rightarrow> string \<Rightarrow> string \<Rightarrow> nat option \<Rightarrow> nat option \<Rightarrow> op_state \<Rightarrow> op_state run" where
  "view_round w opts dname vname vlimit skip st =
     (let (io1, rs1) = io_markBegin w (fst st, (snd st)\<lparr>vresp_complete := False\<rparr>);
          (resp, io2) = execute w (ViewReq \<lparr>v_bucket = bucket opts, v_document = dname,
            v_view = vname, v_limit = vlimit, v_skip = skip\<rparr>) io1
      in rescode_handler w (resp_ec resp) (io2, rs1))"

fun view_loop ::
    "world \<Rightarrow> (op_state \<Rightarrow> op_state run) \<Rightarrow> int \<Rightarrow> nat \<Rightarrow> int \<Rightarrow> op_state \<Rightarrow> op_state run" where
  "view_loop w body iterdelay 0 num_iterations st = Inl Running"
| "view_loop w body iterdelay (Suc fuel) num_iterations st =
     (let (b, st1) = poll_cancel w st in
      if b then Inr st1
      else rbind (body st1) (\<lambda>st2.
        if 0 \<le> num_iterations \<and> num_iterations - 1 \<le> 0 then Inr st2
        else view_loop w body iterdelay fuel
          (if 0 \<le> num_iterations then num_iterations - 1 else num_iterations)
          (if iterdelay \<noteq> 0 then (sdkd_millisleep (word_of_int iterdelay) (fst st2), snd st2) else st2)))"

definition optional_uint :: "'j json_api \<Rightarrow> 'j \<Rightarrow> string \<Rightarrow> nat option run" where
  "optional_uint J v k =
     rbind (jfield J v k) (\<lambda>x.
     if j_isUInt J x then rbind (throws ''Json'' (j_asUInt64 J x)) (\<lambda>n. Inr (Some n)) else Inr None)"

definition executeView ::
    "'j json_api \<Rightarrow> world \<Rightarrow> HandleOptions \<Rightarrow> nat \<Rightarrow> ResultOptions \<Rightarrow> 'j Message \<Rightarrow> op_state
      \<Rightarrow> (bool \<times> op_state) run" where
  "executeView J w opts fuel ropts req st =
     (let st1 = (fst st, clear_results ((snd st)\<lparr>options := ropts\<rparr>)) in
      rbind (jfield J (payload req) CBSDKD_MSGFLD_DSREQ_OPTS) (\<lambda>ctlopts.
      rbind (jfield J (payload req) CBSDKD_MSGFLD_V_QOPTS) (\<lambda>vqopts.
      rbind (jint J ctlopts CBSDKD_MSGFLD_V_QITERCOUNT) (\<lambda>num_iterations.
      rbind (jint J ctlopts CBSDKD_MSGFLD_V_QDELAY) (\<lambda>iterdelay.
      rbind (jstr J (payload req) CBSDKD_MSGFLD_V_DESNAME) (\<lambda>dname.
      rbind (jstr J (payload req) CBSDKD_MSGFLD_V_MRNAME) (\<lambda>vname.
      if dname = [] \<or> vname = [] then Inr (False, st1)
      else
        rbind (optional_uint J vqopts ''limit'') (\<lambda>vlimit.
        rbind (optional_uint J vqopts ''skip'') (\<lambda>skip.
        rbind (view_loop w (view_round w opts dname vname vlimit skip) iterdelay fuel num_iterations
                 (externalEnter (fst st1), snd st1)) (\<lambda>st'.
        Inr (True, st')))))))))))"

end
