(* ===== verification/Worker.thy ===== *)
theory Worker
  imports Registry Executors
begin

text \<open>
  A worker thread (\<open>WorkerDispatch\<close> in \<open>src/Worker.cpp\<close>): it serves one connection, opens at most
  one handle on it and runs one request at a time. Its state is the connection, the handle with
  its number, and what the handle's operations see of the outside world.
\<close>

section \<open>State\<close>

record worker =
  w_id :: nat
  w_conn :: conn
  w_io :: io
  cur_handle :: "HandleOptions option"
  cur_hid :: "64 word"

text \<open>
  What the constructors of a request find in memory: members no constructor sets, and the
  name \<open>mktemp\<close> returns for the certificate.
\<close>

record 'j memory =
  mem_msg :: "'j Message"
  mem_handle :: HandleOptions
  mem_results :: ResultSet
  mem_flags :: "32 word"
  mem_index :: "32 word"
  mem_prepared :: bool
  mem_flex :: bool
  mem_path :: "string option"

text \<open>The outside world of a worker: JSON library, cluster client, memory, fuel for the loops.\<close>

record 'j surroundings =
  e_json :: "'j json_api"
  e_world :: world
  e_cluster :: cluster_env
  e_memory :: "'j memory"
  e_fuel :: nat

type_synonym 'j worker_state = "worker \<times> 'j shared"

definition WorkerDispatch_new :: "nat \<Rightarrow> conn \<Rightarrow> worker" where
  "WorkerDispatch_new n c = \<lparr>w_id = n, w_conn = c, w_io = io_start, cur_handle = None, cur_hid = 0\<rparr>"

definition respond ::
    "'j json_api \<Rightarrow> 'j Response \<Rightarrow> 'j worker_state \<Rightarrow> 'j worker_state run" where
  "respond J res s = rbind (writeResponse J res (w_conn (fst s))) (\<lambda>c. Inr ((fst s)\<lparr>w_conn := c\<rparr>, snd s))"

section \<open>Opening a handle\<close>

definition connstr_of :: "HandleOptions \<Rightarrow> string" where
  "connstr_of o' =
     (if useSSL o' then ''couchbases://'' @ hostname o' @ ''?certpath='' @ certpath o'
      else ''couchbase://'' @ hostname o')"

text \<open>
  The new handle: it has no pending futures, and its options are the ones of the request.
\<close>

definition open_handle ::
    "world \<Rightarrow> HandleOptions \<Rightarrow> 64 word \<Rightarrow> 'j worker_state \<Rightarrow> 'j worker_state" where
  "open_handle w hOpts hid s =
     (let (wk, m) = s;
          m1 = registerWDHandle hid (w_id wk) m;
          (_, (flag, io)) = generateCollections w hOpts
            (collectionsGenerated m1, (w_io wk)\<lparr>pending_futures := []\<rparr>)
      in (wk\<lparr>cur_handle := Some hOpts, cur_hid := hid, w_io := io\<rparr>, m1\<lparr>collectionsGenerated := flag\<rparr>))"

definition try_handle ::
    "'j surroundings \<Rightarrow> 'j Message \<Rightarrow> HandleOptions \<Rightarrow> 'j worker_state \<Rightarrow> Error \<times> 'j worker_state" where
  "try_handle E req hOpts s =
     (if \<not> HandleOptions_isValid hOpts
      then (Error_of SUBSYSf_SDKD SDKD_EINVAL ''Problem with handle input'', s)
      else if cur_handle (fst s) \<noteq> None
      then (Error_of SUBSYSf_SDKD SDKD_EINVAL ''Handle already exists!'', s)
      else
        let orig = \<lparr>o_connstr = connstr_of hOpts, o_username = username hOpts, o_password = password hOpts\<rparr>;
            (e, m) = ensureCluster (e_cluster E) orig (bucket hOpts) (snd s)
        in case e of
             Some msg \<Rightarrow> ((Error_of_code 0 [])\<lparr>errstr := msg\<rparr>, (fst s, m))
           | None \<Rightarrow> (Error_of_code 0 [], open_handle (e_world E) hOpts (handle_id req) (fst s, m)))"

definition initializeHandle ::
    "'j surroundings \<Rightarrow> 'j Message \<Rightarrow> 'j worker_state \<Rightarrow> (bool \<times> 'j worker_state) run" where
  "initializeHandle E req s =
     rbind (HandleOptions_new (e_json E) (mem_path (e_memory E)) (mem_handle (e_memory E)) (payload req)) (\<lambda>hOpts.
     let (err, s1) = try_handle E req hOpts s in
     rbind (respond (e_json E) (Response_new (e_json E) req (if is_error err then err else Error_new)) s1) (\<lambda>s2.
     Inr (True, s2)))"

section \<open>One request\<close>

definition no_dataset_commands :: "Code list" where
  "no_dataset_commands = [CB_VIEW_QUERY, CB_N1QL_QUERY, CB_N1QL_CREATE_INDEX, CB_FTS_QUERY, CB_AS_QUERY]"

text \<open>
  Finding the dataset: an error to report, or the dataset with its type. A dataset that cannot
  be parsed aborts the process.
\<close>

definition find_dataset ::
    "'j surroundings \<Rightarrow> 'j Message \<Rightarrow> 'j shared \<Rightarrow> ((Error + Type \<times> 'j Dataset) \<times> 'j shared) run" where
  "find_dataset E req m =
     (let J = e_json E in
      rbind (determineType J req []) (\<lambda>(dstype, refid).
      if dstype = DSTYPE_INVALID then Inl Aborted
      else if dstype = DSTYPE_REFERENCE then
        (case getDatasetById refid m of
           (None, m1) \<Rightarrow> Inr (Inl (setString ''Couldn't find dataset''
             (setCode (SUBSYSf_SDKD OR SDKD_ENODS) Error_new)), m1)
         | (Some ds, m1) \<Rightarrow> Inr (Inr (dstype, ds), m1))
      else
        rbind (fromType J dstype req) (\<lambda>r.
        case r of
          None \<Rightarrow> Inr (Inl (setString ''Bad dataset parameters''
            (setCode (SUBSYSf_SDKD OR SDKD_EINVAL) Error_new)), m)
        | Some ds \<Rightarrow> Inr (Inr (dstype, ds), m))))"

definition continuous_spec :: "'j Dataset \<Rightarrow> bool" where
  "continuous_spec ds = (case ds_body ds of Seeded spec \<Rightarrow> seed_continuous spec | _ \<Rightarrow> False)"

text \<open>
  The dispatch: \<open>None\<close> when the command is not implemented. A command that needs a dataset
  dereferences the pointer to it.
\<close>

definition deref :: "'j Dataset option \<Rightarrow> 'j Dataset run" where
  "deref d = (case d of None \<Rightarrow> Inl BadAccess | Some ds \<Rightarrow> Inr ds)"

definition run_command ::
    "'j surroundings \<Rightarrow> HandleOptions \<Rightarrow> 64 word \<Rightarrow> 'j Message \<Rightarrow> 'j Dataset option \<Rightarrow> ResultOptions
      \<Rightarrow> op_state \<Rightarrow> op_state run option" where
  "run_command E h hid req d opts st =
     (let J = e_json E; w = e_world E; u = mem_index (e_memory E); fuel = e_fuel E;
          c = cmd_code (command req);
          bulk = (\<lambda>f. Some (rbind (deref d) (\<lambda>ds. rbind (f ds) (\<lambda>(_, st'). Inr st'))));
          load = (\<lambda>f. Some (rbind (deref d) (\<lambda>ds. rbind (f ds (fst st)) (\<lambda>(_, io'). Inr (io', snd st)))));
          query = (\<lambda>m. Some (rbind m (\<lambda>(_, st'). Inr st')))
      in if c \<in> {MC_DS_DELETE, MC_DS_TOUCH} then bulk (\<lambda>ds. dsKeyop J w h u fuel (command req) ds opts st)
      else if c \<in> {MC_DS_MUTATE_ADD, MC_DS_MUTATE_REPLACE, MC_DS_MUTATE_APPEND, MC_DS_MUTATE_PREPEND, MC_DS_MUTATE_SET}
        then bulk (\<lambda>ds. dsMutate J w h u fuel (command req) ds opts st)
      else if c = MC_DS_GET then bulk (\<lambda>ds. dsGet J w h u fuel ds opts st)
      else if c = MC_DS_SD_RUN then bulk (\<lambda>ds. dsSDSinglePath J w h u fuel ds opts st)
      else if c = MC_DS_SD_LOAD then load (SDLoader_populate J w h u fuel)
      else if c = CB_VIEW_LOAD then bulk (\<lambda>ds. populateViewData J w h u fuel ds opts req st)
      else if c = CB_VIEW_QUERY then query (executeView J w h fuel opts req st)
      else if c = CB_N1QL_LOAD then load (N1QLLoader_populate J w h u fuel)
      else if c = CB_N1QL_QUERY then
        query (N1QL_execute J w h hid (mem_prepared (e_memory E)) (mem_flex (e_memory E)) fuel req st)
      else if c = CB_FTS_LOAD then load (FTSLoader_populate J w h u fuel)
      else if c = CB_FTS_QUERY then query (FTS_execute J w h fuel req st)
      else if c = CB_AS_LOAD then load (CBASLoader_populate J w h u fuel)
      else if c = CB_AS_QUERY then query (CBAS_execute J w h fuel req st)
      else None)"

text \<open>The answer after an operation: its error, or the report of the result set.\<close>

definition report ::
    "'j surroundings \<Rightarrow> 'j Message \<Rightarrow> int \<Rightarrow> op_state \<Rightarrow> 'j worker_state \<Rightarrow> 'j worker_state run" where
  "report E req pFactor st s =
     (let J = e_json E; s1 = ((fst s)\<lparr>w_io := fst st\<rparr>, snd s) in
      if is_error (oper_error (snd st))
      then respond J (Response_new J req (oper_error (snd st))) s1
      else rbind (resultsJson J pFactor (snd st) (j_null J)) (\<lambda>root.
           respond J (setResponseData root (Response_new J req Error_new)) s1))"

text \<open>With the dataset found, or none needed: the options, the sanity check, the dispatch.\<close>

definition run_request ::
    "'j surroundings \<Rightarrow> HandleOptions \<Rightarrow> 'j Message \<Rightarrow> (Type \<times> 'j Dataset) option \<Rightarrow> 'j worker_state
      \<Rightarrow> (bool \<times> 'j worker_state) run" where
  "run_request E h req d s =
     (let J = e_json E; (rs, pFactor) = ResultSet_new (g_pFactor (snd s)) (mem_results (e_memory E)) in
      rbind (jfield J (payload req) ''Options'') (\<lambda>o'.
      rbind (ResultOptions_of_json J (mem_flags (e_memory E)) o') (\<lambda>opts.
      if (case d of Some (t, ds) \<Rightarrow> t = DSTYPE_SEEDED \<and> iterwait opts = 0 \<and> continuous_spec ds | None \<Rightarrow> False)
      then rbind (respond J (Response_new J req (Error_of SUBSYSf_SDKD SDKD_EINVAL
             ''Continuous must be used with IterWait'')) s) (\<lambda>s1. Inr (True, s1))
      else
        (case run_command E h (cur_hid (fst s)) req (map_option snd d) opts (w_io (fst s), rs) of
           None \<Rightarrow> rbind (respond J (Response_new J req (Error_of SUBSYSf_SDKD SDKD_ENOIMPL [])) s) (\<lambda>s1.
             Inr (True, s1))
         | Some m \<Rightarrow> rbind m (\<lambda>st. rbind (report E req pFactor st s) (\<lambda>s1. Inr (True, s1)))))))"

definition processRequest ::
    "'j surroundings \<Rightarrow> 'j Message \<Rightarrow> 'j worker_state \<Rightarrow> (bool \<times> 'j worker_state) run" where
  "processRequest E req s =
     (let J = e_json E in
      if \<not> Request_isValid req then Inr (False, s)
      else if cmd_code (command req) = CLOSEHANDLE then Inr (False, s)
      else if cmd_code (command req) = NEWHANDLE then initializeHandle E req s
      else case cur_handle (fst s) of
        None \<Rightarrow> rbind (respond J (Response_new J req (Error_of SUBSYSf_SDKD SDKD_ENOHANDLE
          ''No handle created yet'')) s) (\<lambda>s1. Inr (True, s1))
      | Some h \<Rightarrow>
          if cmd_code (command req) \<in> set no_dataset_commands then run_request E h req None s
          else rbind (find_dataset E req (snd s)) (\<lambda>(r, m).
            case r of
              Inl e \<Rightarrow> rbind (respond J (Response_new J req e) (fst s, m)) (\<lambda>s1. Inr (True, s1))
            | Inr d \<Rightarrow> run_request E h req (Some d) (fst s, m)))"

section \<open>The loop\<close>

text \<open>
  What \<open>select\<close> reports: an error, nothing, or the sets the socket is in: except, write, read.
\<close>

datatype select_event = SelectFailed sockerr | SelectNothing | SelectReady bool bool bool

definition worker_read ::
    "'j surroundings \<Rightarrow> 'j worker_state \<Rightarrow> (bool \<times> 'j worker_state) run" where
  "worker_read E s =
     rbind (readRequest (e_json E) (mem_msg (e_memory E)) (w_conn (fst s))) (\<lambda>(rv, reqp, c).
     let s1 = ((fst s)\<lparr>w_conn := c\<rparr>, snd s) in
     if rv = -1 then Inr (False, s1)
     else if rv = 0 then Inr (True, s1)
     else case reqp of Live req \<Rightarrow> processRequest E req s1 | _ \<Rightarrow> Inl BadAccess)"

definition selectLoop ::
    "'j surroundings \<Rightarrow> select_event \<Rightarrow> 'j worker_state \<Rightarrow> (bool \<times> 'j worker_state) run" where
  "selectLoop E ev s =
     rbind (setupFdSets (w_conn (fst s))) (\<lambda>wants_write.
     case ev of
       SelectFailed e \<Rightarrow> Inr (e = Interrupted, s)
     | SelectNothing \<Rightarrow> Inr (False, s)
     | SelectReady exc wr rd \<Rightarrow>
         if exc then Inr (False, s)
         else
           let (r, c) = (if wr \<and> wants_write then flushBuffer (w_conn (fst s)) else (0, w_conn (fst s)));
               s1 = ((fst s)\<lparr>w_conn := c\<rparr>, snd s)
           in if r = -1 then Inr (False, s1)
              else if rd then worker_read E s1
              else Inr (True, s1))"

text \<open>\<open>while (selectLoop())\<close>; without another event the thread waits in \<open>select\<close>.\<close>

fun select_loops :: "'j surroundings \<Rightarrow> select_event list \<Rightarrow> 'j worker_state \<Rightarrow> 'j worker_state run" where
  "select_loops E [] s = Inl Running"
| "select_loops E (ev # evs) s =
     rbind (selectLoop E ev s) (\<lambda>(go, s1). if go then select_loops E evs s1 else Inr s1)"

text \<open>\<open>run\<close>, and the file the end of the handle removes.\<close>

definition cancelCurrentHandle :: "worker \<Rightarrow> worker \<times> string option" where
  "cancelCurrentHandle wk =
     (if cur_handle wk = None then (wk, None)
      else let (io, f) = cancelCurrent [] (w_io wk) in (wk\<lparr>w_io := io\<rparr>, f))"

text \<open>What \<open>run\<close> does after its loop.\<close>

definition worker_end :: "'j worker_state \<Rightarrow> 'j worker_state run" where
  "worker_end s =
     rbind (flushBufferBlock (w_conn (fst s))) (\<lambda>(_, c).
     let wk = (fst s)\<lparr>w_conn := c\<rparr>;
         (wk1, m1) = (if cur_hid wk \<noteq> 0 then (wk\<lparr>cur_hid := 0\<rparr>, unregisterWDHandle (cur_hid wk) (snd s))
                      else (wk, snd s));
         (wk2, _) = cancelCurrentHandle wk1
     in Inr (wk2\<lparr>cur_handle := None\<rparr>, m1))"

definition worker_run ::
    "'j surroundings \<Rightarrow> select_event list \<Rightarrow> 'j worker_state \<Rightarrow> 'j worker_state run" where
  "worker_run E evs s = rbind (select_loops E evs s) worker_end"

end
