(* ===== verification/Reports.thy ===== *)
theory Reports
  imports ResultStats Json_Ref
begin

text \<open>
  The JSON report of a result set: it can be built for every factor that keeps the percentile
  of each window in range, and what a reader finds in it.
\<close>

text \<open>
  What a reader finds. The counters of a map, one member for each key, and nothing else; the entry
  of a window; and the whole report.
\<close>

definition reads_counts :: "'j json_api \<Rightarrow> 'j \<Rightarrow> (string \<times> int) list \<Rightarrow> bool" where
  "reads_counts J v m \<longleftrightarrow>
     (\<forall>k. j_get J v k = Some (case map_of (rev m) k of Some n \<Rightarrow> j_int J n | None \<Rightarrow> j_null J))"

definition reads_window :: "'j json_api \<Rightarrow> int \<Rightarrow> TimeWindow \<Rightarrow> 'j \<Rightarrow> bool" where
  "reads_window J p w v \<longleftrightarrow>
     j_get J v ''Count'' = Some (j_int J (uint (count w))) \<and>
     j_get J v ''Min'' = Some (j_int J (uint (time_min w))) \<and>
     j_get J v ''Max'' = Some (j_int J (uint (time_max w))) \<and>
     j_get J v ''Avg'' = Some (j_int J (if count w = 0 then 0 else uint (time_total w) div uint (count w))) \<and>
     (\<exists>e. j_get J v ''Errors'' = Some e \<and> reads_counts J e (ec w)) \<and>
     (\<exists>x. getPercentile p (durations w) = Inr x \<and> j_get J v ''Percentile'' = Some (j_int J x))"

definition reads_timings :: "'j json_api \<Rightarrow> int \<Rightarrow> ResultSet \<Rightarrow> 'j \<Rightarrow> bool" where
  "reads_timings J p rs t \<longleftrightarrow>
     j_get J t ''Base'' = Some (j_int J (int (win_begin rs))) \<and>
     j_get J t ''Step'' = Some (j_int J (uint (timeres (options rs)))) \<and>
     (\<exists>ws. j_get J t ''Windows'' = Some ws \<and> list_all2 (reads_window J p) (timestats rs) (j_elems J ws))"

context json_array
begin

lemma stats_json_ok:
  obtains v where "stats_json J m = Inr v" and "reads_counts J v m"
proof -
  obtain v where v: "jset_all J (j_object J) (map (\<lambda>(k, n). (k, j_int J n)) m) = Inr v"
    "\<And>k. j_get J v k = (case map_of (rev (map (\<lambda>(k, n). (k, j_int J n)) m)) k of None \<Rightarrow> j_get J (j_object J) k | Some x \<Rightarrow> Some x)"
    using jset_all_ok [OF settable_object] by blast
  have "map_of (rev (map (\<lambda>(k, n). (k, j_int J n)) m)) k = map_option (j_int J) (map_of (rev m) k)" for k
    by (simp add: rev_map map_of_map)
  then have "reads_counts J v m" by (simp add: reads_counts_def v(2) get_object split: option.split)
  with v(1) show thesis by (intro that [of v]) (simp_all add: stats_json_def)
qed

lemma jset_all_object:
  assumes "settable v"
  obtains v' where "jset_all J v kxs = Inr v'" and "settable v'"
  using jset_all_ok [OF assms, of kxs] by metis

lemma window_json_ok:
  assumes "getPercentile p (durations w) = Inr x"
  obtains v where "window_json J p w = Inr v" and "reads_window J p w v"
proof -
  let ?kxs = "[(CBSDKD_MSGFLD_TMS_COUNT, j_int J (uint (count w))), (CBSDKD_MSGFLD_TMS_MIN, j_int J (uint (time_min w))),
       (CBSDKD_MSGFLD_TMS_MAX, j_int J (uint (time_max w))),
       (CBSDKD_MSGFLD_TMS_AVG, j_int J (if count w \<noteq> 0 then uint (time_total w div count w) else 0))]"
  obtain a where a: "jset_all J (j_object J) ?kxs = Inr a" and sa: "settable a"
    and ga: "\<And>k. j_get J a k = (case map_of (rev ?kxs) k of None \<Rightarrow> j_get J (j_object J) k | Some x \<Rightarrow> Some x)"
    using jset_all_ok [OF settable_object] by blast
  obtain b where b: "stats_json J (ec w) = Inr b" "reads_counts J b (ec w)" by (rule stats_json_ok)
  obtain c where c: "jset J a CBSDKD_MSGFLD_TMS_ECS b = Inr c" "settable c"
    and gc: "\<And>k. j_get J c k = (if k = CBSDKD_MSGFLD_TMS_ECS then Some b else j_get J a k)"
    using jset_ok [OF sa] by blast
  obtain d where d: "jset J c CBSDKD_MSGFLD_TMS_PERCENTILE (j_int J x) = Inr d"
    and gd: "\<And>k. j_get J d k = (if k = CBSDKD_MSGFLD_TMS_PERCENTILE then Some (j_int J x) else j_get J c k)"
    using jset_ok [OF c(2)] by blast
  have "reads_window J p w d" using b(2) assms by (simp add: reads_window_def gd gc ga uint_div)
  with a b(1) c(1) d assms show thesis by (intro that [of d]) (simp_all add: window_json_def)
qed

lemma windows_json_ok:
  assumes "\<forall>w \<in> set ws. \<exists>x. getPercentile p (durations w) = Inr x" and "j_isArray J v"
  obtains v' vs where "windows_json J p v ws = Inr v'" and "j_isArray J v'"
    and "j_elems J v' = j_elems J v @ vs" and "list_all2 (reads_window J p) ws vs"
  using assms
proof (induction ws arbitrary: v thesis)
  case Nil
  then show ?case by simp
next
  case (Cons w ws)
  obtain x where "getPercentile p (durations w) = Inr x" using Cons.prems(2) by auto
  then obtain a where a: "window_json J p w = Inr a" "reads_window J p w a" by (rule window_json_ok)
  obtain b where b: "jappend J v a = Inr b" "j_isArray J b" "j_elems J b = j_elems J v @ [a]"
    using jappend_ok [OF Cons.prems(3)] by blast
  obtain v' vs where "windows_json J p b ws = Inr v'" "j_isArray J v'" "j_elems J v' = j_elems J b @ vs"
    "list_all2 (reads_window J p) ws vs"
    using Cons.IH [of b] Cons.prems(2) b(2) by auto
  with a b show ?case by (intro Cons.prems(1) [of v' "a # vs"]) simp_all
qed

lemma report_ok:
  assumes safe: "\<forall>w \<in> set (timestats rs). \<exists>x. getPercentile p (durations w) = Inr x"
  obtains root stats_obj where "resultsJson J p rs (j_null J) = Inr root"
    and "stats_json J (stats rs) = Inr stats_obj" and "reads_counts J stats_obj (stats rs)"
    and "j_get J root CBSDKD_MSGFLD_DSRES_STATS = Some stats_obj"
    and "timeres (options rs) = 0 \<Longrightarrow> j_get J root CBSDKD_MSGFLD_DRES_TIMINGS = Some (j_null J)"
    and "timeres (options rs) \<noteq> 0 \<Longrightarrow> \<exists>t. j_get J root CBSDKD_MSGFLD_DRES_TIMINGS = Some t \<and> reads_timings J p rs t"
proof -
  obtain so where so: "stats_json J (stats rs) = Inr so" "reads_counts J so (stats rs)" by (rule stats_json_ok)
  obtain r1 where r1: "jset J (j_null J) CBSDKD_MSGFLD_DSRES_STATS so = Inr r1" "settable r1"
    and g1: "\<And>k. j_get J r1 k = (if k = CBSDKD_MSGFLD_DSRES_STATS then Some so else j_get J (j_null J) k)"
    using jset_ok [OF settable_null] by blast
  show thesis
  proof (cases "timeres (options rs) = 0")
    case True
    with so r1 g1 show ?thesis by (intro that [of r1 so]) (simp_all add: resultsJson_def get_null)
  next
    case False
    obtain t1 where t1: "jset J (j_object J) CBSDKD_MSGFLD_TMS_BASE (j_int J (int (win_begin rs))) = Inr t1" "settable t1"
      "\<And>k. j_get J t1 k = (if k = CBSDKD_MSGFLD_TMS_BASE then Some (j_int J (int (win_begin rs))) else j_get J (j_object J) k)"
      using jset_ok [OF settable_object] by blast
    obtain ws vs where ws: "windows_json J p (j_array J) (timestats rs) = Inr ws"
      "j_elems J ws = j_elems J (j_array J) @ vs" "list_all2 (reads_window J p) (timestats rs) vs"
      using windows_json_ok [OF safe isArray_array] by blast
    obtain t2 where t2: "jset J t1 CBSDKD_MSGFLD_TMS_STEP (j_int J (uint (timeres (options rs)))) = Inr t2" "settable t2"
      "\<And>k. j_get J t2 k =
        (if k = CBSDKD_MSGFLD_TMS_STEP then Some (j_int J (uint (timeres (options rs)))) else j_get J t1 k)"
      using jset_ok [OF t1(2)] by blast
    obtain t3 where t3: "jset J t2 CBSDKD_MSGFLD_TMS_WINS ws = Inr t3" "settable t3"
      "\<And>k. j_get J t3 k = (if k = CBSDKD_MSGFLD_TMS_WINS then Some ws else j_get J t2 k)"
      using jset_ok [OF t2(2)] by blast
    obtain r2 where r2: "jset J r1 CBSDKD_MSGFLD_DRES_TIMINGS t3 = Inr r2"
      "\<And>k. j_get J r2 k = (if k = CBSDKD_MSGFLD_DRES_TIMINGS then Some t3 else j_get J r1 k)"
      using jset_ok [OF r1(2)] by blast
    have t: "reads_timings J p rs t3" using ws(2,3) by (simp add: reads_timings_def t3(3) t2(3) t1(3) elems_array)
    show ?thesis
    proof (rule that [of r2 so])
      show "resultsJson J p rs (j_null J) = Inr r2"
        using so r1(1) t1(1) ws(1) t2(1) t3(1) r2(1) False by (simp add: resultsJson_def)
      show "j_get J r2 CBSDKD_MSGFLD_DSRES_STATS = Some so" using r2(2) g1 by simp
      show "\<exists>t. j_get J r2 CBSDKD_MSGFLD_DRES_TIMINGS = Some t \<and> reads_timings J p rs t" using r2(2) t by auto
    qed (use so False in simp_all)
  qed
qed

end

text \<open>A factor from 50 to 100 is safe for every window.\<close>

lemma getPercentile_safe:
  assumes "50 \<le> p" and "p \<le> 100"
  shows "\<exists>x. getPercentile p ds = Inr x"
proof (cases "length ds \<le> 1")
  case True
  then show ?thesis by (auto simp: getPercentile_def le_Suc_eq)
next
  case False
  then have l: "2 \<le> length ds" by simp
  have "2 * 50 \<le> int (length ds) * p" using l assms(1) by (intro mult_mono) auto
  moreover have "int (length ds) * p \<le> int (length ds) * 100" using assms(2) by (intro mult_left_mono) auto
  ultimately show ?thesis
    using getPercentile_in_range [OF l, of p] assms by (auto simp: Let_def)
qed

section \<open>Properties\<close>

text \<open>
  C31: with a percentile factor from 50 to 100 the report of any result set can be built, and this is
  what a reader finds in it: under the summary every status of the set with its counter and nothing
  else; when a time resolution is set, under the timings the beginning, the step and one entry for
  each window in order, with its count, minimum, maximum, average, statuses and percentile.
\<close>

theorem report_complete:
  assumes "json_array J" and "50 \<le> p" and "p \<le> 100"
  shows "\<exists>root s. resultsJson J p rs (j_null J) = Inr root \<and> j_get J root ''Summary'' = Some s \<and>
    (\<forall>k. j_get J s k = Some (case map_of (rev (stats rs)) k of Some n \<Rightarrow> j_int J n | None \<Rightarrow> j_null J)) \<and>
    (if timeres (options rs) = 0 then j_get J root ''Timings'' = Some (j_null J)
     else \<exists>t ws. j_get J root ''Timings'' = Some t \<and>
       j_get J t ''Base'' = Some (j_int J (int (win_begin rs))) \<and>
       j_get J t ''Step'' = Some (j_int J (uint (timeres (options rs)))) \<and>
       j_get J t ''Windows'' = Some ws \<and> list_all2 (reads_window J p) (timestats rs) (j_elems J ws))"
proof -
  have "\<forall>w \<in> set (timestats rs). \<exists>x. getPercentile p (durations w) = Inr x"
    using getPercentile_safe [OF assms(2,3)] by blast
  then obtain root s where r: "resultsJson J p rs (j_null J) = Inr root" "reads_counts J s (stats rs)"
    "j_get J root CBSDKD_MSGFLD_DSRES_STATS = Some s"
    "timeres (options rs) = 0 \<Longrightarrow> j_get J root CBSDKD_MSGFLD_DRES_TIMINGS = Some (j_null J)"
    "timeres (options rs) \<noteq> 0 \<Longrightarrow> \<exists>t. j_get J root CBSDKD_MSGFLD_DRES_TIMINGS = Some t \<and> reads_timings J p rs t"
    using json_array.report_ok [OF assms(1), of rs p] by blast
  then show ?thesis
    by (intro exI [of _ root] exI [of _ s]) (auto simp: reads_counts_def reads_timings_def)
qed

lemma report_complete_witness:
  "\<exists>root s. resultsJson Jref 95 example_results JNull = Inr root \<and> jv_get root ''Summary'' = Some s \<and>
     (\<forall>k. jv_get s k = Some (case map_of (rev (stats example_results)) k of Some n \<Rightarrow> JInt n | None \<Rightarrow> JNull))"
proof -
  have j: "j_null Jref = JNull" "j_get Jref = jv_get" "j_int Jref = JInt" by (simp_all add: Jref_def Jref_with_def)
  show ?thesis using report_complete [OF Jref_array, of 95 example_results] unfolding j by auto
qed

end
