(* ===== verification/WorkerItems.thy ===== *)
theory WorkerItems
  imports Worker HandleProps Reports IOProps
begin

text \<open>
  What a worker promises: every request it serves is answered once, what opening a handle does to
  the shared state, and what is left of a worker at its end.
\<close>

section \<open>Answers\<close>

text \<open>A JSON library that keeps the laws of objects and writes no empty text.\<close>

definition writer :: "'j json_api \<Rightarrow> bool" where
  "writer J \<longleftrightarrow> json_object J \<and> (\<forall>v. j_write J v \<noteq> [])"

definition terminated :: "string \<Rightarrow> string" where
  "terminated s = (if last s \<noteq> newline then s @ [newline] else s)"

definition add_output :: "string \<Rightarrow> worker \<Rightarrow> worker" where
  "add_output s wk = wk\<lparr>w_conn := (w_conn wk)\<lparr>outbuf := outbuf (w_conn wk) @ s\<rparr>\<rparr>"

lemma add_output_fields [simp]:
  "w_id (add_output s wk) = w_id wk" "w_io (add_output s wk) = w_io wk"
  "cur_handle (add_output s wk) = cur_handle wk" "cur_hid (add_output s wk) = cur_hid wk"
  "w_conn (add_output s wk) = (w_conn wk)\<lparr>outbuf := outbuf (w_conn wk) @ s\<rparr>"
  by (simp_all add: add_output_def)

lemma respond_eq:
  "respond J res s = Inr s' \<longleftrightarrow>
    (\<exists>e. encode J res = Inr e \<and> e \<noteq> [] \<and> s' = (add_output (terminated e) (fst s), snd s))"
proof (cases "encode J res")
  case (Inl h)
  then show ?thesis by (simp add: respond_def writeResponse_def)
next
  case (Inr e)
  then show ?thesis
    by (cases "e = []") (auto simp: respond_def writeResponse_def add_output_def terminated_def)
qed

lemma respond_ok:
  assumes "writer J"
  obtains e where "encode J res = Inr e" and "respond J res s = Inr (add_output (terminated e) (fst s), snd s)"
proof -
  have "json_object J" using assms by (simp add: writer_def)
  then obtain root where "response_root J res = Inr root"
    by (rule json_object.response_root_ok)
  then have "encode J res = Inr (j_write J root)" by (simp add: encode_def)
  moreover have "j_write J root \<noteq> []" using assms by (simp add: writer_def)
  ultimately show thesis by (intro that [of "j_write J root"]) (simp_all add: respond_eq)
qed

text \<open>
  The answer to a request: one encoded response that carries the request's command and numbers
  is appended to the output of the connection, which is otherwise as before.
\<close>

definition answers_to :: "'j Message \<Rightarrow> 'j Response \<Rightarrow> bool" where
  "answers_to req res \<longleftrightarrow> command (resp_msg res) = command req \<and> reqid (resp_msg res) = reqid req \<and>
     handle_id (resp_msg res) = handle_id req"

definition answered :: "'j json_api \<Rightarrow> 'j Message \<Rightarrow> worker \<Rightarrow> worker \<Rightarrow> bool" where
  "answered J req wk wk' \<longleftrightarrow> (\<exists>res e. answers_to req res \<and> encode J res = Inr e \<and> e \<noteq> [] \<and>
     w_conn wk' = (w_conn wk)\<lparr>outbuf := outbuf (w_conn wk) @ terminated e\<rparr>)"

lemma answers_to_new [simp]:
  "answers_to req (Response_new J req e)" "answers_to req (setResponseData d (Response_new J req e))"
  by (simp_all add: answers_to_def Response_new_def setResponseData_def)

lemma respond_answered:
  assumes "respond J res s = Inr s'" and "answers_to req res" and "w_conn (fst s) = w_conn wk"
  shows "answered J req wk (fst s')"
  using assms by (auto simp: respond_eq answered_def)

section \<open>What a request does to the shared state\<close>

text \<open>Either the handle and the registry stay, or a handle is opened where there was none.\<close>

definition handle_effect :: "'j worker_state \<Rightarrow> 'j worker_state \<Rightarrow> bool" where
  "handle_effect s s' \<longleftrightarrow> w_id (fst s') = w_id (fst s) \<and>
     named (snd s') = named (snd s) \<and>
     (cur_handle (fst s') = cur_handle (fst s) \<and> cur_hid (fst s') = cur_hid (fst s) \<and>
        owners (snd s') = owners (snd s) \<or>
      cur_handle (fst s) = None \<and> cur_handle (fst s') \<noteq> None \<and>
        owners (snd s') = (owners (snd s))(cur_hid (fst s') \<mapsto> w_id (fst s)))"

definition same_handle :: "'j worker_state \<Rightarrow> 'j worker_state \<Rightarrow> bool" where
  "same_handle s s' \<longleftrightarrow> w_id (fst s') = w_id (fst s) \<and> cur_handle (fst s') = cur_handle (fst s) \<and>
     cur_hid (fst s') = cur_hid (fst s) \<and> owners (snd s') = owners (snd s) \<and> named (snd s') = named (snd s)"

lemma same_handle_refl [simp]: "same_handle s s"
  by (simp add: same_handle_def)

lemma same_handle_trans: "same_handle s t \<Longrightarrow> same_handle t u \<Longrightarrow> same_handle s u"
  by (simp add: same_handle_def)

lemma same_handle_effect: "same_handle s s' \<Longrightarrow> handle_effect s s'"
  by (simp add: same_handle_def handle_effect_def)

lemma respond_same: "respond J res s = Inr s' \<Longrightarrow> same_handle s s'"
  by (auto simp: respond_eq same_handle_def)

lemma open_handle_effect:
  assumes "cur_handle (fst s) = None"
  shows "handle_effect s (open_handle w h hid s)"
    and "w_conn (fst (open_handle w h hid s)) = w_conn (fst s)"
    and "cur_hid (fst (open_handle w h hid s)) = hid" and "cur_handle (fst (open_handle w h hid s)) = Some h"
  using assms by (auto simp: open_handle_def handle_effect_def Let_def split: prod.splits)

lemma try_handle_spec:
  assumes "try_handle E req h s = (err, s1)"
  shows "handle_effect s s1" and "w_conn (fst s1) = w_conn (fst s)"
proof -
  define orig where "orig = \<lparr>o_connstr = connstr_of h, o_username = username h, o_password = password h\<rparr>"
  obtain e m where ec: "ensureCluster (e_cluster E) orig (bucket h) (snd s) = (e, m)"
    by (cases "ensureCluster (e_cluster E) orig (bucket h) (snd s)")
  then have m: "owners m = owners (snd s)" "named m = named (snd s)"
    using ensureCluster_maps [of "e_cluster E" orig "bucket h" "snd s"] by simp_all
  have "s1 = s \<or> s1 = (fst s, m) \<or>
      cur_handle (fst s) = None \<and> s1 = open_handle (e_world E) h (handle_id req) (fst s, m)"
    using assms ec by (auto simp: try_handle_def orig_def [symmetric] split: if_splits option.splits)
  then show "handle_effect s s1" and "w_conn (fst s1) = w_conn (fst s)"
    using m open_handle_effect(1,2) [of "(fst s, m)" "e_world E" h "handle_id req"]
    by (auto simp: handle_effect_def)
qed

lemma initializeHandle_spec:
  assumes "initializeHandle E req s = Inr (b, s')"
  shows "b" and "answered (e_json E) req (fst s) (fst s')" and "handle_effect s s'"
proof -
  obtain h where h: "HandleOptions_new (e_json E) (mem_path (e_memory E)) (mem_handle (e_memory E)) (payload req) = Inr h"
    using assms by (auto simp: initializeHandle_def rbind_eq_Inr)
  obtain err s1 where t: "try_handle E req h s = (err, s1)" by (cases "try_handle E req h s")
  with assms h obtain err' where r: "respond (e_json E) (Response_new (e_json E) req err') s1 = Inr s'" and "b"
    by (auto simp: initializeHandle_def rbind_eq_Inr)
  show "b" by fact
  show "answered (e_json E) req (fst s) (fst s')"
    using respond_answered [OF r _ try_handle_spec(2) [OF t]] by simp
  show "handle_effect s s'"
    using try_handle_spec(1) [OF t] respond_same [OF r] by (auto simp: handle_effect_def same_handle_def)
qed

text \<open>A response written after steps that touch neither the connection nor the handle.\<close>

definition just_answers :: "'j json_api \<Rightarrow> 'j Message \<Rightarrow> 'j worker_state \<Rightarrow> 'j worker_state \<Rightarrow> bool" where
  "just_answers J req s s' \<longleftrightarrow> answered J req (fst s) (fst s') \<and> same_handle s s'"

lemma respond_just_answers:
  "respond J res s1 = Inr s' \<Longrightarrow> answers_to req res \<Longrightarrow> w_conn (fst s1) = w_conn (fst s) \<Longrightarrow> same_handle s s1 \<Longrightarrow>
    just_answers J req s s'"
  using respond_answered respond_same same_handle_trans unfolding just_answers_def by blast

lemma report_just_answers:
  assumes "report E req p st s = Inr s'"
  shows "just_answers (e_json E) req s s'"
proof -
  define s1 where "s1 = ((fst s)\<lparr>w_io := fst st\<rparr>, snd s)"
  have s1: "w_conn (fst s1) = w_conn (fst s)" "same_handle s s1" by (simp_all add: s1_def same_handle_def)
  obtain res where "respond (e_json E) res s1 = Inr s'" "answers_to req res"
    using assms by (auto simp: report_def Let_def s1_def rbind_eq_Inr split: if_splits)
  then show ?thesis using s1 respond_just_answers by blast
qed

lemma run_request_spec:
  assumes "run_request E h req d s = Inr (b, s')"
  shows "b" and "just_answers (e_json E) req s s'"
proof -
  define J where "J = e_json E"
  obtain rs p where rs: "ResultSet_new (g_pFactor (snd s)) (mem_results (e_memory E)) = (rs, p)"
    by (cases "ResultSet_new (g_pFactor (snd s)) (mem_results (e_memory E))")
  obtain o' opts where o: "jfield J (payload req) ''Options'' = Inr o'"
    "ResultOptions_of_json J (mem_flags (e_memory E)) o' = Inr opts"
    using assms by (auto simp: run_request_def Let_def J_def rbind_eq_Inr split: prod.splits)
  define refuse where "refuse \<longleftrightarrow> (case d of Some (t, ds) \<Rightarrow>
    t = DSTYPE_SEEDED \<and> iterwait opts = 0 \<and> continuous_spec ds | None \<Rightarrow> False)"
  define cmd where "cmd = run_command E h (cur_hid (fst s)) req (map_option snd d) opts (w_io (fst s), rs)"
  define refusal where "refusal = Response_new J req (Error_of SUBSYSf_SDKD SDKD_EINVAL ''Continuous must be used with IterWait'')"
  have eq: "run_request E h req d s =
    (if refuse then rbind (respond J refusal s) (\<lambda>s1. Inr (True, s1))
     else case cmd of
         None \<Rightarrow> rbind (respond J (Response_new J req (Error_of SUBSYSf_SDKD SDKD_ENOIMPL [])) s) (\<lambda>s1. Inr (True, s1))
       | Some m \<Rightarrow> rbind m (\<lambda>st. rbind (report E req p st s) (\<lambda>s1. Inr (True, s1))))"
    using o rs
    by (simp only: run_request_def Let_def J_def rbind_Inr case_prod_conv refuse_def cmd_def refusal_def)
  have direct: "just_answers J req s s''" if "respond J (Response_new J req e) s = Inr s''" for e s''
    by (rule respond_just_answers [OF that]) simp_all
  have "b \<and> just_answers J req s s'"
  proof (cases "refuse \<or> cmd = None")
    case True
    with assms obtain e where "respond J (Response_new J req e) s = Inr s'" "b"
      unfolding eq refusal_def by (auto simp: rbind_eq_Inr split: if_splits)
    then show ?thesis using direct by blast
  next
    case False
    then obtain m where "cmd = Some m" by auto
    with False assms obtain st where "report E req p st s = Inr s'" "b"
      unfolding eq by (auto simp: rbind_eq_Inr)
    then show ?thesis using report_just_answers unfolding J_def by blast
  qed
  then show "b" "just_answers (e_json E) req s s'" by (simp_all add: J_def)
qed

lemma find_dataset_maps:
  assumes "find_dataset E req m = Inr (r, m')"
  shows "owners m' = owners m" and "named m' = named m"
proof -
  have "m' = m \<or> (\<exists>i. m' = snd (dsmap_at i m))"
    using assms by (auto simp: find_dataset_def rbind_eq_Inr getDatasetById_def Let_def
      split: if_splits option.splits prod.splits) (metis snd_conv)+
  then show "owners m' = owners m" and "named m' = named m" by auto
qed

lemma just_answers_effect:
  "just_answers J req s s' \<Longrightarrow> handle_effect s s' \<and> answered J req (fst s) (fst s')"
  by (simp add: just_answers_def same_handle_effect)

definition served :: "'j json_api \<Rightarrow> 'j Message \<Rightarrow> bool \<Rightarrow> 'j worker_state \<Rightarrow> 'j worker_state \<Rightarrow> bool" where
  "served J req b s s' \<longleftrightarrow> handle_effect s s' \<and>
     (if Request_isValid req \<and> cmd_code (command req) \<noteq> CLOSEHANDLE
      then b \<and> answered J req (fst s) (fst s') else \<not> b \<and> s' = s)"

lemma served_answer:
  "just_answers J req s s' \<Longrightarrow> Request_isValid req \<Longrightarrow> cmd_code (command req) \<noteq> CLOSEHANDLE \<Longrightarrow> served J req True s s'"
  by (simp add: served_def just_answers_effect)

lemma processRequest_found:
  assumes "find_dataset E req (snd s) = Inr (r, m)"
    and "(case r of
            Inl e \<Rightarrow> rbind (respond (e_json E) (Response_new (e_json E) req e) (fst s, m)) (\<lambda>s1. Inr (True, s1))
          | Inr d \<Rightarrow> run_request E h req (Some d) (fst s, m)) = Inr (b, s')"
  shows "b" and "just_answers (e_json E) req s s'"
proof -
  have m: "same_handle s (fst s, m)" using find_dataset_maps [OF assms(1)] by (simp add: same_handle_def)
  have "b \<and> just_answers (e_json E) req s s'"
  proof (cases r)
    case (Inl e)
    with assms(2) have "respond (e_json E) (Response_new (e_json E) req e) (fst s, m) = Inr s'" "b"
      by (auto simp: rbind_eq_Inr)
    then show ?thesis using respond_just_answers [OF _ _ _ m] by auto
  next
    case (Inr d)
    with assms(2) have "run_request E h req (Some d) (fst s, m) = Inr (b, s')" by simp
    from run_request_spec [OF this] show ?thesis
      using same_handle_trans [OF m] by (simp add: just_answers_def)
  qed
  then show "b" and "just_answers (e_json E) req s s'" by blast+
qed

lemma processRequest_served:
  assumes "processRequest E req s = Inr (b, s')"
  shows "served (e_json E) req b s s'"
proof -
  consider "\<not> Request_isValid req" | "cmd_code (command req) = CLOSEHANDLE"
    | (new) "Request_isValid req" "cmd_code (command req) = NEWHANDLE"
    | (other) "Request_isValid req" "cmd_code (command req) \<notin> {CLOSEHANDLE, NEWHANDLE}"
    by auto
  then show ?thesis
  proof cases
    case new
    then have "initializeHandle E req s = Inr (b, s')" using assms by (simp add: processRequest_def)
    from initializeHandle_spec [OF this] new show ?thesis by (simp add: served_def)
  next
    case other
    then have nc: "cmd_code (command req) \<noteq> CLOSEHANDLE" by simp
    show ?thesis
    proof (cases "cur_handle (fst s)")
      case None
      with other assms obtain e where "respond (e_json E) (Response_new (e_json E) req e) s = Inr s'" "b"
        by (auto simp: processRequest_def Let_def rbind_eq_Inr)
      with respond_just_answers [OF this(1), of req s] served_answer [OF _ other(1) nc] show ?thesis by simp
    next
      case (Some h)
      show ?thesis
      proof (cases "cmd_code (command req) \<in> set no_dataset_commands")
        case True
        with other Some assms have "run_request E h req None s = Inr (b, s')" by (simp add: processRequest_def Let_def)
        from run_request_spec [OF this] served_answer [OF _ other(1) nc] show ?thesis by simp
      next
        case False
        with other Some assms obtain r m where "find_dataset E req (snd s) = Inr (r, m)"
          "(case r of
              Inl e \<Rightarrow> rbind (respond (e_json E) (Response_new (e_json E) req e) (fst s, m)) (\<lambda>s1. Inr (True, s1))
            | Inr d \<Rightarrow> run_request E h req (Some d) (fst s, m)) = Inr (b, s')"
          by (auto simp: processRequest_def Let_def rbind_eq_Inr)
        from processRequest_found [OF this] served_answer [OF _ other(1) nc] show ?thesis by simp
      qed
    qed
  qed (use assms in \<open>cases "Request_isValid req"; simp add: processRequest_def served_def same_handle_effect\<close>)+
qed

section \<open>What a round of the loop and the end of a worker do\<close>

lemma handle_effect_conn:
  "handle_effect ((fst s)\<lparr>w_conn := c\<rparr>, snd s) s' \<longleftrightarrow> handle_effect s s'"
  by (simp add: handle_effect_def)

lemma same_handle_conn [simp]: "same_handle s ((fst s)\<lparr>w_conn := c\<rparr>, snd s)"
  by (simp add: same_handle_def)

lemma worker_read_effect:
  assumes "worker_read E s = Inr (go, s')"
  shows "handle_effect s s'"
proof -
  obtain rv reqp c where r: "readRequest (e_json E) (mem_msg (e_memory E)) (w_conn (fst s)) = Inr (rv, reqp, c)"
    using assms by (auto simp: worker_read_def rbind_eq_Inr)
  define s1 where "s1 = ((fst s)\<lparr>w_conn := c\<rparr>, snd s)"
  have "s' = s1 \<or> (\<exists>req. processRequest E req s1 = Inr (go, s'))"
    using assms r by (auto simp: worker_read_def s1_def Let_def split: if_splits reqptr.splits)
  then have "handle_effect s1 s'"
  proof (elim disjE exE)
    fix req
    assume "processRequest E req s1 = Inr (go, s')"
    from processRequest_served [OF this] show ?thesis by (simp add: served_def)
  qed (simp add: same_handle_effect)
  then show ?thesis by (simp add: s1_def handle_effect_conn)
qed

lemma selectLoop_effect:
  assumes "selectLoop E ev s = Inr (go, s')"
  shows "handle_effect s s'"
proof -
  obtain ww where ww: "setupFdSets (w_conn (fst s)) = Inr ww"
    using assms by (auto simp: selectLoop_def rbind_eq_Inr)
  show ?thesis
  proof (cases ev)
    case (SelectReady exc wr rd)
    define rc where "rc = (if wr \<and> ww then flushBuffer (w_conn (fst s)) else (0, w_conn (fst s)))"
    define s1 where "s1 = ((fst s)\<lparr>w_conn := snd rc\<rparr>, snd s)"
    have "s' = s \<or> s' = s1 \<or> worker_read E s1 = Inr (go, s')"
      using assms ww SelectReady
      by (auto simp: selectLoop_def rc_def [symmetric] s1_def Let_def split: if_splits prod.splits)
    then show ?thesis
      using worker_read_effect [of E s1 go s'] unfolding s1_def
      by (auto simp: handle_effect_conn intro: same_handle_effect)
  qed (use assms ww in \<open>auto simp: selectLoop_def intro: same_handle_effect\<close>)
qed

text \<open>At its end a worker has no handle, and its handle's number is nobody's when it is not zero.\<close>

lemma worker_end_effect:
  assumes "worker_end s = Inr s'"
  shows "w_id (fst s') = w_id (fst s)" and "cur_handle (fst s') = None" and "cur_hid (fst s') = 0"
    and "named (snd s') = named (snd s)"
    and "owners (snd s') = (if cur_hid (fst s) \<noteq> 0 then (owners (snd s))(cur_hid (fst s) := None) else owners (snd s))"
  using assms
  by (auto simp: worker_end_def rbind_eq_Inr cancelCurrentHandle_def Let_def cancelCurrent_def
      split: prod.splits if_splits)

end
