(* ===== verification/Frames.thy ===== *)
theory Frames
  imports HandleItems
begin

text \<open>
  What the bulk operations leave alone: the error of a result set is set by \<open>setError\<close> only, so an
  operation that goes through ends with the error it began with.
\<close>

lemma for_each_invariant:
  assumes "for_each fin adv stop body fuel it s = Inr (e, s')" and "P s"
    and "\<And>s. P s \<Longrightarrow> P (snd (stop s))" and "\<And>it s go s'. P s \<Longrightarrow> body it s = Inr (go, s') \<Longrightarrow> P s'"
  shows "P s'"
  using assms(1,2)
proof (induction fuel arbitrary: it s)
  case 0
  then show ?case by simp
next
  case (Suc fuel)
  obtain b s1 where st: "stop s = (b, s1)" by (cases "stop s")
  then have P1: "P s1" using assms(3) [OF Suc.prems(2)] by simp
  show ?case
  proof (cases "fin it \<or> b")
    case True
    with Suc.prems st P1 show ?thesis by (auto split: if_splits)
  next
    case False
    with Suc.prems(1) st obtain go s2 where b: "body it s1 = Inr (go, s2)"
      and k: "(if \<not> go then Inr (Returned, s2)
        else rbind (adv it) (\<lambda>it'. for_each fin adv stop body fuel it' s2)) = Inr (e, s')"
      by (auto simp: rbind_eq_Inr)
    have P2: "P s2" using assms(4) P1 b by blast
    show ?thesis
    proof (cases go)
      case True
      with k obtain it' where "for_each fin adv stop body fuel it' s2 = Inr (e, s')" by (auto simp: rbind_eq_Inr)
      with Suc.IH P2 show ?thesis by blast
    qed (use k P2 in simp)
  qed
qed

section \<open>The error of the result set\<close>

lemma open_window_error [simp]: "oper_error (open_window f rs) = oper_error rs"
  by (simp add: open_window_def split: prod.split)

lemma setRescode_error: "setRescode err key ev v tv rs = Inr rs' \<Longrightarrow> oper_error rs' = oper_error rs"
  by (auto simp: setRescode_def Let_def rbind_eq_Inr)

lemma rescode_handler_error:
  "rescode_handler w err st = Inr st' \<Longrightarrow> oper_error (snd st') = oper_error (snd st)"
  by (auto simp: rescode_handler_def gettimeofday_def rbind_eq_Inr setRescode_err_def dest: setRescode_error)

lemma drain_futures_error:
  "drain_futures w (rescode_handler w) fs st = Inr st' \<Longrightarrow> oper_error (snd st') = oper_error (snd st)"
proof (induction fs arbitrary: st)
  case (Cons f fs)
  then obtain st1 where "rescode_handler w (resp_ec (answers w f)) st = Inr st1"
    "drain_futures w (rescode_handler w) fs st1 = Inr st'" by (auto simp: rbind_eq_Inr)
  with Cons.IH rescode_handler_error show ?case by metis
qed simp

lemma drain_error:
  "drainPendingFutures w (rescode_handler w) st = Inr st' \<Longrightarrow> oper_error (snd st') = oper_error (snd st)"
  by (auto simp: drainPendingFutures_def rbind_eq_Inr dest: drain_futures_error)

lemma collect_result_error: "collect_result w st = Inr st' \<Longrightarrow> oper_error (snd st') = oper_error (snd st)"
  by (auto simp: collect_result_def dest: drain_error split: if_splits)

lemma postsubmit_error:
  assumes "postsubmit w n st = Inr (b, st')"
  shows "oper_error (snd st') = oper_error (snd st)"
proof -
  define rs where "rs = (snd st)\<lparr>remaining := remaining (snd st) + uint n\<rparr>"
  consider "snd st' = rs" | st1 where "drainPendingFutures w (rescode_handler w) (fst st, rs) = Inr st1" "snd st' = snd st1"
    using assms by (cases st) (auto simp: postsubmit_def Let_def rs_def rbind_eq_Inr split: if_splits)
  then show ?thesis
  proof cases
    case 1
    then show ?thesis by (simp add: rs_def)
  next
    case 2
    with drain_error [OF 2(1)] show ?thesis by (simp add: rs_def)
  qed
qed

lemma submit_one_error: "submit_one w r st = Inr (b, st') \<Longrightarrow> oper_error (snd st') = oper_error (snd st)"
  by (auto simp: submit_one_def Let_def rbind_eq_Inr io_markBegin_def gettimeofday_def markBegin_def dest!: postsubmit_error)

lemma item_errors:
  "get_item w opts x st = Inr (b, st') \<Longrightarrow> oper_error (snd st') = oper_error (snd st)"
  "mutate_item w opts c ex x st = Inr (b, st') \<Longrightarrow> oper_error (snd st') = oper_error (snd st)"
  "keyop_item w opts c x st = Inr (b, st') \<Longrightarrow> oper_error (snd st') = oper_error (snd st)"
  "subdoc_item w opts x st = Inr (b, st') \<Longrightarrow> oper_error (snd st') = oper_error (snd st)"
  by (auto simp: get_item_def mutate_item_def keyop_item_def subdoc_item_def Let_def rbind_eq_Inr
      dest: submit_one_error split: prod.splits)

lemma run_op_error:
  assumes "run_op J w u fuel ds act ropts st = Inr (b, st')"
    and "\<And>x st b st'. act x st = Inr (b, st') \<Longrightarrow> oper_error (snd st') = oper_error (snd st)"
  shows "oper_error (snd st') = oper_error (snd st)"
proof -
  obtain it e st1 where it: "for_each (iter_done J ds) (iter_advance J ds) (poll_cancel w)
      (\<lambda>it. act (iter_item it)) fuel it (begin_op ropts st) = Inr (e, st1)"
    and c: "collect_result w st1 = Inr st'"
    using assms(1) by (auto simp: run_op_def iterate_def rbind_eq_Inr)
  have "oper_error (snd st1) = oper_error (snd (begin_op ropts st))"
    by (rule for_each_invariant [OF it, where P = "\<lambda>s. oper_error (snd s) = oper_error (snd (begin_op ropts st))"])
      (simp_all add: assms(2))
  with collect_result_error [OF c] show ?thesis by (simp add: begin_op_def clear_results_def)
qed

end
