(* ===== verification/ExecutorItems.thy ===== *)
theory ExecutorItems
  imports Executors HandleProps
begin

text \<open>
  What the query executors do: the contract of one round and its consequences for the loop, as a
  locale, with the rounds of the executors as interpretations; then the properties of the
  executors.
\<close>

section \<open>The contract of a round\<close>

text \<open>
  The requests and the recorded statuses of \<open>n\<close> rounds that start when \<open>L\<close> requests are in the log.
\<close>

fun queries :: "(nat \<Rightarrow> 'g \<Rightarrow> 'g) \<Rightarrow> (nat \<Rightarrow> 'g \<Rightarrow> request list) \<Rightarrow> nat \<Rightarrow> nat \<Rightarrow> 'g \<Rightarrow> request list" where
  "queries nxt reqs 0 L g = []"
| "queries nxt reqs (Suc n) L g =
     reqs L g @ queries nxt reqs n (L + length (reqs L g)) (nxt L g)"

fun statuses :: "(nat \<Rightarrow> 'g \<Rightarrow> 'g) \<Rightarrow> (nat \<Rightarrow> 'g \<Rightarrow> request list) \<Rightarrow> (nat \<Rightarrow> 'g \<Rightarrow> error_code)
    \<Rightarrow> nat \<Rightarrow> nat \<Rightarrow> 'g \<Rightarrow> error_code list" where
  "statuses nxt reqs status 0 L g = []"
| "statuses nxt reqs status (Suc n) L g =
     status L g # statuses nxt reqs status n (L + length (reqs L g)) (nxt L g)"

lemma length_statuses [simp]: "length (statuses nxt reqs status n L g) = n"
  by (induction n arbitrary: L g) simp_all

definition cancelled_after :: "world \<Rightarrow> io \<Rightarrow> nat \<Rightarrow> bool" where
  "cancelled_after w io n \<longleftrightarrow> \<not> do_cancel io \<and> (\<forall>i<n. \<not> cancels w (polls io + i)) \<and> cancels w (polls io + n)"

locale query_body =
  fixes w :: world and body :: "'g round" and good :: "'g \<Rightarrow> bool" and nxt :: "nat \<Rightarrow> 'g \<Rightarrow> 'g"
    and reqs :: "nat \<Rightarrow> 'g \<Rightarrow> request list" and status :: "nat \<Rightarrow> 'g \<Rightarrow> error_code"
  assumes body_law: "good g \<Longrightarrow> results_ok rs \<Longrightarrow>
    \<exists>io' rs'. body (g, (io, rs)) = Inr (nxt (length (sent io)) g, (io', rs')) \<and>
      good (nxt (length (sent io)) g) \<and> results_ok rs' \<and>
      results_view rs' = count_step (status (length (sent io)) g) (results_view rs) \<and>
      sent io' = sent io @ reqs (length (sent io)) g \<and> do_cancel io' = do_cancel io \<and> polls io' = polls io"
begin

lemma loop_ok:
  assumes "good g" and "results_ok rs" and "cancelled_after w io n" and "n < fuel"
  shows "\<exists>g' io' rs'. query_loop w body fuel (g, (io, rs)) = Inr (g', (io', rs')) \<and> results_ok rs' \<and>
    results_view rs' = fold count_step (statuses nxt reqs status n (length (sent io)) g) (results_view rs) \<and>
    sent io' = sent io @ queries nxt reqs n (length (sent io)) g"
  using assms
proof (induction n arbitrary: fuel g io rs)
  case 0
  then obtain f where "fuel = Suc f" by (cases fuel) auto
  with 0 show ?case
    by (simp add: cancelled_after_def poll_cancel_def isCancelled_def)
next
  case (Suc n)
  then obtain f where f: "fuel = Suc f" "n < f" by (cases fuel) auto
  define io1 where "io1 = io\<lparr>do_cancel := False, polls := polls io + 1\<rparr>"
  have "\<not> cancels w (polls io)" using Suc.prems(3) by (auto simp: cancelled_after_def dest: spec [of _ 0])
  with Suc.prems(3) have poll: "poll_cancel w (io, rs) = (False, (io1, rs))"
    by (simp add: cancelled_after_def poll_cancel_def isCancelled_def io1_def)
  obtain io2 rs2 where 2: "body (g, (io1, rs)) = Inr (nxt (length (sent io)) g, (io2, rs2))"
    "good (nxt (length (sent io)) g)" "results_ok rs2"
    "results_view rs2 = count_step (status (length (sent io)) g) (results_view rs)"
    "sent io2 = sent io @ reqs (length (sent io)) g" "do_cancel io2 = False" "polls io2 = polls io + 1"
    using body_law [OF Suc.prems(1,2), of io1] by (auto simp: io1_def)
  have "cancelled_after w io2 n"
    using Suc.prems(3) 2(6,7) by (auto simp: cancelled_after_def)
  from Suc.IH [OF 2(2,3) this f(2)] obtain g' io' rs' where
    "query_loop w body f (nxt (length (sent io)) g, (io2, rs2)) = Inr (g', (io', rs'))"
    "results_ok rs'"
    "results_view rs' = fold count_step (statuses nxt reqs status n (length (sent io2))
       (nxt (length (sent io)) g)) (results_view rs2)"
    "sent io' = sent io2 @ queries nxt reqs n (length (sent io2)) (nxt (length (sent io)) g)"
    by blast
  with poll 2 f show ?case by simp
qed

text \<open>A loop nobody cancels is still running after any number of rounds.\<close>

lemma loop_endless:
  assumes "good g" and "results_ok rs" and "\<not> do_cancel io" and "\<And>i. i < fuel \<Longrightarrow> \<not> cancels w (polls io + i)"
  shows "query_loop w body fuel (g, (io, rs)) = Inl Running"
  using assms
proof (induction fuel arbitrary: g io rs)
  case 0
  then show ?case by simp
next
  case (Suc f)
  define io1 where "io1 = io\<lparr>do_cancel := False, polls := polls io + 1\<rparr>"
  have "\<not> cancels w (polls io)" using Suc.prems(4) [of 0] by simp
  with Suc.prems(3) have poll: "poll_cancel w (io, rs) = (False, (io1, rs))"
    by (simp add: poll_cancel_def isCancelled_def io1_def)
  obtain io2 rs2 where 2: "body (g, (io1, rs)) = Inr (nxt (length (sent io)) g, (io2, rs2))"
    "good (nxt (length (sent io)) g)" "results_ok rs2" "\<not> do_cancel io2" "polls io2 = polls io + 1"
    using body_law [OF Suc.prems(1,2), of io1] by (auto simp: io1_def)
  have "\<not> cancels w (polls io2 + i)" if "i < f" for i
    using Suc.prems(4) [of "Suc i"] that 2(5) by simp
  from Suc.IH [OF 2(2,3,4) this] poll 2(1) show ?case by simp
qed

end

lemma results_view_queries [simp]:
  "results_view (rs\<lparr>query_resp_count := n\<rparr>) = results_view rs"
  "results_view (rs\<lparr>fts_query_resp_count := n\<rparr>) = results_view rs"
  "results_view (rs\<lparr>cbas_query_resp_count := n\<rparr>) = results_view rs"
  "results_view (rs\<lparr>scan_consistency := s\<rparr>) = results_view rs"
  "results_view (rs\<lparr>vresp_complete := b\<rparr>) = results_view rs"
  "results_view (markBegin tv rs) = results_view rs"
  by (simp_all add: results_view_def markBegin_def)

lemma results_ok_queries [simp]:
  "results_ok (rs\<lparr>query_resp_count := n\<rparr>) \<longleftrightarrow> results_ok rs"
  "results_ok (rs\<lparr>fts_query_resp_count := n\<rparr>) \<longleftrightarrow> results_ok rs"
  "results_ok (rs\<lparr>cbas_query_resp_count := n\<rparr>) \<longleftrightarrow> results_ok rs"
  "results_ok (rs\<lparr>scan_consistency := s\<rparr>) \<longleftrightarrow> results_ok rs"
  by (simp_all add: results_ok_def recorded_def)

text \<open>Recording the final status of a query.\<close>

lemma record_final_ok:
  assumes "results_ok rs"
  obtains io' rs' where "record_final w err (io, rs) = Inr (io', rs')" and "results_ok rs'"
    and "results_view rs' = count_step err (results_view rs)" and "same_requests io io'"
proof -
  define rs0 where "rs0 = rs\<lparr>vresp_complete := True\<rparr>"
  have rs0: "results_ok rs0" "stats rs0 = stats rs" "remaining rs0 = remaining rs"
    using assms by (simp_all add: rs0_def)
  obtain rs' where rs': "setRescode err [] False None (clock w (ticks io)) rs0 = Inr rs'"
    "results_ok rs'" "stats rs' = count_msg (message_of err) (stats rs)" "remaining rs' = remaining rs - 1"
    by (rule setRescode_ok [OF rs0(1)]) (simp add: rs0)
  have "results_view rs' = count_step err (results_view rs)"
    using rs' assms by (simp add: results_view_def count_step_def results_ok_def msg_count_count_msg)
  with rs' show thesis
    by (intro that [of "io\<lparr>ticks := ticks io + 1\<rparr>" rs'])
      (simp_all add: record_final_def gettimeofday_def setRescode_final_def rs0_def)
qed

section \<open>Executors that send one query a round\<close>

text \<open>A generator that runs through \<open>g 0\<close>, \<open>g 1\<close>, ... and one query for each.\<close>

lemma queries_single:
  assumes "\<And>L g. reqs L g = [q g]" and "\<And>L i. nxt L (gen i) = gen (Suc i)"
  shows "queries nxt reqs n L (gen i) = map (\<lambda>k. q (gen k)) [i..<i + n]"
    and "statuses nxt reqs (\<lambda>L g. resp_ec (answers w L)) n L (gen i) =
      map (\<lambda>f. resp_ec (answers w f)) [L..<L + n]"
proof -
  show "queries nxt reqs n L (gen i) = map (\<lambda>k. q (gen k)) [i..<i + n]"
    by (induction n arbitrary: L i) (simp_all add: assms upt_conv_Cons [of _ "Suc (_ + _)"] del: upt_Suc)
  show "statuses nxt reqs (\<lambda>L g. resp_ec (answers w L)) n L (gen i) =
      map (\<lambda>f. resp_ec (answers w f)) [L..<L + n]"
    by (induction n arbitrary: L i) (simp_all add: assms upt_conv_Cons [of _ "Suc (_ + _)"] del: upt_Suc)
qed

lemma counted_replies:
  assumes "results_view rs' = fold count_step (map (\<lambda>f. resp_ec (answers w f)) fs) (results_view rs)"
    and "stats rs = []"
  shows "msg_count (stats rs') m = int (count_list (map (reply_message w) fs) m)"
proof -
  have "map message_of (map (\<lambda>f. resp_ec (answers w f)) fs) = map (reply_message w) fs"
    by (simp add: reply_message_def)
  moreover have "msg_count (stats rs') m =
      int (count_list (map message_of (map (\<lambda>f. resp_ec (answers w f)) fs)) m)"
    using assms by (simp add: results_view_def fold_count_step)
  ultimately show ?thesis by metis
qed

section \<open>Analytics\<close>

definition cbas_request :: "HandleOptions \<Rightarrow> int \<Rightarrow> request" where
  "cbas_request opts g = AnalyticsReq \<lparr>a_statement = cbas_statement opts g, a_bucket = bucket opts,
     a_scope = (if useCollections opts then Some ''0'' else None)\<rparr>"

interpretation cbas: query_body w "cbas_round w opts k" "\<lambda>_. k \<noteq> 0"
  "\<lambda>L g. sint (word_of_int (g + 1) mod k)" "\<lambda>L g. [cbas_request opts g]" "\<lambda>L g. resp_ec (answers w L)"
  for w opts k
proof
  fix g :: int and rs io
  assume k: "k \<noteq> 0" and ok: "results_ok rs"
  obtain io1 rs1 where mb: "io_markBegin w (io, rs\<lparr>cbas_query_resp_count := 0\<rparr>) = (io1, rs1)"
    by (cases "io_markBegin w (io, rs\<lparr>cbas_query_resp_count := 0\<rparr>)")
  have f: "sent io1 = sent io" "do_cancel io1 = do_cancel io" "polls io1 = polls io" "results_ok rs1"
    "results_view rs1 = results_view rs"
    using mb ok by (auto simp: io_markBegin_def gettimeofday_def)
  define resp where "resp = answers w (length (sent io))"
  define io2 where "io2 = io1\<lparr>sent := sent io1 @ [cbas_request opts g]\<rparr>"
  define rs2 where "rs2 = rs1\<lparr>cbas_query_resp_count := word_of_nat (resp_rows resp)\<rparr>"
  have "results_ok rs2" using f by (simp add: rs2_def)
  then obtain io' rs' where r: "record_final w (resp_ec resp) (io2, rs2) = Inr (io', rs')" "results_ok rs'"
    "results_view rs' = count_step (resp_ec resp) (results_view rs2)" "same_requests io2 io'"
    by (rule record_final_ok)
  have "cbas_round w opts k (g, (io, rs)) = Inr (sint (word_of_int (g + 1) mod k), (io', rs'))"
    using mb r(1) k f(1)
    by (simp add: cbas_round_def execute_def execute_async_def io2_def rs2_def resp_def cbas_request_def)
  with r(2,3) f same_requests_fields [OF r(4)] k
  show "\<exists>io' rs'. cbas_round w opts k (g, (io, rs)) = Inr (sint (word_of_int (g + 1) mod k), (io', rs')) \<and>
      k \<noteq> 0 \<and> results_ok rs' \<and> results_view rs' =
      count_step (resp_ec (answers w (length (sent io)))) (results_view rs) \<and>
      sent io' = sent io @ [cbas_request opts g] \<and> do_cancel io' = do_cancel io \<and> polls io' = polls io"
    by (auto simp: io2_def rs2_def resp_def)
qed

lemma cbas_generator:
  assumes "0 < k" and "k < 2 ^ 31"
  shows "sint ((word_of_int (int i mod k + 1) :: 32 word) mod word_of_int k) = int (Suc i) mod k"
proof -
  have m: "0 \<le> int i mod k" "int i mod k < k" using assms by simp_all
  have inverse: "uint (word_of_int a :: 32 word) = a" if "0 \<le> a" "a \<le> 2 ^ 31" for a
    using that by (simp only: uint_word_of_int) simp
  have "uint (word_of_int k :: 32 word) = k" "uint (word_of_int (int i mod k + 1) :: 32 word) = int i mod k + 1"
    using m assms by (intro inverse; linarith)+
  then have u: "uint ((word_of_int (int i mod k + 1) :: 32 word) mod word_of_int k) = (int i mod k + 1) mod k"
    by (simp add: uint_mod)
  have lt: "(int i mod k + 1) mod k < 2 ^ 31" "0 \<le> (int i mod k + 1) mod k"
    using assms pos_mod_bound [of k "int i mod k + 1"] by (linarith, simp)
  have "(int i mod k + 1) mod k = int (Suc i) mod k" 
    using mod_add_left_eq [of "int i" k 1] by (simp add: add.commute)
  then show ?thesis
    using u lt by (simp add: sint_uint signed_take_bit_int_eq_self)
qed

text \<open>
  For a dataset of \<open>k\<close> documents, \<open>0 < k < 2^31\<close>, an analytics run that another thread cancels
  after \<open>n\<close> rounds returns, has sent \<open>n\<close> queries, the i-th for the value number \<open>i mod k\<close>, and the
  counters of the result set count the replies of exactly these queries.
\<close>

theorem cbas_cycles:
  assumes "jint64 J (payload req) CBSDKD_MSGFLD_CBAS_COUNT = Inr k" and "0 < k" and "k < 2 ^ 31"
    and "cancelled_after w (externalEnter (fst st)) n" and "n < fuel"
  shows "\<exists>io' rs'. CBAS_execute J w opts fuel req st = Inr (True, (io', rs')) \<and>
    sent io' = sent (fst st) @ map (\<lambda>i. cbas_request opts (int i mod k)) [0..<n] \<and>
    (\<forall>m. msg_count (stats rs') m =
      int (count_list (map (reply_message w) [length (sent (fst st))..<length (sent (fst st)) + n]) m))"
proof -
  define L where "L = length (sent (fst st))"
  define word_k :: "32 word" where "word_k = word_of_int k"
  have "uint word_k = k" using assms(2,3) unfolding word_k_def by (simp only: uint_word_of_int) simp
  with assms(2) have "word_k \<noteq> 0" by auto
  have sent: "sent (externalEnter (fst st)) = sent (fst st)" by (simp add: externalEnter_def)
  have nxt: "sint (word_of_int (int i mod k + 1) mod word_k) = int (Suc i) mod k" for i
    using cbas_generator [OF assms(2,3)] unfolding word_k_def .
  define nxt' where "nxt' = (\<lambda>(L::nat) g. sint (word_of_int (g + 1) mod word_k))"
  define reqs where "reqs = (\<lambda>(L::nat) g. [cbas_request opts g])"
  have step: "reqs L' g = [cbas_request opts g]" "nxt' L' (int i mod k) = int (Suc i) mod k" for L' g i
    unfolding reqs_def nxt'_def by (rule refl, rule nxt)
  have q: "queries nxt' reqs n L 0 = map (\<lambda>i. cbas_request opts (int i mod k)) [0..<n]"
    using queries_single(1) [where gen = "\<lambda>i. int i mod k" and i = 0 and reqs = reqs and nxt = nxt', OF step] by simp
  have s: "statuses nxt' reqs (\<lambda>L g. resp_ec (answers w L)) n L 0 = map (\<lambda>f. resp_ec (answers w f)) [L..<L + n]"
    using queries_single(2) [where w = w and gen = "\<lambda>i. int i mod k" and i = 0 and reqs = reqs and nxt = nxt', OF step] by simp
  from cbas.loop_ok [of word_k, OF \<open>word_k \<noteq> 0\<close> results_ok_clear assms(4,5), of opts 0 "snd st",
      unfolded sent, folded L_def nxt'_def reqs_def, unfolded q s]
  obtain g' io' rs' where run:
    "query_loop w (cbas_round w opts word_k) fuel (0, (externalEnter (fst st), clear_results (snd st))) =
       Inr (g', (io', rs'))"
    and v: "results_view rs' = fold count_step (map (\<lambda>f. resp_ec (answers w f)) [L..<L + n])
       (results_view (clear_results (snd st)))"
    and s: "sent io' = sent (fst st) @ map (\<lambda>i. cbas_request opts (int i mod k)) [0..<n]"
    by blast
  have "msg_count (stats rs') m = int (count_list (map (reply_message w) [L..<L + n]) m)" for m
    by (rule counted_replies [OF v]) (simp add: clear_results_def)
  with run s assms(1) show ?thesis by (simp add: CBAS_execute_def word_k_def L_def)
qed

text \<open>A request with one member, and an environment that cancels after \<open>n\<close> tests.\<close>

definition field_request :: "(string \<times> jval) list \<Rightarrow> jval Message" where
  "field_request kvs = \<lparr>reqid = 1, handle_id = 1, command = \<lparr>cmdstr = [], cmd_code = CB_AS_QUERY\<rparr>,
     payload = JObj kvs, msg_err = Error_new\<rparr>"

definition cancel_at :: "nat \<Rightarrow> world" where
  "cancel_at n = all_ok_world\<lparr>cancels := \<lambda>i. i = n\<rparr>"

lemma sent_start [simp]: "sent io_start = []"
  by (simp add: io_start_def)

lemma cancelled_after_start [simp]:
  "cancelled_after (cancel_at n) (externalEnter io_start) n"
  by (simp add: cancelled_after_def cancel_at_def io_start_def externalEnter_def)

lemma cbas_cycles_witness:
  "\<exists>io' rs'. CBAS_execute Jref (cancel_at 3) (many_options 1 1) 9
       (field_request [(CBSDKD_MSGFLD_CBAS_COUNT, JInt 2)]) (io_start, example_results) = Inr (True, (io', rs')) \<and>
     sent io' = map (\<lambda>g. cbas_request (many_options 1 1) g) [0, 1, 0]"
proof -
  have c: "jint64 Jref (payload (field_request [(CBSDKD_MSGFLD_CBAS_COUNT, JInt 2)])) CBSDKD_MSGFLD_CBAS_COUNT = Inr 2"
    by (simp add: field_request_def jint64_def jfield_def Jref_def Jref_with_def jv_member_def)
  have l: "map (\<lambda>i. cbas_request opts (int i mod 2)) [0..<3] = map (cbas_request opts) [0, 1, 0]" for opts
    by (simp add: upt_rec)
  from cbas_cycles [OF c, where w = "cancel_at 3" and st = "(io_start, example_results)" and n = 3 and fuel = 9
      and opts = "many_options 1 1"]
  show ?thesis using cancelled_after_start [of 3] by (auto simp: l sent_start)
qed

text \<open>
  An analytics run with a count of zero, in 32 bits, sends one query and records its status, and then
  divides by zero, unless it is cancelled before its first round.
\<close>

theorem cbas_zero_count_traps:
  assumes "jint64 J (payload req) CBSDKD_MSGFLD_CBAS_COUNT = Inr k" and "2 ^ 32 dvd k"
    and "\<not> cancels w (polls (fst st))" and "0 < fuel"
  shows "CBAS_execute J w opts fuel req st = Inl ArithTrap"
proof -
  have "word_of_int k = (0 :: 32 word)" using assms(2) by (simp add: word_of_int_eq_0_iff)
  obtain f where f: "fuel = Suc f" using assms(4) by (cases fuel) auto
  define io1 where "io1 = (fst st)\<lparr>do_cancel := False, polls := polls (fst st) + 1\<rparr>"
  have poll: "poll_cancel w (externalEnter (fst st), clear_results (snd st)) = (False, (io1, clear_results (snd st)))"
    using assms(3) by (simp add: poll_cancel_def isCancelled_def externalEnter_def io1_def)
  obtain io2 rs2 where mb: "io_markBegin w (io1, (clear_results (snd st))\<lparr>cbas_query_resp_count := 0\<rparr>) = (io2, rs2)"
    by (cases "io_markBegin w (io1, (clear_results (snd st))\<lparr>cbas_query_resp_count := 0\<rparr>)")
  have "results_ok rs2" using mb by (auto simp: io_markBegin_def gettimeofday_def)
  then have "results_ok (rs2\<lparr>cbas_query_resp_count := n\<rparr>)" for n by simp
  then have "\<exists>x. record_final w e (io3, rs2\<lparr>cbas_query_resp_count := n\<rparr>) = Inr x" for e io3 n
    using record_final_ok [of "rs2\<lparr>cbas_query_resp_count := n\<rparr>" w e io3] by metis
  with mb have "cbas_round w opts 0 (0, (io1, clear_results (snd st))) = Inl ArithTrap"
    by (force simp add: cbas_round_def execute_def execute_async_def rbind_eq_Inl)
  with f poll assms(1) \<open>word_of_int k = 0\<close> show ?thesis by (simp add: CBAS_execute_def)
qed

lemma cbas_zero_count_traps_witness:
  "CBAS_execute Jref all_ok_world (many_options 1 1) 1
     (field_request [(CBSDKD_MSGFLD_CBAS_COUNT, JInt 0)]) (io_start, example_results) = Inl ArithTrap"
  by (rule cbas_zero_count_traps [of _ _ 0])
    (simp_all add: field_request_def jint64_def jfield_def Jref_def Jref_with_def jv_member_def all_ok_world_def)

section \<open>Full text search\<close>

definition fts_term :: "int \<Rightarrow> string" where
  "fts_term g = (if g smod 2 = 0 then ''SampleValue'' @ int_to_string (g sdiv 2)
     else ''SampleSubvalue'' @ int_to_string (g sdiv 2))"

definition fts_request :: "'j json_api \<Rightarrow> string \<Rightarrow> int \<Rightarrow> int \<Rightarrow> request" where
  "fts_request J indexName ncolls g =
     SearchReq \<lparr>s_index_name = indexName,
       s_query = j_write J (the (j_set J (j_null J) ''match'' (j_str J (fts_term g)))),
       s_collections = (if ncolls \<noteq> 0 then collectionsForSearch ncolls else []), s_mutation_state = []\<rparr>"

definition fts_next :: "int \<Rightarrow> fts_state \<Rightarrow> fts_state" where
  "fts_next k f = f\<lparr>f_generator := to_int32 (f_generator f + 1) smod to_int32 (2 * k)\<rparr>"

interpretation fts: query_body w "fts_round J w opts indexName k True"
  "\<lambda>f. json_object J \<and> to_int32 (2 * k) \<noteq> 0" "\<lambda>L f. fts_next k f"
  "\<lambda>L f. [fts_request J indexName (f_collections f) (f_generator (fts_next k f))]"
  "\<lambda>L f. resp_ec (answers w L)"
  for w J opts indexName k
proof
  fix f :: fts_state and rs io
  assume good: "json_object J \<and> to_int32 (2 * k) \<noteq> 0" and ok: "results_ok rs"
  define rq where "rq = fts_request J indexName (f_collections f) (f_generator (fts_next k f))"
  obtain io1 rs1 where mb: "io_markBegin w (io, rs) = (io1, rs1)" by (cases "io_markBegin w (io, rs)")
  have f: "sent io1 = sent io" "do_cancel io1 = do_cancel io" "polls io1 = polls io" "results_ok rs1"
    "results_view rs1 = results_view rs"
    using mb ok by (auto simp: io_markBegin_def gettimeofday_def)
  obtain q where q: "j_set J (j_null J) ''match'' (j_str J (fts_term (f_generator (fts_next k f)))) = Some q"
    using json_object.set_null [of J "''match''"] good by blast
  define resp where "resp = answers w (length (sent io))"
  define io2 where "io2 = io1\<lparr>sent := sent io1 @ [rq]\<rparr>"
  define rs2 where "rs2 = rs1\<lparr>fts_query_resp_count := word_of_nat (resp_rows resp)\<rparr>"
  have "results_ok rs2" using f by (simp add: rs2_def)
  then obtain io' rs' where r: "record_final w (resp_ec resp) (io2, rs2) = Inr (io', rs')" "results_ok rs'"
    "results_view rs' = count_step (resp_ec resp) (results_view rs2)" "same_requests io2 io'"
    by (rule record_final_ok)
  have "runSearchOnPreloadedData J w indexName k (f, (io, rs)) = Inr (resp_ec resp, (fts_next k f, (io2, rs2)))"
    using mb f(1) good q
    by (simp add: runSearchOnPreloadedData_def execute_def execute_async_def jset_def fts_next_def
        fts_term_def fts_request_def search_collections_def Let_def rq_def io2_def rs2_def resp_def)
  with r(1) have "fts_round J w opts indexName k True (f, (io, rs)) = Inr (fts_next k f, (io', rs'))"
    by (simp add: fts_round_def)
  with r(2,3) f same_requests_fields [OF r(4)] good
  show "\<exists>io' rs'. fts_round J w opts indexName k True (f, (io, rs)) = Inr (fts_next k f, (io', rs')) \<and>
      (json_object J \<and> to_int32 (2 * k) \<noteq> 0) \<and> results_ok rs' \<and>
      results_view rs' = count_step (resp_ec (answers w (length (sent io)))) (results_view rs) \<and>
      sent io' = sent io @ [fts_request J indexName (f_collections f) (f_generator (fts_next k f))] \<and>
      do_cancel io' = do_cancel io \<and> polls io' = polls io"
    by (auto simp: io2_def rs2_def resp_def rq_def)
qed

lemma to_int32_small: "- (2 ^ 31) \<le> i \<Longrightarrow> i < 2 ^ 31 \<Longrightarrow> to_int32 i = i"
  by (simp add: to_int32_def signed_of_int signed_take_bit_int_eq_self)

lemma smod_pos: "0 \<le> a \<Longrightarrow> 0 < b \<Longrightarrow> a smod b = a mod (b::int)"
  by (simp add: signed_modulo_int_def signed_divide_int_def modulo_int_def sgn_if)

lemma fts_generator:
  assumes "0 < k" and "k < 2 ^ 30" and "f_generator f = int i mod (2 * k)"
  shows "fts_next k f = f\<lparr>f_generator := int (Suc i) mod (2 * k)\<rparr>"
proof -
  have k: "to_int32 (2 * k) = 2 * k" by (rule to_int32_small) (use assms in simp_all)
  have m: "0 \<le> int i mod (2 * k)" "int i mod (2 * k) < 2 * k" using assms by simp_all
  then have "to_int32 (int i mod (2 * k) + 1) = int i mod (2 * k) + 1"
    using assms(2) by (intro to_int32_small; simp)
  moreover have "(int i mod (2 * k) + 1) smod (2 * k) = (int i mod (2 * k) + 1) mod (2 * k)"
    using m assms by (intro smod_pos) auto
  moreover have "(int i mod (2 * k) + 1) mod (2 * k) = int (Suc i) mod (2 * k)"
    using mod_add_left_eq [of "int i" "2 * k" 1] by (simp add: add.commute)
  ultimately show ?thesis using k assms(3) by (simp add: fts_next_def)
qed

text \<open>
  C35: a search run that does not ask for \<open>at_plus\<close>, over \<open>k\<close> documents with \<open>0 < k < 2^30\<close>, and is
  cancelled after \<open>n\<close> rounds, has sent \<open>n\<close> searches: the i-th (from 0) for term number
  \<open>(i + 1) mod 2k\<close>, which alternates between subvalues and values; every reply is counted.
\<close>

theorem fts_cycles:
  assumes "json_object J" and "jstr J (payload req) CBSDKD_MSGFLD_FTS_INDEXNAME = Inr indexName"
    and "jint64 J (payload req) CBSDKD_MSGFLD_FTS_COUNT = Inr k" and "0 < k" and "k < 2 ^ 30"
    and "jint64 J (payload req) CBSDKD_MSGFLD_FTS_COLLECTIONS = Inr ncolls"
    and "jfield J (payload req) CBSDKD_MSGFLD_FTS_CONSISTENCY = Inr c"
    and "j_asCString J c = Some consistency" and "c_string consistency \<noteq> ''at_plus''"
    and "cancelled_after w (externalEnter (fst st)) n" and "n < fuel"
  shows "\<exists>io' rs'. FTS_execute J w opts fuel req st = Inr (True, (io', rs')) \<and>
    sent io' = sent (fst st) @
      map (\<lambda>i. fts_request J indexName (to_int32 ncolls) (int (Suc i) mod (2 * k))) [0..<n] \<and>
    (\<forall>m. msg_count (stats rs') m =
      int (count_list (map (reply_message w) [length (sent (fst st))..<length (sent (fst st)) + n]) m))"
proof -
  define L where "L = length (sent (fst st))"
  define gen where "gen = (\<lambda>i. \<lparr>f_generator = int i mod (2 * k), f_collections = to_int32 ncolls\<rparr>)"
  define q where "q = (\<lambda>f. fts_request J indexName (f_collections f) (f_generator (fts_next k f)))"
  have k32: "to_int32 k = k" "to_int32 (2 * k) \<noteq> 0"
    using assms(4,5) by (simp_all add: to_int32_small)
  have sent: "sent (externalEnter (fst st)) = sent (fst st)" by (simp add: externalEnter_def)
  define nxt' where "nxt' = (\<lambda>(L::nat) f. fts_next k f)"
  define reqs where
    "reqs = (\<lambda>(L::nat) f. [fts_request J indexName (f_collections f) (f_generator (fts_next k f))])"
  have step: "reqs L' g = [q g]" "nxt' L' (gen i) = gen (Suc i)" for L' g i
    using fts_generator [OF assms(4,5), of "gen i" i] by (simp_all add: reqs_def nxt'_def gen_def q_def)
  have qs: "queries nxt' reqs n L (gen 0) = map (\<lambda>i. q (gen i)) [0..<n]"
    using queries_single(1) [where gen = gen and i = 0 and reqs = reqs and nxt = nxt', OF step] by simp
  have ss: "statuses nxt' reqs (\<lambda>L g. resp_ec (answers w L)) n L (gen 0) =
      map (\<lambda>f. resp_ec (answers w f)) [L..<L + n]"
    using queries_single(2) [where w = w and gen = gen and i = 0 and reqs = reqs and nxt = nxt', OF step] by simp
  have good: "json_object J \<and> to_int32 (2 * k) \<noteq> 0" using assms(1) k32 by simp
  from fts.loop_ok [of J k, OF good results_ok_clear assms(10,11), of opts indexName "gen 0" "snd st",
      unfolded sent, folded L_def nxt'_def reqs_def, unfolded qs ss]
  obtain g' io' rs' where run: "query_loop w (fts_round J w opts indexName k True) fuel
      (gen 0, (externalEnter (fst st), clear_results (snd st))) = Inr (g', (io', rs'))"
    and v: "results_view rs' = fold count_step (map (\<lambda>f. resp_ec (answers w f)) [L..<L + n])
       (results_view (clear_results (snd st)))"
    and s: "sent io' = sent (fst st) @ map (\<lambda>i. q (gen i)) [0..<n]"
    by blast
  have "msg_count (stats rs') m = int (count_list (map (reply_message w) [L..<L + n]) m)" for m
    by (rule counted_replies [OF v]) (simp add: clear_results_def)
  moreover have "FTS_execute J w opts fuel req st = Inr (True, (io', rs'))"
    using run assms(2,3,6-9) k32 by (simp add: FTS_execute_def gen_def)
  moreover have "q (gen i) = fts_request J indexName (to_int32 ncolls) (int (Suc i) mod (2 * k))" for i
    using fts_generator [OF assms(4,5), of "gen i" i] by (simp add: q_def gen_def)
  ultimately show ?thesis using s by (auto simp: L_def)
qed

definition search_fields :: "(string \<times> jval) list" where
  "search_fields = [(CBSDKD_MSGFLD_FTS_INDEXNAME, JStr ''ix''), (CBSDKD_MSGFLD_FTS_COUNT, JInt 1),
     (CBSDKD_MSGFLD_FTS_COLLECTIONS, JInt 2), (CBSDKD_MSGFLD_FTS_CONSISTENCY, JStr ''not_bounded'')]"

lemma fts_cycles_witness:
  "\<exists>io' rs'. FTS_execute Jref (cancel_at 3) (many_options 1 1) 9 (field_request search_fields)
       (io_start, example_results) = Inr (True, (io', rs')) \<and>
     sent io' = map (fts_request Jref ''ix'' 2) [1, 0, 1]"
proof -
  note defs = field_request_def search_fields_def jint64_def jstr_def jfield_def jasString_def Jref_def
    Jref_with_def jv_member_def
  have f: "jstr Jref (payload (field_request search_fields)) CBSDKD_MSGFLD_FTS_INDEXNAME = Inr ''ix''"
    "jint64 Jref (payload (field_request search_fields)) CBSDKD_MSGFLD_FTS_COUNT = Inr 1"
    "jint64 Jref (payload (field_request search_fields)) CBSDKD_MSGFLD_FTS_COLLECTIONS = Inr 2"
    "jfield Jref (payload (field_request search_fields)) CBSDKD_MSGFLD_FTS_CONSISTENCY = Inr (JStr ''not_bounded'')"
    "j_asCString Jref (JStr ''not_bounded'') = Some ''not_bounded''"
    "c_string ''not_bounded'' \<noteq> ''at_plus''"
    by (simp_all add: defs c_string_def)
  have l: "map (\<lambda>i. r (int (Suc i) mod (2 * 1))) [0..<3] = map r [1, 0, 1]" for r :: "int \<Rightarrow> request"
    by (simp add: upt_rec)
  have t: "to_int32 2 = 2" by (simp add: to_int32_small)
  from fts_cycles [OF Jref_object f(1,2) _ _ f(3-6), where w = "cancel_at 3" and n = 3 and fuel = 9
      and st = "(io_start, example_results)" and opts = "many_options 1 1"]
  show ?thesis using cancelled_after_start [of 3] by (simp only: l t fst_conv sent_start) fastforce
qed

section \<open>N1QL\<close>

definition n1ql_key :: "64 word \<Rightarrow> string" where
  "n1ql_key hid = nat_to_string (unat hid)"

definition n1ql_vals :: "n1ql_config \<Rightarrow> nat \<Rightarrow> string list" where
  "n1ql_vals cfg ii = butlast (n_values cfg) @ [nat_to_string ii]"

text \<open>The document a round stores, the tokens it knows afterwards, and its two requests.\<close>

definition n1ql_doc :: "'j json_api \<Rightarrow> 64 word \<Rightarrow> n1ql_config \<Rightarrow> nat \<Rightarrow> string" where
  "n1ql_doc J hid cfg ii = j_write J (projr (rbind (jset J (j_null J) ''id'' (j_str J (n1ql_key hid)))
     (\<lambda>d. set_params J d (n_params cfg) (n1ql_vals cfg ii))))"

definition known_tokens :: "world \<Rightarrow> nat \<Rightarrow> nat list \<Rightarrow> nat list" where
  "known_tokens w L tokens =
     (if resp_ec (answers w L) = None then tokens @ [resp_token (answers w L)] else tokens)"

definition n1ql_upsert :: "'j json_api \<Rightarrow> HandleOptions \<Rightarrow> 64 word \<Rightarrow> n1ql_config \<Rightarrow> nat \<Rightarrow> request" where
  "n1ql_upsert J opts hid cfg ii =
     UpsertReq (document_id_of opts (n1ql_key hid) (projr (getCollection opts (n1ql_key hid))))
       (n1ql_doc J hid cfg ii) None"

definition n1ql_query :: "HandleOptions \<Rightarrow> n1ql_config \<Rightarrow> nat \<Rightarrow> nat list \<Rightarrow> request" where
  "n1ql_query opts cfg ii tokens =
     QueryReq \<lparr>q_adhoc = \<not> n_prepared cfg, q_flex_index = n_flex cfg, q_bucket = bucket opts,
       q_statement = projr (n1ql_statement opts (n_index_type cfg) (n_params cfg) (n1ql_vals cfg ii)),
       q_scope = (if useCollections opts then Some ''0'' else None),
       q_consistency = (if n_consistency cfg = ''request_plus'' then RequestPlus
         else if n_consistency cfg = ''at_plus'' then AtPlus tokens else NotBounded)\<rparr>"

definition n1ql_good :: "HandleOptions \<Rightarrow> n1ql_config \<Rightarrow> bool" where
  "n1ql_good opts cfg \<longleftrightarrow> routable opts \<and> ''id'' \<notin> set (n_params cfg) \<and>
     n_values cfg \<noteq> [] \<and> length (n_params cfg) \<le> length (n_values cfg)"

lemma length_n1ql_vals: "n_values cfg \<noteq> [] \<Longrightarrow> length (n1ql_vals cfg ii) = length (n_values cfg)"
  by (cases "n_values cfg" rule: rev_cases) (simp_all add: n1ql_vals_def)

context json_object
begin

lemma insertDoc_ok:
  assumes "n1ql_good opts cfg"
  shows "insertDoc J w opts hid (n_params cfg) (n1ql_vals cfg ii) (io, tokens) =
    Inr (resp_ec (answers w (length (sent io))) = None,
      (io\<lparr>sent := sent io @ [n1ql_upsert J opts hid cfg ii]\<rparr>, known_tokens w (length (sent io)) tokens))"
proof -
  have g: "routable opts" "''id'' \<notin> set (n_params cfg)"
    "length (n_params cfg) \<le> length (n1ql_vals cfg ii)"
    using assms by (simp_all add: n1ql_good_def length_n1ql_vals)
  obtain d where d: "jset J (j_null J) ''id'' (j_str J (n1ql_key hid)) = Inr d" "settable d"
    and "\<And>k. j_get J d k = (if k = ''id'' then Some (j_str J (n1ql_key hid)) else j_get J (j_null J) k)"
    using jset_ok [OF settable_null] by blast
  then have id: "j_get J d ''id'' = Some (j_str J (n1ql_key hid))" by simp
  obtain d' where d': "set_params J d (n_params cfg) (n1ql_vals cfg ii) = Inr d'"
    "j_get J d' ''id'' = Some (j_str J (n1ql_key hid))"
    using set_params_ok [OF d(2) g(3)] id g(2) by metis
  obtain p where p: "getCollection opts (n1ql_key hid) = Inr p"
    using number_routes [OF g(1)] unfolding n1ql_key_def by blast
  have key: "jstr J d' ''id'' = Inr (n1ql_key hid)"
    by (simp add: jstr_def jfield_def jasString_def d'(2) asString_str)
  have doc: "n1ql_doc J hid cfg ii = j_write J d'" by (simp add: n1ql_doc_def d(1) d'(1))
  show ?thesis
    by (simp add: insertDoc_def execute_def execute_async_def n1ql_key_def [symmetric] d(1) d'(1) key p
        n1ql_upsert_def doc known_tokens_def)
qed

end

lemma where_clause_ok: "length ps \<le> length vs \<Longrightarrow> \<exists>c. where_clause b ps vs = Inr c"
proof (induction b ps vs rule: where_clause.induct)
  case (3 b p ps v vs)
  then obtain c where "where_clause False ps vs = Inr c" by auto
  then show ?case by simp
qed simp_all

lemma n1ql_statement_ok:
  assumes "length ps \<le> length vs"
  obtains q where "n1ql_statement opts t ps vs = Inr q"
proof -
  obtain c where "where_clause True ps vs = Inr c" using where_clause_ok [OF assms] by blast
  then show thesis by (cases "t = ''secondary''") (auto simp: n1ql_statement_def Let_def intro: that)
qed

interpretation n1ql: query_body w "n1ql_round J w opts hid cfg" "\<lambda>_. json_object J \<and> n1ql_good opts cfg"
  "\<lambda>L s. (fst s + 1, known_tokens w L (snd s))"
  "\<lambda>L s. [n1ql_upsert J opts hid cfg (fst s), n1ql_query opts cfg (fst s) (known_tokens w L (snd s))]"
  "\<lambda>L s. resp_ec (answers w (L + 1))"
  for w J opts hid cfg
proof
  fix s :: "nat \<times> nat list" and rs and io :: io
  assume good: "json_object J \<and> n1ql_good opts cfg" and ok: "results_ok rs"
  obtain ii tokens where s: "s = (ii, tokens)" by (cases s)
  define L where "L = length (sent io)"
  define io1 where "io1 = io\<lparr>sent := sent io @ [n1ql_upsert J opts hid cfg ii]\<rparr>"
  define tk where "tk = known_tokens w L tokens"
  define rs2 where "rs2 = rs\<lparr>query_resp_count := 0, scan_consistency := n_consistency cfg\<rparr>"
  obtain io2 rs3 where mb: "io_markBegin w (io1, rs2) = (io2, rs3)" by (cases "io_markBegin w (io1, rs2)")
  have f: "sent io2 = sent io @ [n1ql_upsert J opts hid cfg ii]" "do_cancel io2 = do_cancel io"
    "polls io2 = polls io" "results_ok rs3" "results_view rs3 = results_view rs"
    using mb ok by (auto simp: io_markBegin_def gettimeofday_def io1_def rs2_def)
  have len: "length (n_params cfg) \<le> length (n1ql_vals cfg ii)"
    using good by (simp add: n1ql_good_def length_n1ql_vals)
  obtain q where q: "n1ql_statement opts (n_index_type cfg) (n_params cfg) (n1ql_vals cfg ii) = Inr q"
    using n1ql_statement_ok [OF len] .
  define resp where "resp = answers w (L + 1)"
  define io3 where "io3 = io2\<lparr>sent := sent io2 @ [n1ql_query opts cfg ii tk]\<rparr>"
  define rs4 where "rs4 = rs3\<lparr>query_resp_count := word_of_nat (resp_rows resp)\<rparr>"
  have "results_ok rs4" using f by (simp add: rs4_def)
  then obtain io' rs' where r: "record_final w (resp_ec resp) (io3, rs4) = Inr (io', rs')" "results_ok rs'"
    "results_view rs' = count_step (resp_ec resp) (results_view rs4)" "same_requests io3 io'"
    by (rule record_final_ok)
  have ins: "insertDoc J w opts hid (n_params cfg) (n1ql_vals cfg ii) (io, tokens) =
      Inr (resp_ec (answers w L) = None, (io1, tk))"
    using json_object.insertDoc_ok [of J opts cfg] good by (simp add: io1_def tk_def L_def)
  have "n1ql_round J w opts hid cfg (s, (io, rs)) = Inr ((ii + 1, tk), (io', rs'))"
    using mb ins q r(1) f(1)
    by (simp add: n1ql_round_def s n1ql_vals_def [symmetric] rs2_def execute_def execute_async_def
        n1ql_query_def io3_def rs4_def resp_def L_def)
  with r(2,3) f same_requests_fields [OF r(4)] good
  show "\<exists>io' rs'. n1ql_round J w opts hid cfg (s, (io, rs)) =
        Inr ((fst s + 1, known_tokens w (length (sent io)) (snd s)), (io', rs')) \<and>
      (json_object J \<and> n1ql_good opts cfg) \<and> results_ok rs' \<and>
      results_view rs' = count_step (resp_ec (answers w (length (sent io) + 1))) (results_view rs) \<and>
      sent io' = sent io @ [n1ql_upsert J opts hid cfg (fst s),
        n1ql_query opts cfg (fst s) (known_tokens w (length (sent io)) (snd s))] \<and>
      do_cancel io' = do_cancel io \<and> polls io' = polls io"
    by (auto simp: s io3_def rs4_def resp_def tk_def L_def)
qed

text \<open>The tokens of the first \<open>n\<close> documents stored, those whose store failed left out.\<close>

definition written :: "world \<Rightarrow> nat \<Rightarrow> nat \<Rightarrow> nat list" where
  "written w L n = [resp_token (answers w (L + 2 * j)). j \<leftarrow> [0..<n], resp_ec (answers w (L + 2 * j)) = None]"

lemma written_Suc: "written w L (Suc n) = known_tokens w (L + 2 * n) (written w L n)"
  by (simp add: written_def known_tokens_def)

definition n1ql_requests ::
    "'j json_api \<Rightarrow> world \<Rightarrow> HandleOptions \<Rightarrow> 64 word \<Rightarrow> n1ql_config \<Rightarrow> nat \<Rightarrow> nat \<Rightarrow> request list" where
  "n1ql_requests J w opts hid cfg L i =
     [n1ql_upsert J opts hid cfg i, n1ql_query opts cfg i (written w L (Suc i))]"

lemma n1ql_queries:
  assumes "\<And>L s. nxt L s = (fst s + 1, known_tokens w L (snd s))"
    and "\<And>L s. reqs L s = [n1ql_upsert J opts hid cfg (fst s), n1ql_query opts cfg (fst s) (known_tokens w L (snd s))]"
  shows "queries nxt reqs n (L + 2 * i) (i, written w L i) =
      concat (map (n1ql_requests J w opts hid cfg L) [i..<i + n])"
    and "statuses nxt reqs (\<lambda>L s. resp_ec (answers w (L + 1))) n (L + 2 * i) (i, written w L i) =
      map (\<lambda>f. resp_ec (answers w f)) (map (\<lambda>j. L + 2 * j + 1) [i..<i + n])"
proof -
  have nx: "nxt (L + 2 * i) (i, written w L i) = (Suc i, written w L (Suc i))" for i
    by (simp add: assms(1) written_Suc)
  have rq: "reqs (L + 2 * i) (i, written w L i) = n1ql_requests J w opts hid cfg L i" for i
    by (simp add: assms(2) n1ql_requests_def written_Suc)
  have two: "L + 2 * i + length (n1ql_requests J w opts hid cfg L i) = L + 2 * Suc i" for i
    by (simp add: n1ql_requests_def)
  have up: "[i..<i + Suc n] = i # [Suc i..<Suc i + n]" for i n :: nat
    by (simp add: upt_conv_Cons del: upt_Suc)
  show "queries nxt reqs n (L + 2 * i) (i, written w L i) =
      concat (map (n1ql_requests J w opts hid cfg L) [i..<i + n])"
  proof (induction n arbitrary: i)
    case (Suc n)
    show ?case unfolding queries.simps nx rq two up Suc.IH by simp
  qed simp
  show "statuses nxt reqs (\<lambda>L s. resp_ec (answers w (L + 1))) n (L + 2 * i) (i, written w L i) =
      map (\<lambda>f. resp_ec (answers w f)) (map (\<lambda>j. L + 2 * j + 1) [i..<i + n])"
  proof (induction n arbitrary: i)
    case (Suc n)
    show ?case unfolding statuses.simps nx rq two up Suc.IH by simp
  qed simp
qed

lemma n1ql_configure_values: "n1ql_configure J hid up uf req = Inr cfg \<Longrightarrow> n_values cfg \<noteq> []"
  by (auto simp: n1ql_configure_def Let_def rbind_eq_Inr)

text \<open>
  C12: in an N1QL run cancelled after \<open>n\<close> rounds, round i stores the document of the handle and
  then sends its query; with \<open>at_plus\<close> the query asks for the tokens of all documents stored
  so far, its own included. Only the queries are counted: the reply to a store is not.
\<close>

theorem n1ql_reads_own_writes:
  assumes "json_object J" and "n1ql_configure J hid up uf req = Inr cfg"
    and "''id'' \<notin> set (n_params cfg)" and "length (n_params cfg) \<le> length (n_values cfg)"
    and "routable opts"
    and "cancelled_after w (externalEnter (fst st)) n" and "n < fuel"
  shows "\<exists>io' rs'. N1QL_execute J w opts hid up uf fuel req st = Inr (True, (io', rs')) \<and>
    sent io' = sent (fst st) @
      concat (map (n1ql_requests J w opts hid cfg (length (sent (fst st)))) [0..<n]) \<and>
    (\<forall>m. msg_count (stats rs') m = int (count_list (map (reply_message w)
      (map (\<lambda>i. length (sent (fst st)) + 2 * i + 1) [0..<n])) m))"
proof -
  define L where "L = length (sent (fst st))"
  have sent: "sent (externalEnter (fst st)) = sent (fst st)" by (simp add: externalEnter_def)
  have good: "json_object J \<and> n1ql_good opts cfg"
    using assms(1-5) n1ql_configure_values [OF assms(2)] by (simp add: n1ql_good_def)
  define nxt' where "nxt' = (\<lambda>L s. (fst s + 1 :: nat, known_tokens w L (snd s)))"
  define reqs where "reqs = (\<lambda>L s. [n1ql_upsert J opts hid cfg (fst s),
    n1ql_query opts cfg (fst s) (known_tokens w L (snd s))])"
  have step: "nxt' L s = (fst s + 1, known_tokens w L (snd s))"
    "reqs L s = [n1ql_upsert J opts hid cfg (fst s), n1ql_query opts cfg (fst s) (known_tokens w L (snd s))]" for L s
    by (simp_all add: nxt'_def reqs_def)
  have "written w L 0 = []" by (simp add: written_def)
  then have qs: "queries nxt' reqs n L (0, []) = concat (map (n1ql_requests J w opts hid cfg L) [0..<n])"
    and ss: "statuses nxt' reqs (\<lambda>L s. resp_ec (answers w (L + 1))) n L (0, []) =
      map (\<lambda>f. resp_ec (answers w f)) (map (\<lambda>j. L + 2 * j + 1) [0..<n])"
    using n1ql_queries [where nxt = nxt' and reqs = reqs and L = L and i = 0 and n = n, OF step] by simp_all
  from n1ql.loop_ok [of J opts cfg, OF good results_ok_clear assms(6,7), of hid "(0, [])" "snd st",
      unfolded sent, folded L_def nxt'_def reqs_def, unfolded qs ss]
  obtain g' io' rs' where run: "query_loop w (n1ql_round J w opts hid cfg) fuel
      ((0, []), (externalEnter (fst st), clear_results (snd st))) = Inr (g', (io', rs'))"
    and v: "results_view rs' = fold count_step (map (\<lambda>f. resp_ec (answers w f)) (map (\<lambda>j. L + 2 * j + 1) [0..<n]))
       (results_view (clear_results (snd st)))"
    and s: "sent io' = sent (fst st) @ concat (map (n1ql_requests J w opts hid cfg L) [0..<n])"
    by blast
  have "msg_count (stats rs') m = int (count_list (map (reply_message w) (map (\<lambda>j. L + 2 * j + 1) [0..<n])) m)" for m
    by (rule counted_replies [OF v]) (simp add: clear_results_def)
  with run s assms(2) show ?thesis by (simp add: N1QL_execute_def L_def)
qed

definition query_fields :: "(string \<times> jval) list" where
  "query_fields = [(CBSDKD_MSGFLD_NQ_PARAM, JStr ''a,b''), (CBSDKD_MSGFLD_NQ_PARAMVALUES, JStr ''1,2''),
     (CBSDKD_MSGFLD_NQ_SCANCONSISTENCY, JStr ''at_plus''), (CBSDKD_MSGFLD_NQ_PREPARED, JStr ''true'')]"

definition query_config :: n1ql_config where
  "query_config = \<lparr>n_consistency = ''at_plus'', n_index_type = [], n_prepared = True, n_flex = False,
     n_params = [''a'', ''b'', ''handleid'', ''unique_id''], n_values = [''1'', ''2'', ''5'', ''0'']\<rparr>"

lemma n1ql_reads_own_writes_witness:
  "\<exists>io' rs'. N1QL_execute Jref (cancel_at 2) (many_options 1 1) 5 False False 9 (field_request query_fields)
       (io_start, example_results) = Inr (True, (io', rs')) \<and>
     sent io' = [n1ql_upsert Jref (many_options 1 1) 5 query_config 0,
       n1ql_query (many_options 1 1) query_config 0 [0],
       n1ql_upsert Jref (many_options 1 1) 5 query_config 1,
       n1ql_query (many_options 1 1) query_config 1 [0, 2]]"
proof -
  have c: "n1ql_configure Jref 5 False False (field_request query_fields) = Inr query_config"
    by code_simp
  have h: "''id'' \<notin> set (n_params query_config)" "length (n_params query_config) \<le> length (n_values query_config)"
    "routable (many_options 1 1)"
    by (simp_all add: query_config_def routable_def many_options_def)
  have l: "concat (map (n1ql_requests Jref (cancel_at 2) o' hid cfg 0) [0..<2]) =
      [n1ql_upsert Jref o' hid cfg 0, n1ql_query o' cfg 0 [0], n1ql_upsert Jref o' hid cfg 1, n1ql_query o' cfg 1 [0, 2]]"
    for o' hid cfg
    by (simp add: upt_rec n1ql_requests_def written_def cancel_at_def all_ok_world_def)
  from n1ql_reads_own_writes [OF Jref_object c h, where w = "cancel_at 2" and n = 2 and fuel = 9
      and st = "(io_start, example_results)"]
  show ?thesis using cancelled_after_start [of 2]
    by (simp only: fst_conv sent_start list.size l append_Nil) fastforce
qed

section \<open>Views\<close>

definition view_query :: "HandleOptions \<Rightarrow> string \<Rightarrow> string \<Rightarrow> nat option \<Rightarrow> nat option \<Rightarrow> request" where
  "view_query opts dname vname vlimit skip = ViewReq \<lparr>v_bucket = bucket opts, v_document = dname,
     v_view = vname, v_limit = vlimit, v_skip = skip\<rparr>"

lemma view_round_ok:
  assumes "results_ok rs"
  obtains io' rs' where "view_round w opts dname vname vlimit skip (io, rs) = Inr (io', rs')" and "results_ok rs'"
    and "results_view rs' = count_step (resp_ec (answers w (length (sent io)))) (results_view rs)"
    and "sent io' = sent io @ [view_query opts dname vname vlimit skip]" and "do_cancel io' = do_cancel io"
    and "polls io' = polls io" and "slept io' = slept io"
proof -
  obtain io1 rs1 where mb: "io_markBegin w (io, rs\<lparr>vresp_complete := False\<rparr>) = (io1, rs1)"
    by (cases "io_markBegin w (io, rs\<lparr>vresp_complete := False\<rparr>)")
  have f: "sent io1 = sent io" "do_cancel io1 = do_cancel io" "polls io1 = polls io" "slept io1 = slept io"
    "results_ok rs1" "results_view rs1 = results_view rs"
    using mb assms by (auto simp: io_markBegin_def gettimeofday_def)
  define io2 where "io2 = io1\<lparr>sent := sent io1 @ [view_query opts dname vname vlimit skip]\<rparr>"
  obtain io' rs' where r: "rescode_handler w (resp_ec (answers w (length (sent io)))) (io2, rs1) = Inr (io', rs')"
    "results_ok rs'" "results_view rs' = count_step (resp_ec (answers w (length (sent io)))) (results_view rs1)"
    "same_requests io2 io'"
    using rescode.handle_law [OF f(5)] by blast
  have "view_round w opts dname vname vlimit skip (io, rs) = Inr (io', rs')"
    using mb r(1) f(1) by (simp add: view_round_def execute_def execute_async_def io2_def view_query_def)
  with r(2,3) f same_requests_fields [OF r(4)] show thesis
    by (intro that [of io' rs']) (simp_all add: io2_def)
qed

text \<open>A loop with a number of iterations sends that many queries, and one for zero.\<close>

lemma view_loop_ok:
  assumes "results_ok rs" and "\<not> do_cancel io" and "0 \<le> it" and "n = max 1 (nat it)"
    and "\<And>i. i < n \<Longrightarrow> \<not> cancels w (polls io + i)" and "n \<le> fuel"
  shows "\<exists>io' rs'. view_loop w (view_round w opts dname vname vlimit skip) d fuel it (io, rs) = Inr (io', rs') \<and>
    results_ok rs' \<and> sent io' = sent io @ replicate n (view_query opts dname vname vlimit skip) \<and>
    slept io' = slept io @ (if d \<noteq> 0 then replicate (n - 1) (word_of_int d) else []) \<and>
    results_view rs' = fold count_step (map (\<lambda>f. resp_ec (answers w f)) [length (sent io)..<length (sent io) + n])
      (results_view rs)"
  using assms
proof (induction n arbitrary: io rs it fuel)
  case 0
  then show ?case by simp
next
  case (Suc n)
  then obtain f where f: "fuel = Suc f" by (cases fuel) auto
  define io1 where "io1 = io\<lparr>do_cancel := False, polls := polls io + 1\<rparr>"
  have "\<not> cancels w (polls io)" using Suc.prems(5) [of 0] by simp
  with Suc.prems(2) have poll: "poll_cancel w (io, rs) = (False, (io1, rs))"
    by (simp add: poll_cancel_def isCancelled_def io1_def)
  obtain io2 rs2 where 2: "view_round w opts dname vname vlimit skip (io1, rs) = Inr (io2, rs2)" "results_ok rs2"
    "results_view rs2 = count_step (resp_ec (answers w (length (sent io)))) (results_view rs)"
    "sent io2 = sent io @ [view_query opts dname vname vlimit skip]" "\<not> do_cancel io2"
    "polls io2 = polls io + 1" "slept io2 = slept io"
    using view_round_ok [OF Suc.prems(1), of w opts dname vname vlimit skip io1] by (auto simp: io1_def)
  show ?case
  proof (cases "it \<le> 1")
    case True
    with Suc.prems(4) have "n = 0" by simp
    with True poll 2 f Suc.prems(3) show ?thesis by simp
  next
    case False
    define io3 where "io3 = (if d \<noteq> 0 then sdkd_millisleep (word_of_int d) io2 else io2)"
    have 3: "\<not> do_cancel io3" "polls io3 = polls io + 1" "sent io3 = sent io2"
      "slept io3 = slept io @ (if d \<noteq> 0 then [word_of_int d] else [])"
      using 2 by (simp_all add: io3_def sdkd_millisleep_def)
    have n: "n = max 1 (nat (it - 1))" "n \<le> f" "0 \<le> it - 1" using Suc.prems(4,6) False f by auto
    have "\<not> cancels w (polls io3 + i)" if "i < n" for i
      using Suc.prems(5) [of "Suc i"] that 3(2) by simp
    from Suc.IH [OF 2(2) 3(1) n(3,1) this n(2)] obtain io' rs' where r:
      "view_loop w (view_round w opts dname vname vlimit skip) d f (it - 1) (io3, rs2) = Inr (io', rs')"
      "results_ok rs'" "sent io' = sent io3 @ replicate n (view_query opts dname vname vlimit skip)"
      "slept io' = slept io3 @ (if d \<noteq> 0 then replicate (n - 1) (word_of_int d) else [])"
      "results_view rs' = fold count_step (map (\<lambda>f. resp_ec (answers w f))
         [length (sent io3)..<length (sent io3) + n]) (results_view rs2)"
      by blast
    have "view_loop w (view_round w opts dname vname vlimit skip) d fuel it (io, rs) = Inr (io', rs')"
      using f poll 2(1) r(1) False Suc.prems(3) by (cases "d = 0") (simp_all add: io3_def)
    moreover have "\<exists>m. n = Suc m" using n(1) by (intro not0_implies_Suc) simp
    moreover have "[length (sent io)..<length (sent io) + Suc n] =
        length (sent io) # [Suc (length (sent io))..<Suc (length (sent io)) + n]"
      by (simp add: upt_conv_Cons del: upt_Suc)
    ultimately show ?thesis using r(2-5) 2(3,4) 3(3,4) by auto
  qed
qed

text \<open>
  A view run with a number \<open>it \<ge> 0\<close> of iterations that nobody cancels sends \<open>max 1 it\<close>
  equal queries, pauses between two of them when a delay is given, not after the last, and
  counts every reply.
\<close>

theorem view_iterations:
  assumes "jfield J (payload req) CBSDKD_MSGFLD_DSREQ_OPTS = Inr ctlopts"
    and "jfield J (payload req) CBSDKD_MSGFLD_V_QOPTS = Inr vqopts"
    and "jint J ctlopts CBSDKD_MSGFLD_V_QITERCOUNT = Inr it" and "jint J ctlopts CBSDKD_MSGFLD_V_QDELAY = Inr d"
    and "jstr J (payload req) CBSDKD_MSGFLD_V_DESNAME = Inr dname"
    and "jstr J (payload req) CBSDKD_MSGFLD_V_MRNAME = Inr vname" and "dname \<noteq> []" and "vname \<noteq> []"
    and "optional_uint J vqopts ''limit'' = Inr vlimit" and "optional_uint J vqopts ''skip'' = Inr skip"
    and "0 \<le> it" and "n = max 1 (nat it)" and "\<And>i. i < n \<Longrightarrow> \<not> cancels w (polls (fst st) + i)" and "n \<le> fuel"
  shows "\<exists>io' rs'. executeView J w opts fuel ropts req st = Inr (True, (io', rs')) \<and>
    sent io' = sent (fst st) @ replicate n (view_query opts dname vname vlimit skip) \<and>
    slept io' = slept (fst st) @ (if d \<noteq> 0 then replicate (n - 1) (word_of_int d) else []) \<and>
    (\<forall>m. msg_count (stats rs') m =
      int (count_list (map (reply_message w) [length (sent (fst st))..<length (sent (fst st)) + n]) m))"
proof -
  define io where "io = externalEnter (fst st)"
  define rs where "rs = clear_results ((snd st)\<lparr>options := ropts\<rparr>)"
  have io: "sent io = sent (fst st)" "slept io = slept (fst st)" "\<not> do_cancel io" "polls io = polls (fst st)"
    by (simp_all add: io_def externalEnter_def)
  have "results_ok rs" and "stats rs = []" unfolding rs_def by simp (simp add: clear_results_def)
  from view_loop_ok [OF this(1) io(3) assms(11,12) _ assms(14), of w opts dname vname vlimit skip d] assms(13) io
  obtain io' rs' where r: "view_loop w (view_round w opts dname vname vlimit skip) d fuel it (io, rs) = Inr (io', rs')"
    "sent io' = sent (fst st) @ replicate n (view_query opts dname vname vlimit skip)"
    "slept io' = slept (fst st) @ (if d \<noteq> 0 then replicate (n - 1) (word_of_int d) else [])"
    and v: "results_view rs' = fold count_step (map (\<lambda>f. resp_ec (answers w f))
      [length (sent (fst st))..<length (sent (fst st)) + n]) (results_view rs)"
    by auto
  have "executeView J w opts fuel ropts req st = Inr (True, (io', rs'))"
    using assms(1-10) r(1) by (simp add: executeView_def io_def rs_def)
  with r counted_replies [OF v \<open>stats rs = []\<close>] show ?thesis by blast
qed

definition view_fields :: "(string \<times> jval) list" where
  "view_fields = [(CBSDKD_MSGFLD_DSREQ_OPTS, JObj [(CBSDKD_MSGFLD_V_QITERCOUNT, JInt 3), (CBSDKD_MSGFLD_V_QDELAY, JInt 7)]),
     (CBSDKD_MSGFLD_V_QOPTS, JObj [(''limit'', JInt 10)]),
     (CBSDKD_MSGFLD_V_DESNAME, JStr ''d''), (CBSDKD_MSGFLD_V_MRNAME, JStr ''v'')]"

lemma view_iterations_witness:
  "\<exists>io' rs'. executeView Jref all_ok_world (many_options 1 1) 9 (example_ropts 0) (field_request view_fields)
       (io_start, example_results) = Inr (True, (io', rs')) \<and>
     sent io' = replicate 3 (view_query (many_options 1 1) ''d'' ''v'' (Some 10) None) \<and> slept io' = [7, 7]"
proof -
  define p where "p = payload (field_request view_fields)"
  note defs = field_request_def view_fields_def jint_def jstr_def jfield_def jasString_def Jref_def
    Jref_with_def jv_member_def optional_uint_def p_def
  have f: "jfield Jref p CBSDKD_MSGFLD_DSREQ_OPTS = Inr (JObj [(CBSDKD_MSGFLD_V_QITERCOUNT, JInt 3), (CBSDKD_MSGFLD_V_QDELAY, JInt 7)])"
    "jfield Jref p CBSDKD_MSGFLD_V_QOPTS = Inr (JObj [(''limit'', JInt 10)])"
    by (simp_all add: defs)
  have g: "jint Jref (JObj [(CBSDKD_MSGFLD_V_QITERCOUNT, JInt 3), (CBSDKD_MSGFLD_V_QDELAY, JInt 7)]) CBSDKD_MSGFLD_V_QITERCOUNT = Inr 3"
    "jint Jref (JObj [(CBSDKD_MSGFLD_V_QITERCOUNT, JInt 3), (CBSDKD_MSGFLD_V_QDELAY, JInt 7)]) CBSDKD_MSGFLD_V_QDELAY = Inr 7"
    "jstr Jref p CBSDKD_MSGFLD_V_DESNAME = Inr ''d''" "jstr Jref p CBSDKD_MSGFLD_V_MRNAME = Inr ''v''"
    "optional_uint Jref (JObj [(''limit'', JInt 10)]) ''limit'' = Inr (Some 10)"
    "optional_uint Jref (JObj [(''limit'', JInt 10)]) ''skip'' = Inr None"
    by (simp_all add: defs)
  have n: "(3::nat) = max 1 (nat 3)" by simp
  have s: "slept io_start = []" by (simp add: io_start_def)
  from view_iterations [OF f [unfolded p_def] g(1,2) g(3,4) [unfolded p_def] _ _ g(5,6) _ n, where w = all_ok_world
      and st = "(io_start, example_results)" and opts = "many_options 1 1" and fuel = 9 and ropts = "example_ropts 0"]
  show ?thesis by (simp add: s all_ok_world_def numeral_3_eq_3) blast
qed

end
