(* ===== verification/WorkerProps.thy ===== *)
theory WorkerProps
  imports WorkerItems Frames ExecutorItems
begin

text \<open>
  The properties of a worker: one answer per request, refusals, opening a handle, and a bulk
  operation from the request to the response.
\<close>

section \<open>An example\<close>

definition example_memory :: "jval memory" where
  "example_memory = \<lparr>mem_msg = field_request [], mem_handle = many_options 1 1, mem_results = example_results,
     mem_flags = 0, mem_index = 0, mem_prepared = False, mem_flex = False, mem_path = None\<rparr>"

definition example_env :: "error_code \<Rightarrow> jval surroundings" where
  "example_env err = \<lparr>e_json = Jref, e_world = all_ok_world,
     e_cluster = \<lparr>open_cluster = \<lambda>_. err, open_bucket = \<lambda>_. None\<rparr>, e_memory = example_memory, e_fuel = 9\<rparr>"

definition example_worker :: "HandleOptions option \<Rightarrow> worker" where
  "example_worker h = (WorkerDispatch_new 4 (new_conn []))\<lparr>cur_handle := h, cur_hid := 7\<rparr>"

definition example_request :: "Code \<Rightarrow> (string \<times> jval) list \<Rightarrow> jval Message" where
  "example_request c kvs = (field_request kvs)\<lparr>command := Command_of_code c\<rparr>"

lemma writer_Jref: "writer Jref"
  using Jref_object by (simp add: writer_def Jref_def Jref_with_def)

lemma example_fields [simp]:
  "e_json (example_env err) = Jref" "e_memory (example_env err) = example_memory"
  "e_world (example_env err) = all_ok_world" "e_fuel (example_env err) = 9"
  "Request_isValid (example_request c kvs)" "cmd_code (command (example_request c kvs)) = c"
  "payload (example_request c kvs) = JObj kvs" "cur_handle (example_worker h) = h"
  by (simp_all add: example_env_def example_request_def field_request_def Request_isValid_def
      Error_new_def is_error_def Command_of_code_def example_worker_def)

section \<open>Properties\<close>

text \<open>
  C10: every request that is processed to its end is answered exactly once: one terminated
  response with the request's own command and numbers is appended to the output and the
  connection goes on; only an invalid request and \<open>CLOSEHANDLE\<close> get no answer, change nothing and
  end the connection.
\<close>

theorem one_response:
  assumes "processRequest E req s = Inr (b, s')"
  shows "if Request_isValid req \<and> cmd_code (command req) \<noteq> CLOSEHANDLE
    then b \<and> (\<exists>res e. command (resp_msg res) = command req \<and> reqid (resp_msg res) = reqid req \<and>
           handle_id (resp_msg res) = handle_id req \<and> encode (e_json E) res = Inr e \<and>
           w_conn (fst s') = (w_conn (fst s))\<lparr>outbuf := outbuf (w_conn (fst s)) @ terminated e\<rparr>)
    else \<not> b \<and> s' = s"
proof (cases "Request_isValid req \<and> cmd_code (command req) \<noteq> CLOSEHANDLE")
  case True
  then have "b" "answered (e_json E) req (fst s) (fst s')"
    using processRequest_served [OF assms] by (simp_all add: served_def)
  with True show ?thesis unfolding answered_def answers_to_def by auto
next
  case False
  then show ?thesis using processRequest_served [OF assms] by (auto simp: served_def)
qed

lemma processRequest_no_handle:
  assumes "writer (e_json E)" and "Request_isValid req" and "cmd_code (command req) \<notin> {CLOSEHANDLE, NEWHANDLE}"
    and "cur_handle (fst s) = None"
  shows "\<exists>e. encode (e_json E) (Response_new (e_json E) req (Error_of SUBSYSf_SDKD SDKD_ENOHANDLE ''No handle created yet'')) = Inr e \<and>
    processRequest E req s = Inr (True, (add_output (terminated e) (fst s), snd s))"
proof -
  obtain e where "encode (e_json E) (Response_new (e_json E) req (Error_of SUBSYSf_SDKD SDKD_ENOHANDLE ''No handle created yet'')) = Inr e"
    "respond (e_json E) (Response_new (e_json E) req (Error_of SUBSYSf_SDKD SDKD_ENOHANDLE ''No handle created yet'')) s =
       Inr (add_output (terminated e) (fst s), snd s)"
    by (rule respond_ok [OF assms(1)])
  with assms show ?thesis by (auto simp: processRequest_def Let_def)
qed

lemma one_response_witness:
  "\<exists>b s'. processRequest (example_env None) (example_request MC_DS_GET []) (example_worker None, shared_new) = Inr (b, s') \<and> b \<and>
     (\<exists>e. outbuf (w_conn (fst s')) = terminated e)"
proof -
  define s where "s = (example_worker None, shared_new :: jval shared)"
  obtain e where r: "processRequest (example_env None) (example_request MC_DS_GET []) s =
      Inr (True, (add_output (terminated e) (fst s), snd s))"
    using processRequest_no_handle [of "example_env None" "example_request MC_DS_GET []" s] writer_Jref
    by (auto simp: s_def)
  from one_response [OF r] r show ?thesis
    by (auto simp: s_def example_worker_def WorkerDispatch_new_def new_conn_def)
qed

text \<open>
  Without a handle every request but the one that opens a handle and the one that closes the
  connection is refused with the code for a missing handle; the worker goes on.
\<close>

theorem no_handle_refused:
  assumes "writer (e_json E)" and "Request_isValid req" and "cmd_code (command req) \<notin> {CLOSEHANDLE, NEWHANDLE}"
    and "cur_handle (fst s) = None"
  shows "\<exists>e. encode (e_json E) (Response_new (e_json E) req (Error_of SUBSYSf_SDKD SDKD_ENOHANDLE ''No handle created yet'')) = Inr e \<and>
    processRequest E req s = Inr (True, (add_output (terminated e) (fst s), snd s))"
  using assms by (rule processRequest_no_handle)

lemma no_handle_refused_witness:
  "\<exists>e. processRequest (example_env None) (example_request MC_DS_GET []) (example_worker None, shared_new) =
     Inr (True, (add_output (terminated e) (example_worker None), shared_new))"
  using no_handle_refused [of "example_env None" "example_request MC_DS_GET []" "(example_worker None, shared_new)"]
    writer_Jref by auto

text \<open>
  C38: when the cluster cannot be opened, the request for a handle is answered as a success: the
  error holds the message but not a code, so the response without an error is written. No handle
  exists afterwards and nothing is registered.
\<close>

theorem connect_failure_is_answered_as_success:
  assumes "writer (e_json E)" and "Request_isValid req" and "cmd_code (command req) = NEWHANDLE"
    and "cur_handle (fst s) = None"
    and "HandleOptions_new (e_json E) (mem_path (e_memory E)) (mem_handle (e_memory E)) (payload req) = Inr h"
    and "HandleOptions_isValid h" and "\<not> cluster_initialized (snd s)"
    and "open_cluster (e_cluster E) \<lparr>o_connstr = connstr_of h, o_username = username h, o_password = password h\<rparr> = Some msg"
  shows "\<exists>e. encode (e_json E) (Response_new (e_json E) req Error_new) = Inr e \<and>
    processRequest E req s = Inr (True, (add_output (terminated e) (fst s), snd s))"
proof -
  have t: "try_handle E req h s = ((Error_of_code 0 [])\<lparr>errstr := msg\<rparr>, s)"
    using assms by (simp add: try_handle_def ensureCluster_def)
  have "\<not> is_error ((Error_of_code 0 [])\<lparr>errstr := msg\<rparr>)" by (simp add: is_error_def Error_of_code_def)
  moreover obtain e where "encode (e_json E) (Response_new (e_json E) req Error_new) = Inr e"
    "respond (e_json E) (Response_new (e_json E) req Error_new) s = Inr (add_output (terminated e) (fst s), snd s)"
    by (rule respond_ok [OF assms(1)])
  ultimately show ?thesis
    using assms(2,3,5) t by (simp add: processRequest_def initializeHandle_def)
qed

definition handle_fields :: "(string \<times> jval) list" where
  "handle_fields = [(CBSDKD_MSGFLD_HANDLE_BUCKET, JStr ''b''), (CBSDKD_MSGFLD_HANDLE_HOSTNAME, JStr ''h'')]"

lemma handle_fields_read:
  "HandleOptions_new Jref None (many_options 1 1) (JObj handle_fields) =
     Inr ((many_options 1 1)\<lparr>hostname := ''h'', username := [], password := [], bucket := ''b'', certpath := [], timeout := 0\<rparr>)"
  by code_simp

lemma connect_failure_is_answered_as_success_witness:
  "\<exists>e. encode Jref (Response_new Jref (example_request NEWHANDLE handle_fields) Error_new) = Inr e \<and>
     processRequest (example_env (Some ''timeout'')) (example_request NEWHANDLE handle_fields)
       (example_worker None, shared_new) = Inr (True, (add_output (terminated e) (example_worker None), shared_new))"
proof -
  have o: "HandleOptions_new (e_json (example_env (Some ''timeout''))) (mem_path (e_memory (example_env (Some ''timeout''))))
      (mem_handle (e_memory (example_env (Some ''timeout'')))) (payload (example_request NEWHANDLE handle_fields)) =
     Inr ((many_options 1 1)\<lparr>hostname := ''h'', username := [], password := [], bucket := ''b'', certpath := [], timeout := 0\<rparr>)"
    using handle_fields_read by (simp add: example_memory_def)
  from connect_failure_is_answered_as_success [OF _ _ _ _ o, of "(example_worker None, shared_new)" "''timeout''"] writer_Jref
  show ?thesis
    by (simp add: HandleOptions_isValid_def shared_new_def example_env_def)
qed

text \<open>
  A request for any command that needs a dataset, and for any command the worker does not
  know, ends the whole process when it names no dataset type: the error response that follows
  the abort is never sent.
\<close>

theorem missing_dataset_aborts:
  assumes "Request_isValid req" and "cmd_code (command req) \<notin> {CLOSEHANDLE, NEWHANDLE} \<union> set no_dataset_commands"
    and "cur_handle (fst s) \<noteq> None" and "jmissing (e_json E) (payload req) CBSDKD_MSGFLD_DSREQ_DSTYPE = Inr True"
  shows "processRequest E req s = Inl Aborted"
  using assms by (auto simp: processRequest_def Let_def find_dataset_def determineType_def)

lemma missing_dataset_aborts_witness:
  "processRequest (example_env None) (example_request INVALID_COMMAND []) (example_worker (Some (many_options 1 1)), shared_new)
     = Inl Aborted"
  by (rule missing_dataset_aborts)
    (simp_all add: no_dataset_commands_def jmissing_def jfield_def Jref_def Jref_with_def jv_member_def)

end
