(* ===== verification/RequestProps.thy ===== *)
theory RequestProps
  imports WorkerProps HandleProps
begin

text \<open>
  One request through all components: from the fields of a bulk get to its response, over the
  dataset, the routing, the handle's operation, the statistics and the report.
\<close>

lemma get_keeps_error:
  "dsGet J w h u fuel ds ropts st = Inr (b, st') \<Longrightarrow> oper_error (snd st') = oper_error (snd st)"
  unfolding dsGet_def by (rule run_op_error [OF _ item_errors(1)])

text \<open>An operation that ends without an error of its own is answered with its report.\<close>

lemma report_answers:
  assumes "json_array (e_json E)" and "writer (e_json E)" and "50 \<le> p" and "p \<le> 100"
    and "oper_error (snd st) = Error_new"
  obtains root e where "resultsJson (e_json E) p (snd st) (j_null (e_json E)) = Inr root"
    and "encode (e_json E) (setResponseData root (Response_new (e_json E) req Error_new)) = Inr e"
    and "report E req p st s = Inr (add_output (terminated e) ((fst s)\<lparr>w_io := fst st\<rparr>), snd s)"
proof -
  obtain root where root: "resultsJson (e_json E) p (snd st) (j_null (e_json E)) = Inr root"
    using json_array.report_ok [OF assms(1), of "snd st" p] getPercentile_safe [OF assms(3,4)] by metis
  obtain e where "encode (e_json E) (setResponseData root (Response_new (e_json E) req Error_new)) = Inr e"
    "respond (e_json E) (setResponseData root (Response_new (e_json E) req Error_new)) ((fst s)\<lparr>w_io := fst st\<rparr>, snd s) =
      Inr (add_output (terminated e) (fst ((fst s)\<lparr>w_io := fst st\<rparr>, snd s)), snd ((fst s)\<lparr>w_io := fst st\<rparr>, snd s))"
    by (rule respond_ok [OF assms(2)])
  with root assms(5) show thesis
    by (intro that [of root e]) (simp_all add: report_def Let_def is_error_def Error_new_def)
qed

text \<open>
  C1: a bulk get from the request to the response. For a request with a finite seeded dataset
  and a percentile factor from 50 to 100 the worker returns; the cluster was sent the gets of the
  items up to the cancellation, each routed by its key; every reply is counted once, none is
  pending; and the one response appended to the output carries the report of exactly that result
  set. The shared state does not change.
\<close>

theorem get_request_served:
  assumes "json_array (e_json E)" and "writer (e_json E)" and "Request_isValid req"
    and "cmd_code (command req) = MC_DS_GET" and "cur_handle (fst s) = Some h"
    and "determineType (e_json E) req [] = Inr (DSTYPE_SEEDED, refid)"
    and "fromType (e_json E) DSTYPE_SEEDED req = Inr (Some ds)" and "ds_body ds = Seeded spec"
    and "\<not> seed_continuous spec" and "jfield (e_json E) (payload req) ''Options'' = Inr o'"
    and "ResultOptions_of_json (e_json E) (mem_flags (e_memory E)) o' = Inr opts"
    and "routable h" and "pending_futures (w_io (fst s)) = []"
    and "unat (seed_count spec) < e_fuel E" and "50 \<le> g_pFactor (snd s)" and "g_pFactor (snd s) \<le> 100"
  shows "\<exists>st root e.
    bulk_result (e_world E) (\<lambda>i. GetReq (item_id h (seeded_item spec (word_of_nat i)))) (w_io (fst s))
      (visited (e_world E) (polls (w_io (fst s))) (unat (seed_count spec))) st \<and>
    resultsJson (e_json E) (g_pFactor (snd s)) (snd st) (j_null (e_json E)) = Inr root \<and>
    encode (e_json E) (setResponseData root (Response_new (e_json E) req Error_new)) = Inr e \<and>
    processRequest E req s = Inr (True, (add_output (terminated e) ((fst s)\<lparr>w_io := fst st\<rparr>), snd s))"
proof -
  define p where "p = g_pFactor (snd s)"
  obtain rs where rs: "ResultSet_new p (mem_results (e_memory E)) = (rs, p)" and err: "oper_error rs = Error_new"
    by (simp add: ResultSet_new_def clear_results_def)
  obtain st where st: "dsGet (e_json E) (e_world E) h (mem_index (e_memory E)) (e_fuel E) ds opts (w_io (fst s), rs) = Inr (True, st)"
    and bulk: "bulk_result (e_world E) (\<lambda>i. GetReq (item_id h (seeded_item spec (word_of_nat i)))) (w_io (fst s))
      (visited (e_world E) (polls (w_io (fst s))) (unat (seed_count spec))) st"
    using get_seeded_ok [OF assms(8,9,12) delay_ok_json [OF assms(11)] assms(13,14), of "e_json E" "e_world E"
        "mem_index (e_memory E)" rs] by blast
  have "oper_error (snd st) = Error_new" using get_keeps_error [OF st] err by simp
  then obtain root e where answer: "resultsJson (e_json E) p (snd st) (j_null (e_json E)) = Inr root"
    "encode (e_json E) (setResponseData root (Response_new (e_json E) req Error_new)) = Inr e"
    "report E req p st s = Inr (add_output (terminated e) ((fst s)\<lparr>w_io := fst st\<rparr>), snd s)"
    using report_answers [OF assms(1,2)] assms(15,16) unfolding p_def by blast
  have found: "find_dataset E req (snd s) = Inr (Inr (DSTYPE_SEEDED, ds), snd s)"
    using assms(6,7) by (simp add: find_dataset_def)
  have "continuous_spec ds = False" using assms(8,9) by (simp add: continuous_spec_def)
  then have run: "run_request E h req (Some (DSTYPE_SEEDED, ds)) s =
      rbind (rbind (deref (Some ds)) (\<lambda>ds. rbind (dsGet (e_json E) (e_world E) h (mem_index (e_memory E)) (e_fuel E) ds opts (w_io (fst s), rs))
        (\<lambda>(_, st'). Inr st'))) (\<lambda>st. rbind (report E req p st s) (\<lambda>s1. Inr (True, s1)))"
    using assms(4,10,11) rs by (simp add: run_request_def run_command_def p_def)
  have "processRequest E req s = run_request E h req (Some (DSTYPE_SEEDED, ds)) s"
    using assms(3,4,5) found by (simp add: processRequest_def no_dataset_commands_def)
  with run st answer(3) have "processRequest E req s = Inr (True, (add_output (terminated e) ((fst s)\<lparr>w_io := fst st\<rparr>), snd s))"
    by (simp add: deref_def)
  with bulk answer(1,2) show ?thesis unfolding p_def by blast
qed

definition seeded_fields :: "(string \<times> jval) list" where
  "seeded_fields = [(''DSType'', JStr ''DSTYPE_SEEDED''), (''DS'', JObj
     [(''KSeed'', JStr ''k''), (''VSeed'', JStr ''v''), (''KSize'', JInt 6), (''VSize'', JInt 4),
      (''Repeat'', JStr ''_''), (''Count'', JInt 2)]), (''Options'', JObj [])]"

lemma get_request_served_witness:
  "\<exists>e wk. processRequest (example_env None) (example_request MC_DS_GET seeded_fields)
      (example_worker (Some (many_options 2 3)), shared_new\<lparr>g_pFactor := 95\<rparr>) =
      Inr (True, (add_output e wk, shared_new\<lparr>g_pFactor := 95\<rparr>)) \<and> length (sent (w_io wk)) = 2"
proof -
  define req where "req = example_request MC_DS_GET seeded_fields"
  define s where "s = (example_worker (Some (many_options 2 3)), (shared_new :: jval shared)\<lparr>g_pFactor := 95\<rparr>)"
  have parse: "determineType Jref req [] = Inr (DSTYPE_SEEDED, [])"
    "fromType Jref DSTYPE_SEEDED req = Inr (Some example_seeded)"
    "jfield Jref (payload req) ''Options'' = Inr (JObj [])"
    unfolding req_def by code_simp+
  obtain opts where opts: "ResultOptions_of_json Jref 0 (JObj []) = Inr opts"
    by (simp add: ResultOptions_of_json_def json_read_defs Jref_def Jref_with_def jv_member_def)
  have body: "ds_body example_seeded = Seeded example_seed" by (simp add: example_defs)
  have E: "mem_flags (e_memory (example_env None)) = 0" by (simp add: example_memory_def)
  have w: "w_io (fst s) = io_start" "fst s = example_worker (Some (many_options 2 3))" "g_pFactor (snd s) = 95"
    "snd s = shared_new\<lparr>g_pFactor := 95\<rparr>"
    by (simp_all add: s_def example_worker_def WorkerDispatch_new_def)
  obtain st e where "bulk_result all_ok_world (\<lambda>i. GetReq (item_id (many_options 2 3) (seeded_item example_seed (word_of_nat i))))
      io_start (visited all_ok_world (polls io_start) (unat (seed_count example_seed))) st"
    "processRequest (example_env None) req s = Inr (True, (add_output (terminated e) ((fst s)\<lparr>w_io := fst st\<rparr>), snd s))"
    using get_request_served [of "example_env None" req s "many_options 2 3" "[]" example_seeded example_seed "JObj []" opts]
      parse opts body E w Jref_array writer_Jref
    by (auto simp: req_def example_seed_def routable_def many_options_def io_start_def)
  then show ?thesis unfolding req_def w
    by (intro exI [of _ "terminated e"] exI [of _ "(example_worker (Some (many_options 2 3)))\<lparr>w_io := fst st\<rparr>"])
      (simp add: s_def bulk_result_def example_seed_def io_start_def)
qed

section \<open>Requests that always come to an end\<close>

text \<open>
  Requests whose fields parse and whose work is finite: opening a handle, a bulk operation over a
  finite seeded dataset, a request whose dataset is refused.
\<close>

definition opens_handle :: "'j surroundings \<Rightarrow> 'j Message \<Rightarrow> bool" where
  "opens_handle E req \<longleftrightarrow> cmd_code (command req) = NEWHANDLE \<and>
     (\<exists>h. HandleOptions_new (e_json E) (mem_path (e_memory E)) (mem_handle (e_memory E)) (payload req) = Inr h \<and>
        routable h)"

definition bulk_commands :: "Code list" where
  "bulk_commands = [MC_DS_GET, MC_DS_DELETE, MC_DS_TOUCH, MC_DS_MUTATE_SET, MC_DS_MUTATE_ADD, MC_DS_MUTATE_REPLACE,
     MC_DS_MUTATE_APPEND, MC_DS_MUTATE_PREPEND]"

definition seeded_bulk :: "'j surroundings \<Rightarrow> 'j Message \<Rightarrow> bool" where
  "seeded_bulk E req \<longleftrightarrow> cmd_code (command req) \<in> set bulk_commands \<and>
     (\<exists>refid ds spec o' opts. determineType (e_json E) req [] = Inr (DSTYPE_SEEDED, refid) \<and>
        fromType (e_json E) DSTYPE_SEEDED req = Inr (Some ds) \<and> ds_body ds = Seeded spec \<and>
        \<not> seed_continuous spec \<and> unat (seed_count spec) < e_fuel E \<and>
        jfield (e_json E) (payload req) ''Options'' = Inr o' \<and>
        ResultOptions_of_json (e_json E) (mem_flags (e_memory E)) o' = Inr opts)"

definition refused_dataset :: "'j surroundings \<Rightarrow> 'j Message \<Rightarrow> bool" where
  "refused_dataset E req \<longleftrightarrow>
     cmd_code (command req) \<notin> {CLOSEHANDLE, NEWHANDLE} \<union> set no_dataset_commands \<and>
     (\<exists>t refid. determineType (e_json E) req [] = Inr (t, refid) \<and> t \<notin> {DSTYPE_INVALID, DSTYPE_REFERENCE} \<and>
        fromType (e_json E) t req = Inr None)"

definition orderly :: "'j surroundings \<Rightarrow> 'j Message \<Rightarrow> bool" where
  "orderly E req \<longleftrightarrow> Request_isValid req \<and>
     (opens_handle E req \<or> seeded_bulk E req \<or> refused_dataset E req)"

text \<open>A worker between two requests: no reply is pending, and its handle routes every key.\<close>

definition rested :: "worker \<Rightarrow> bool" where
  "rested wk \<longleftrightarrow> pending_futures (w_io wk) = [] \<and> (\<forall>h. cur_handle wk = Some h \<longrightarrow> routable h)"

lemma rested_output [simp]: "rested (add_output t wk) = rested wk"
  by (simp add: rested_def)

lemma create_pending:
  "create_collections w b sc js io = (ok, io') \<Longrightarrow> pending_futures io' = pending_futures io"
  "create_scopes w b n is io = (ok, io') \<Longrightarrow> pending_futures io' = pending_futures io"
proof -
  show c: "create_collections w b sc js io = (ok, io') \<Longrightarrow> pending_futures io' = pending_futures io" for sc js ok io io'
    by (induction js arbitrary: io) (auto simp: create_collection_def execute_def execute_async_def Let_def split: if_splits prod.splits)
  show "create_scopes w b n is io = (ok, io') \<Longrightarrow> pending_futures io' = pending_futures io"
    by (induction "is" arbitrary: io) (auto simp: create_scope_def execute_def execute_async_def Let_def dest: c split: if_splits prod.splits)
qed

lemma generate_pending:
  "generateCollections w h st = (ok, (flag, io)) \<Longrightarrow> pending_futures io = pending_futures (snd st)"
  by (cases st) (auto simp: generateCollections_def Collections_generate_def Let_def dest: create_pending(2)
      split: if_splits prod.splits)

text \<open>What a bulk command does with one item, and that the operation comes to its end.\<close>

definition bulk_action :: "'j surroundings \<Rightarrow> HandleOptions \<Rightarrow> 'j Message \<Rightarrow> ResultOptions \<Rightarrow> item \<Rightarrow> op_state
    \<Rightarrow> (bool \<times> op_state) run" where
  "bulk_action E h req opts =
     (let c = cmd_code (command req) in
      if c = MC_DS_GET then get_item (e_world E) h
      else if c \<in> {MC_DS_DELETE, MC_DS_TOUCH} then keyop_item (e_world E) h c
      else mutate_item (e_world E) h c (expiry opts))"

lemma run_bulk_command:
  assumes "cmd_code (command req) \<in> set bulk_commands"
  shows "run_command E h hid req (Some ds) opts st =
    Some (rbind (run_op (e_json E) (e_world E) (mem_index (e_memory E)) (e_fuel E) ds (bulk_action E h req opts) opts st)
      (\<lambda>(_, st'). Inr st'))"
  using assms
  by (auto simp: bulk_commands_def run_command_def bulk_action_def deref_def dsGet_def dsKeyop_def dsMutate_def
      mutation_commands_def Let_def)

lemma bulk_action_error:
  "bulk_action E h req opts x st = Inr (b, st') \<Longrightarrow> oper_error (snd st') = oper_error (snd st)"
  unfolding bulk_action_def Let_def
  by (cases "cmd_code (command req) = MC_DS_GET"; cases "cmd_code (command req) \<in> {MC_DS_DELETE, MC_DS_TOUCH}")
    (simp_all only: refl if_True if_False item_errors)

lemma bulk_op_ok:
  assumes cmd: "cmd_code (command req) \<in> set bulk_commands"
    and "ds_total J ds = enat N" and "\<And>i. i \<le> N \<Longrightarrow> ds_load J u ds i = Inr (x i)" and "N < fuel"
    and "\<And>i. i < N \<Longrightarrow> routes h (x i)" and "delay_ok opts" and "pending_futures io = []"
  shows "\<exists>st. run_op J (e_world E) u fuel ds (bulk_action E h req opts) opts (io, rs) = Inr (True, st) \<and>
    pending_futures (fst st) = []"
proof -
  let ?c = "cmd_code (command req)"
  consider "?c = MC_DS_GET" | "?c \<in> {MC_DS_DELETE, MC_DS_TOUCH}" | "?c \<in> set mutation_commands"
    using cmd by (auto simp: bulk_commands_def mutation_commands_def)
  then show ?thesis
  proof cases
    case 1
    then have "bulk_action E h req opts = get_item (e_world E) h" by (simp add: bulk_action_def)
    with get.run_op_ok [OF assms(2-7), where w = "e_world E" and rs = rs] show ?thesis
      by (auto simp: bulk_result_def)
  next
    case 2
    then have "bulk_action E h req opts = keyop_item (e_world E) h ?c" by (auto simp: bulk_action_def)
    with keyop.run_op_ok [OF assms(2-7), where w = "e_world E" and cmd = ?c and rs = rs] show ?thesis
      by (auto simp: bulk_result_def)
  next
    case 3
    then have "bulk_action E h req opts = mutate_item (e_world E) h ?c (expiry opts)"
      by (auto simp: bulk_action_def mutation_commands_def)
    with 3 mutate.run_op_ok [OF assms(2-7), where w = "e_world E" and cmd = ?c and ex = "expiry opts" and rs = rs]
    show ?thesis by (auto simp: bulk_result_def)
  qed
qed

lemma seeded_bulk_returns:
  assumes bulk: "seeded_bulk E req" and "Request_isValid req" and lib: "json_array (e_json E)" "writer (e_json E)"
    and h: "cur_handle (fst s) = Some h" "rested (fst s)"
    and "50 \<le> g_pFactor (snd s)" and "g_pFactor (snd s) \<le> 100"
  shows "\<exists>s'. processRequest E req s = Inr (True, s') \<and> rested (fst s')"
proof -
  define p where "p = g_pFactor (snd s)"
  have rested: "routable h" "pending_futures (w_io (fst s)) = []" using h by (simp_all add: rested_def)
  obtain refid ds spec o' opts where cmd: "cmd_code (command req) \<in> set bulk_commands"
    and parse: "determineType (e_json E) req [] = Inr (DSTYPE_SEEDED, refid)"
      "fromType (e_json E) DSTYPE_SEEDED req = Inr (Some ds)"
    and ds: "ds_body ds = Seeded spec" "\<not> seed_continuous spec" "unat (seed_count spec) < e_fuel E"
    and opts: "jfield (e_json E) (payload req) ''Options'' = Inr o'"
      "ResultOptions_of_json (e_json E) (mem_flags (e_memory E)) o' = Inr opts"
    using bulk unfolding seeded_bulk_def by blast
  obtain rs where rs: "ResultSet_new p (mem_results (e_memory E)) = (rs, p)" and err: "oper_error rs = Error_new"
    by (simp add: ResultSet_new_def clear_results_def)
  have total: "ds_total (e_json E) ds = enat (unat (seed_count spec))"
    using ds by (simp add: ds_total_def ds_continuous_def getCount_def)
  have loads: "ds_load (e_json E) (mem_index (e_memory E)) ds i = Inr (seeded_item spec (word_of_nat i))"
    if "i \<le> unat (seed_count spec)" for i
    using ds_load_seeded [OF ds(1), of i "e_json E"] that ds(2) total by (simp add: position_def)
  obtain st where st: "run_op (e_json E) (e_world E) (mem_index (e_memory E)) (e_fuel E) ds (bulk_action E h req opts)
      opts (w_io (fst s), rs) = Inr (True, st)"
    and pending: "pending_futures (fst st) = []"
    using bulk_op_ok [OF cmd total loads ds(3) seeded_routes [OF rested(1)] delay_ok_json [OF opts(2)] rested(2)] by blast
  have "oper_error (snd st) = Error_new" using run_op_error [OF st bulk_action_error] err by simp
  then obtain e where answer: "report E req p st s = Inr (add_output (terminated e) ((fst s)\<lparr>w_io := fst st\<rparr>), snd s)"
    using report_answers [OF lib] assms(7,8) unfolding p_def by blast
  have refuse: "continuous_spec ds = False" using ds by (simp add: continuous_spec_def)
  have run: "run_request E h req (Some (DSTYPE_SEEDED, ds)) s =
      Inr (True, (add_output (terminated e) ((fst s)\<lparr>w_io := fst st\<rparr>), snd s))"
    using opts rs run_bulk_command [OF cmd] st answer refuse by (simp add: run_request_def p_def)
  have "cmd_code (command req) \<notin> {CLOSEHANDLE, NEWHANDLE} \<union> set no_dataset_commands"
    using cmd by (auto simp: bulk_commands_def no_dataset_commands_def)
  with run assms(2) h(1) parse have "processRequest E req s =
      Inr (True, (add_output (terminated e) ((fst s)\<lparr>w_io := fst st\<rparr>), snd s))"
    by (simp add: processRequest_def find_dataset_def)
  with rested pending h(1) show ?thesis by (simp add: rested_def)
qed

lemma refused_dataset_returns:
  assumes "refused_dataset E req" and "Request_isValid req" and "writer (e_json E)" and "cur_handle (fst s) = Some h" and "rested (fst s)"
  shows "\<exists>s'. processRequest E req s = Inr (True, s') \<and> rested (fst s')"
proof -
  obtain t refid where t: "determineType (e_json E) req [] = Inr (t, refid)" "t \<noteq> DSTYPE_INVALID"
    "t \<noteq> DSTYPE_REFERENCE" "fromType (e_json E) t req = Inr None"
    and cmd: "cmd_code (command req) \<notin> {CLOSEHANDLE, NEWHANDLE} \<union> set no_dataset_commands"
    using assms(1) unfolding refused_dataset_def by blast
  obtain e where "respond (e_json E) (Response_new (e_json E) req (setString ''Bad dataset parameters''
      (setCode (SUBSYSf_SDKD OR SDKD_EINVAL) Error_new))) s = Inr (add_output (terminated e) (fst s), snd s)"
    by (rule respond_ok [OF assms(3)])
  with t cmd assms(2,4,5) show ?thesis by (simp add: processRequest_def find_dataset_def)
qed

lemma try_handle_rested:
  assumes "try_handle E req h s = (err, s1)" and "rested (fst s)" and "routable h"
  shows "rested (fst s1)"
proof -
  have opened: "rested (fst (open_handle w h hid (wk, m)))" for w hid wk and m :: "'a shared"
    using assms(3) generate_pending [of w h] by (fastforce simp: open_handle_def rested_def Let_def split: prod.split)
  show ?thesis
    using assms(1,2) opened by (auto simp: try_handle_def Let_def split: if_splits option.splits prod.splits)
qed

lemma opens_handle_returns:
  assumes "opens_handle E req" and "Request_isValid req" and "writer (e_json E)" and "rested (fst s)"
  shows "\<exists>s'. processRequest E req s = Inr (True, s') \<and> rested (fst s')"
proof -
  obtain h where h: "HandleOptions_new (e_json E) (mem_path (e_memory E)) (mem_handle (e_memory E)) (payload req) = Inr h"
    and "routable h" and cmd: "cmd_code (command req) = NEWHANDLE"
    using assms(1) unfolding opens_handle_def by blast
  obtain err s1 where t: "try_handle E req h s = (err, s1)" by (cases "try_handle E req h s")
  obtain e where "respond (e_json E) (Response_new (e_json E) req (if is_error err then err else Error_new)) s1 =
      Inr (add_output (terminated e) (fst s1), snd s1)"
    by (rule respond_ok [OF assms(3)])
  with t h cmd assms(2) have "processRequest E req s = Inr (True, (add_output (terminated e) (fst s1), snd s1))"
    by (simp add: processRequest_def initializeHandle_def)
  with try_handle_rested [OF t assms(4) \<open>routable h\<close>] show ?thesis by simp
qed

text \<open>With a handle or without one, an orderly request comes to its end, and the worker goes on.\<close>

lemma orderly_returns:
  assumes req: "orderly E req" and lib: "json_array (e_json E)" "writer (e_json E)" and "rested (fst s)"
    and "50 \<le> g_pFactor (snd s)" and "g_pFactor (snd s) \<le> 100"
  shows "\<exists>s'. processRequest E req s = Inr (True, s') \<and> rested (fst s')"
proof (cases "opens_handle E req")
  case True
  then show ?thesis using opens_handle_returns [OF _ _ lib(2) assms(4)] req unfolding orderly_def by blast
next
  case False
  have valid: "Request_isValid req" using req by (simp add: orderly_def)
  have cmd: "cmd_code (command req) \<notin> {CLOSEHANDLE, NEWHANDLE}"
    using req False by (auto simp: orderly_def seeded_bulk_def refused_dataset_def bulk_commands_def)
  show ?thesis
  proof (cases "cur_handle (fst s)")
    case None
    then show ?thesis using processRequest_no_handle [OF lib(2) valid cmd None] assms(4) by force
  next
    case (Some k)
    then show ?thesis
      using req False seeded_bulk_returns [OF _ valid lib Some assms(4-6)]
        refused_dataset_returns [OF _ valid lib(2) Some assms(4)] unfolding orderly_def by blast
  qed
qed

end
