(* ===== verification/Usage.thy ===== *)
theory Usage
  imports Json_Ref
begin

text \<open>
  The usage collector (\<open>src/UsageCollector.h\<close>, \<open>src/UsageCollector.cpp\<close>): a thread that samples
  the process every few seconds into parallel JSON arrays, one per series, and the object
  made of them. What \<open>getrusage\<close> reports is an argument; the JSON value of a \<open>double\<close> is a
  function of the numbers it is computed from.
\<close>

section \<open>State\<close>

record 'j UsageCollector =
  interval :: "32 word"
  thr_alive :: bool
  memusages :: 'j
  cputimeusages_user :: 'j
  cputimeusages_system :: 'j
  samplingtime :: 'j
  cnt_files :: 'j
  cnt_connections :: 'j

definition UsageCollector_new :: "'j json_api \<Rightarrow> 'j UsageCollector" where
  "UsageCollector_new J = \<lparr>interval = 5, thr_alive = False, memusages = j_null J,
     cputimeusages_user = j_null J, cputimeusages_system = j_null J, samplingtime = j_null J,
     cnt_files = j_null J, cnt_connections = j_null J\<rparr>"

definition collector_Start :: "'j UsageCollector \<Rightarrow> 'j UsageCollector" where
  "collector_Start u = u\<lparr>thr_alive := True\<rparr>"

definition StopCollector :: "'j UsageCollector \<Rightarrow> 'j UsageCollector" where
  "StopCollector u = (if thr_alive u then u\<lparr>thr_alive := False\<rparr> else u)"

section \<open>The thread\<close>

text \<open>One answer of \<open>getrusage\<close>: the two times as seconds and microseconds, the memory.\<close>

record rusage =
  ru_utime :: "int \<times> int"
  ru_stime :: "int \<times> int"
  ru_maxrss :: int

text \<open>
  The JSON numbers of the doubles: the seconds and a millionth of the microseconds, the memory,
  and the span, which is a sum of intervals.
\<close>

record 'j doubles =
  d_time :: "int \<times> int \<Rightarrow> 'j"
  d_mem :: "int \<Rightarrow> 'j"
  d_span :: "nat \<Rightarrow> 'j"

definition series :: "'j json_api \<Rightarrow> string \<Rightarrow> 'j run" where
  "series J name = jappend J (j_array J) (j_str J name)"

text \<open>What \<open>Loop\<close> does before its loop: each series begins with its name.\<close>

definition Loop_init :: "'j json_api \<Rightarrow> 'j UsageCollector \<Rightarrow> 'j UsageCollector run" where
  "Loop_init J u =
     rbind (series J ''ts'') (\<lambda>ts.
     rbind (series J ''memory'') (\<lambda>mem.
     rbind (series J ''cpu_user'') (\<lambda>us.
     rbind (series J ''cpu_system'') (\<lambda>sys.
     rbind (series J ''files'') (\<lambda>files.
     rbind (series J ''connections'') (\<lambda>conns.
     Inr (u\<lparr>samplingtime := ts, memusages := mem, cputimeusages_user := us,
            cputimeusages_system := sys, cnt_files := files, cnt_connections := conns\<rparr>)))))))"

text \<open>One round of the loop at the span \<open>span\<close>; \<open>None\<close> is a failure of \<open>getrusage\<close>.\<close>

definition Loop_round ::
    "'j json_api \<Rightarrow> 'j doubles \<Rightarrow> nat \<Rightarrow> rusage option \<Rightarrow> 'j UsageCollector \<Rightarrow> 'j UsageCollector run" where
  "Loop_round J D span usage u =
     (case usage of
        None \<Rightarrow> Inl (Exited 1)
      | Some r \<Rightarrow>
          rbind (jappend J (cputimeusages_user u) (d_time D (ru_utime r))) (\<lambda>us.
          rbind (jappend J (cputimeusages_system u) (d_time D (ru_stime r))) (\<lambda>sys.
          rbind (jappend J (samplingtime u) (d_span D span)) (\<lambda>ts.
          rbind (jappend J (memusages u) (d_mem D (ru_maxrss r))) (\<lambda>mem.
          Inr (u\<lparr>cputimeusages_user := us, cputimeusages_system := sys, samplingtime := ts,
                 memusages := mem\<rparr>))))))"

fun Loop_rounds ::
    "'j json_api \<Rightarrow> 'j doubles \<Rightarrow> nat \<Rightarrow> rusage option list \<Rightarrow> 'j UsageCollector \<Rightarrow> 'j UsageCollector run" where
  "Loop_rounds J D span [] u = Inr u"
| "Loop_rounds J D span (r # rs) u =
     rbind (Loop_round J D span r u) (\<lambda>u'. Loop_rounds J D (span + unat (interval u')) rs u')"

text \<open>\<open>Loop\<close> up to the cancellation of its thread in the sleep after the rounds \<open>rs\<close>.\<close>

definition collector_Loop ::
    "'j json_api \<Rightarrow> 'j doubles \<Rightarrow> rusage option list \<Rightarrow> 'j UsageCollector \<Rightarrow> 'j UsageCollector run" where
  "collector_Loop J D rs u = rbind (Loop_init J u) (Loop_rounds J D 0 rs)"

definition GetResponseJson :: "'j json_api \<Rightarrow> 'j UsageCollector \<Rightarrow> 'j \<Rightarrow> 'j run" where
  "GetResponseJson J u res =
     jset_all J res [(''ts'', samplingtime u), (''memory'', memusages u), (''cpu_user'', cputimeusages_user u),
       (''cpu_system'', cputimeusages_system u), (''files'', cnt_files u), (''connections'', cnt_connections u)]"

section \<open>Descriptors\<close>

text \<open>
  \<open>get_fdstats\<close>, whose call is commented out: the entries of the directory of descriptors, each
  with its type and with what \<open>stat\<close> says of it (nothing when it fails). \<open>None\<close> is a directory that
  cannot be opened.
\<close>

datatype file_type = DT_REG | DT_LNK | DT_OTHER

datatype file_mode = Mode_sock | Mode_reg | Mode_other

record fdstats =
  fd_total :: int
  fd_files :: int
  fd_socks :: int

definition count_entry :: "file_type \<times> file_mode option \<Rightarrow> fdstats \<Rightarrow> fdstats" where
  "count_entry entry st =
     (let st1 = st\<lparr>fd_total := fd_total st + 1\<rparr> in
      case fst entry of
        DT_REG \<Rightarrow> st1\<lparr>fd_files := fd_files st1 + 1\<rparr>
      | DT_LNK \<Rightarrow>
          if snd entry = Some Mode_sock then st1\<lparr>fd_socks := fd_socks st1 + 1\<rparr>
          else if snd entry = Some Mode_reg then st1\<lparr>fd_files := fd_files st1 + 1\<rparr>
          else st1
      | DT_OTHER \<Rightarrow> st1)"

definition get_fdstats :: "(file_type \<times> file_mode option) list option \<Rightarrow> fdstats run" where
  "get_fdstats dir =
     (case dir of
        None \<Rightarrow> Inl (Exited 1)
      | Some es \<Rightarrow> Inr (fold count_entry es \<lparr>fd_total = 0, fd_files = 0, fd_socks = 0\<rparr>))"

lemma count_entries:
  "fd_total (fold count_entry es st) = fd_total st + int (length es) \<and>
   fd_files (fold count_entry es st) = fd_files st +
     int (length (filter (\<lambda>e. fst e = DT_REG \<or> e = (DT_LNK, Some Mode_reg)) es)) \<and>
   fd_socks (fold count_entry es st) = fd_socks st + int (length (filter (\<lambda>e. e = (DT_LNK, Some Mode_sock)) es))"
proof (induction es arbitrary: st)
  case (Cons e es)
  then show ?case by (cases e; cases "fst e") (auto simp: count_entry_def Let_def split: file_type.splits)
qed simp

text \<open>The total also counts the entries that are neither, among them the directory itself and its parent.\<close>

lemma fdstats_total:
  "get_fdstats (Some es) = Inr st \<Longrightarrow> fd_total st = int (length es) \<and> fd_files st + fd_socks st \<le> fd_total st"
proof -
  assume st: "get_fdstats (Some es) = Inr st"
  have "length (filter (\<lambda>e. fst e = DT_REG \<or> e = (DT_LNK, Some Mode_reg)) es) +
      length (filter (\<lambda>e. e = (DT_LNK, Some Mode_sock)) es) \<le> length es"
    by (induction es) auto
  with st show ?thesis
    using count_entries [of es "\<lparr>fd_total = 0, fd_files = 0, fd_socks = 0\<rparr>"] by (auto simp: get_fdstats_def)
qed

section \<open>Lemmas\<close>

text \<open>The series of a collector, and what the rounds leave of them.\<close>

definition is_series :: "'j json_api \<Rightarrow> 'j \<Rightarrow> 'j list \<Rightarrow> bool" where
  "is_series J v xs \<longleftrightarrow> j_isArray J v \<and> j_elems J v = xs"

definition collected ::
    "'j json_api \<Rightarrow> 'j doubles \<Rightarrow> rusage list \<Rightarrow> 'j UsageCollector \<Rightarrow> bool" where
  "collected J D rs u \<longleftrightarrow>
     is_series J (samplingtime u) (j_str J ''ts'' # map (\<lambda>i. d_span D (5 * i)) [0 ..< length rs]) \<and>
     is_series J (memusages u) (j_str J ''memory'' # map (\<lambda>r. d_mem D (ru_maxrss r)) rs) \<and>
     is_series J (cputimeusages_user u) (j_str J ''cpu_user'' # map (\<lambda>r. d_time D (ru_utime r)) rs) \<and>
     is_series J (cputimeusages_system u) (j_str J ''cpu_system'' # map (\<lambda>r. d_time D (ru_stime r)) rs) \<and>
     is_series J (cnt_files u) [j_str J ''files''] \<and>
     is_series J (cnt_connections u) [j_str J ''connections'']"

lemma collected_fields [simp]:
  "collected J D rs (u\<lparr>thr_alive := b\<rparr>) = collected J D rs u"
  by (simp add: collected_def)

context json_array
begin

lemma series_ok:
  obtains v where "series J name = Inr v" and "is_series J v [j_str J name]"
  using jappend_ok [OF isArray_array, of "j_str J name"]
  by (auto simp: series_def is_series_def elems_array)

lemma append_series:
  assumes "is_series J v xs"
  obtains v' where "jappend J v x = Inr v'" and "is_series J v' (xs @ [x])"
  using assms jappend_ok [of v x] by (auto simp: is_series_def)

lemma Loop_init_ok:
  assumes "interval u = 5"
  obtains u' where "Loop_init J u = Inr u'" and "collected J D [] u'" and "interval u' = 5"
proof -
  obtain ts where ts: "series J ''ts'' = Inr ts" "is_series J ts [j_str J ''ts'']" by (rule series_ok)
  obtain mem where mem: "series J ''memory'' = Inr mem" "is_series J mem [j_str J ''memory'']" by (rule series_ok)
  obtain us where us: "series J ''cpu_user'' = Inr us" "is_series J us [j_str J ''cpu_user'']" by (rule series_ok)
  obtain sys where sys: "series J ''cpu_system'' = Inr sys" "is_series J sys [j_str J ''cpu_system'']" by (rule series_ok)
  obtain fs where fs: "series J ''files'' = Inr fs" "is_series J fs [j_str J ''files'']" by (rule series_ok)
  obtain cs where cs: "series J ''connections'' = Inr cs" "is_series J cs [j_str J ''connections'']" by (rule series_ok)
  define u' where "u' = u\<lparr>samplingtime := ts, memusages := mem, cputimeusages_user := us,
    cputimeusages_system := sys, cnt_files := fs, cnt_connections := cs\<rparr>"
  show thesis
    by (rule that [of u']) (use ts mem us sys fs cs assms in \<open>simp_all add: Loop_init_def collected_def u'_def\<close>)
qed

lemma Loop_round_ok:
  assumes "collected J D rs u" and "interval u = 5"
  obtains u' where "Loop_round J D (5 * length rs) (Some r) u = Inr u'" and "collected J D (rs @ [r]) u'"
    and "interval u' = 5"
proof -
  note c = assms(1) [unfolded collected_def]
  obtain us where us: "jappend J (cputimeusages_user u) (d_time D (ru_utime r)) = Inr us"
    "is_series J us ((j_str J ''cpu_user'' # map (\<lambda>r. d_time D (ru_utime r)) rs) @ [d_time D (ru_utime r)])"
    using append_series c by metis
  obtain sys where sys: "jappend J (cputimeusages_system u) (d_time D (ru_stime r)) = Inr sys"
    "is_series J sys ((j_str J ''cpu_system'' # map (\<lambda>r. d_time D (ru_stime r)) rs) @ [d_time D (ru_stime r)])"
    using append_series c by metis
  obtain ts where ts: "jappend J (samplingtime u) (d_span D (5 * length rs)) = Inr ts"
    "is_series J ts ((j_str J ''ts'' # map (\<lambda>i. d_span D (5 * i)) [0 ..< length rs]) @ [d_span D (5 * length rs)])"
    using append_series c by metis
  obtain mem where mem: "jappend J (memusages u) (d_mem D (ru_maxrss r)) = Inr mem"
    "is_series J mem ((j_str J ''memory'' # map (\<lambda>r. d_mem D (ru_maxrss r)) rs) @ [d_mem D (ru_maxrss r)])"
    using append_series c by metis
  define u' where "u' = u\<lparr>cputimeusages_user := us, cputimeusages_system := sys, samplingtime := ts,
    memusages := mem\<rparr>"
  show thesis
    by (rule that [of u']) (use us sys ts mem c assms(2) in \<open>simp_all add: Loop_round_def collected_def u'_def\<close>)
qed

lemma Loop_rounds_ok:
  assumes "collected J D rs u" and "interval u = 5"
  shows "\<exists>u'. Loop_rounds J D (5 * length rs) (map Some rs') u = Inr u' \<and> collected J D (rs @ rs') u'"
  using assms
proof (induction rs' arbitrary: rs u)
  case Nil
  then show ?case by simp
next
  case (Cons r rs')
  obtain u1 where u1: "Loop_round J D (5 * length rs) (Some r) u = Inr u1" "collected J D (rs @ [r]) u1" "interval u1 = 5"
    using Loop_round_ok [OF Cons.prems] by blast
  have five: "unat (5 :: 32 word) = 5" by code_simp
  have "5 * length (rs @ [r]) = 5 * length rs + unat (interval u1)" unfolding u1(3) five by simp
  with Cons.IH [OF u1(2,3)] u1(1) show ?case by (simp add: add.commute)
qed

lemma collector_Loop_ok:
  "\<exists>u. collector_Loop J D (map Some rs) (collector_Start (UsageCollector_new J)) = Inr u \<and> collected J D rs u"
proof -
  have "interval (collector_Start (UsageCollector_new J)) = 5"
    by (simp add: collector_Start_def UsageCollector_new_def)
  then obtain u1 where u1: "Loop_init J (collector_Start (UsageCollector_new J)) = Inr u1" "collected J D [] u1" "interval u1 = 5"
    by (rule Loop_init_ok)
  from Loop_rounds_ok [OF u1(2,3), of rs] u1(1) show ?thesis by (auto simp: collector_Loop_def)
qed

lemma GetResponseJson_ok:
  obtains res where "GetResponseJson J u (j_null J) = Inr res" and "j_get J res ''ts'' = Some (samplingtime u)"
    and "j_get J res ''memory'' = Some (memusages u)" and "j_get J res ''cpu_user'' = Some (cputimeusages_user u)"
    and "j_get J res ''cpu_system'' = Some (cputimeusages_system u)"
proof -
  obtain res where res: "GetResponseJson J u (j_null J) = Inr res"
    "\<And>k. j_get J res k = (case map_of (rev [(''ts'', samplingtime u), (''memory'', memusages u),
       (''cpu_user'', cputimeusages_user u), (''cpu_system'', cputimeusages_system u), (''files'', cnt_files u),
       (''connections'', cnt_connections u)]) k of None \<Rightarrow> j_get J (j_null J) k | Some x \<Rightarrow> Some x)"
    unfolding GetResponseJson_def using jset_all_ok [OF settable_null] by metis
  show thesis by (rule that [OF res(1)]) (simp_all add: res(2))
qed

end

section \<open>Properties\<close>

text \<open>
  However many samples a collector takes, the response it gives has four series of one
  name and one value per sample each, aligned: the samples in order, at spans 0, 5, 10 and so on.
\<close>

theorem usage_report:
  assumes "json_array J"
  shows "\<exists>u res ts mem us sys. collector_Loop J D (map Some rs) (collector_Start (UsageCollector_new J)) = Inr u \<and>
    GetResponseJson J u (j_null J) = Inr res \<and>
    j_get J res ''ts'' = Some ts \<and> j_elems J ts = j_str J ''ts'' # map (\<lambda>i. d_span D (5 * i)) [0 ..< length rs] \<and>
    j_get J res ''memory'' = Some mem \<and> j_elems J mem = j_str J ''memory'' # map (\<lambda>r. d_mem D (ru_maxrss r)) rs \<and>
    j_get J res ''cpu_user'' = Some us \<and> j_elems J us = j_str J ''cpu_user'' # map (\<lambda>r. d_time D (ru_utime r)) rs \<and>
    j_get J res ''cpu_system'' = Some sys \<and>
      j_elems J sys = j_str J ''cpu_system'' # map (\<lambda>r. d_time D (ru_stime r)) rs"
proof -
  obtain u where u: "collector_Loop J D (map Some rs) (collector_Start (UsageCollector_new J)) = Inr u" "collected J D rs u"
    using json_array.collector_Loop_ok [OF assms] by blast
  have "json_object J" using assms by (simp add: json_array_def)
  then obtain res where "GetResponseJson J u (j_null J) = Inr res" "j_get J res ''ts'' = Some (samplingtime u)"
    "j_get J res ''memory'' = Some (memusages u)" "j_get J res ''cpu_user'' = Some (cputimeusages_user u)"
    "j_get J res ''cpu_system'' = Some (cputimeusages_system u)"
    using json_array.GetResponseJson_ok [OF assms] by blast
  with u show ?thesis unfolding collected_def is_series_def by blast
qed

lemma usage_report_witness:
  "\<exists>u res ts. collector_Loop Jref \<lparr>d_time = \<lambda>(a, b). JInt a, d_mem = JInt, d_span = \<lambda>n. JInt (int n)\<rparr>
      (map Some [\<lparr>ru_utime = (1, 2), ru_stime = (3, 4), ru_maxrss = 5\<rparr>, \<lparr>ru_utime = (6, 7), ru_stime = (8, 9), ru_maxrss = 10\<rparr>])
      (collector_Start (UsageCollector_new Jref)) = Inr u \<and>
    GetResponseJson Jref u JNull = Inr res \<and> jv_get res ''ts'' = Some ts \<and> jv_elems ts = [JStr ''ts'', JInt 0, JInt 5]"
proof -
  have j: "j_null Jref = JNull" "j_get Jref = jv_get" "j_elems Jref = jv_elems" "j_str Jref = JStr"
    by (simp_all add: Jref_def Jref_with_def)
  have r: "[0 ..< 2] = [0, 1 :: nat]" by (simp add: upt_rec)
  from usage_report [OF Jref_array, of "\<lparr>d_time = \<lambda>(a, b). JInt a, d_mem = JInt, d_span = \<lambda>n. JInt (int n)\<rparr>"
      "[\<lparr>ru_utime = (1, 2), ru_stime = (3, 4), ru_maxrss = 5\<rparr>, \<lparr>ru_utime = (6, 7), ru_stime = (8, 9), ru_maxrss = 10\<rparr>]"]
  show ?thesis unfolding j by (simp add: r) blast
qed

end
