(* ===== verification/Control.thy ===== *)
theory Control
  imports Worker Usage
begin

text \<open>
  The control thread (\<open>MainDispatch\<close> in \<open>src/Control.cpp\<close>): it accepts the connections, starts a
  worker for each, collects the workers whose thread has ended, and answers the commands of
  the control connection. Worker objects live in a heap: a pointer to an object that was
  deleted has no entry there, and its use is \<open>BadAccess\<close>.
\<close>

section \<open>State\<close>

datatype phase = Serving | Leaving | Ended

record child =
  ch_phase :: phase
  ch_worker :: worker

type_synonym heap = "nat \<Rightarrow> child option"

text \<open>
  \<open>c_next\<close> is the next address of a worker object; \<open>coll\<close> is the pointer to the current collector
  in the list of all that were created, \<open>None\<close> before the first.
\<close>

record 'j control =
  c_conn :: conn
  c_shared :: "'j shared"
  c_children :: "nat list"
  c_heap :: heap
  c_next :: nat
  isCollectingStats :: bool
  coll :: "nat option"
  c_collectors :: "'j UsageCollector list"
  c_ttl :: ttl_timer

text \<open>
  What the control thread sees of the world: the JSON library, the memory a request is built
  in, the options of the daemon, the time, what a shell command prints (\<open>None\<close> when the pipe
  cannot be opened), and what a buffer on the stack holds.
\<close>

record 'j main_env =
  me_json :: "'j json_api"
  me_msg :: "'j Message"
  me_noPersist :: bool
  me_lcblogFile :: "string option"
  me_time :: nat
  me_popen :: "string \<Rightarrow> string option"
  me_urlbuf :: string

definition MainDispatch_new :: "conn \<Rightarrow> ttl_timer \<Rightarrow> 'j control" where
  "MainDispatch_new c t = \<lparr>c_conn = c, c_shared = shared_new, c_children = [], c_heap = (\<lambda>_. None),
     c_next = 0, isCollectingStats = False, coll = None, c_collectors = [], c_ttl = t\<rparr>"

definition control_respond :: "'j json_api \<Rightarrow> 'j Response \<Rightarrow> 'j control \<Rightarrow> 'j control run" where
  "control_respond J res s = rbind (writeResponse J res (c_conn s)) (\<lambda>c. Inr (s\<lparr>c_conn := c\<rparr>))"

section \<open>Workers\<close>

text \<open>
  \<open>_collect_workers\<close>, given which threads are reported alive: the others are joined, deleted and
  taken from the list.
\<close>

fun collect :: "(nat \<Rightarrow> bool) \<Rightarrow> nat list \<Rightarrow> heap \<Rightarrow> nat list \<times> heap" where
  "collect alive [] h = ([], h)"
| "collect alive (d # ds) h =
     (if \<not> alive d then collect alive ds (h(d := None))
      else let (ds', h') = collect alive ds h in (d # ds', h'))"

definition collect_workers :: "(nat \<Rightarrow> bool) \<Rightarrow> 'j control \<Rightarrow> 'j control" where
  "collect_workers alive s =
     (let (ds, h) = collect alive (c_children s) (c_heap s) in s\<lparr>c_children := ds, c_heap := h\<rparr>)"

definition new_worker :: "conn \<Rightarrow> 'j control \<Rightarrow> 'j control" where
  "new_worker c s =
     (let d = c_next s
      in s\<lparr>c_heap := (c_heap s)(d \<mapsto> \<lparr>ch_phase = Serving, ch_worker = WorkerDispatch_new d c\<rparr>),
           c_children := c_children s @ [d], c_next := Suc d\<rparr>)"

text \<open>\<open>cancelCurrentHandle\<close> of the object behind a pointer.\<close>

definition cancel_worker :: "nat \<Rightarrow> 'j control \<Rightarrow> 'j control run" where
  "cancel_worker d s =
     (case c_heap s d of
        None \<Rightarrow> Inl BadAccess
      | Some ch \<Rightarrow> Inr (s\<lparr>c_heap := (c_heap s)(d \<mapsto> ch\<lparr>ch_worker := fst (cancelCurrentHandle (ch_worker ch))\<rparr>)\<rparr>))"

section \<open>Commands\<close>

definition create_new_ds :: "'j json_api \<Rightarrow> 'j Message \<Rightarrow> 'j control \<Rightarrow> 'j control run" where
  "create_new_ds J req s =
     (let no_id = control_respond J (Response_new J req
            (Error_of SUBSYSf_SDKD SDKD_EINVAL ''NEWDATASET must have an ID''))
      in
      rbind (determineType J req []) (\<lambda>(dstype, refid).
      rbind (if dstype = DSTYPE_INVALID
             then control_respond J (Response_new J req (Error_of SUBSYSf_SDKD SDKD_EINVAL ''Invalid Dataset'')) s
             else Inr s) (\<lambda>s1.
      rbind (fromType J dstype req) (\<lambda>ds.
      case ds of
        None \<Rightarrow> no_id s1
      | Some d \<Rightarrow>
          if isValid d \<and> refid \<noteq> [] then
            let (old, m) = dsmap_at refid (c_shared s1); s2 = s1\<lparr>c_shared := m\<rparr> in
            if old \<noteq> None
            then control_respond J (Response_new J req
                   (Error_of SUBSYSf_SDKD SDKD_ENODS ''Dataset already exists with this ID'')) s2
            else Inr (s2\<lparr>c_shared := m\<lparr>dsmap := (dsmap m)(refid := Some (Some d))\<rparr>\<rparr>)
          else no_id s1))))"

text \<open>\<open>coll = new UsageCollector(); coll->Start();\<close> an earlier collector goes on.\<close>

definition start_collector :: "'j json_api \<Rightarrow> 'j control \<Rightarrow> 'j control" where
  "start_collector J s =
     s\<lparr>c_collectors := c_collectors s @ [collector_Start (UsageCollector_new J)],
       coll := Some (length (c_collectors s)), isCollectingStats := True\<rparr>"

definition dispatch_goodbye :: "'j json_api \<Rightarrow> 'j Message \<Rightarrow> 'j control \<Rightarrow> 'j control run" where
  "dispatch_goodbye J req s =
     (if \<not> isCollectingStats s then Inr s
      else case coll s of
        None \<Rightarrow> Inl BadAccess
      | Some i \<Rightarrow>
          let u = StopCollector (c_collectors s ! i); s1 = s\<lparr>c_collectors := (c_collectors s)[i := u]\<rparr> in
          rbind (GetResponseJson J u (j_null J)) (\<lambda>statsres.
          control_respond J (setResponseData statsres (Response_new J req Error_new)) s1))"

definition dispatch_cancel :: "'j json_api \<Rightarrow> 'j Message \<Rightarrow> 'j control \<Rightarrow> 'j control run" where
  "dispatch_cancel J req s =
     (let (w, m) = h2wmap_at (handle_id req) (c_shared s); s1 = s\<lparr>c_shared := m\<rparr> in
      case w of
        None \<Rightarrow> control_respond J (Response_new J req (Error_of SUBSYSf_SDKD SDKD_ENOHANDLE [])) s1
      | Some d \<Rightarrow> rbind (cancel_worker d s1) (control_respond J (Response_new J req (Error_of_code 0 []))))"

definition dispatch_info :: "'j main_env \<Rightarrow> 'j Message \<Rightarrow> 'j control \<Rightarrow> 'j control run" where
  "dispatch_info M req s =
     (let J = me_json M in
      rbind (jint J (payload req) ''PercentileFactor'') (\<lambda>p.
      let s1 = s\<lparr>c_shared := (c_shared s)\<lparr>g_pFactor := p\<rparr>\<rparr> in
      rbind (VersionInfoJson J (me_noPersist M) (me_time M) (j_null J)) (\<lambda>infores.
      rbind (control_respond J (setResponseData infores (Response_new J req Error_new)) s1) (\<lambda>s2.
      Inr (start_collector J s2)))))"

definition dispatch_ttl :: "'j json_api \<Rightarrow> 'j Message \<Rightarrow> 'j control \<Rightarrow> 'j control run" where
  "dispatch_ttl J req s =
     rbind (throws ''Json'' (j_isMember J (payload req) CBSDKD_MSGFLD_TTL_SECONDS)) (\<lambda>has.
     if \<not> has then control_respond J (Response_new J req (createInvalid ''Missing Seconds'')) s
     else
       rbind (jint J (payload req) CBSDKD_MSGFLD_TTL_SECONDS) (\<lambda>seconds.
       let seconds' = (if seconds < 0 then 0 else seconds)
       in control_respond J (Response_new J req (Error_of_code 0 []))
            (s\<lparr>c_ttl := sdkd_set_ttl (word_of_int seconds') (c_ttl s)\<rparr>)))"

text \<open>
  \<open>uploadLogs\<close>: the command is printed into 1024 characters; \<open>fgets\<close> reads the first line or 1023 characters, and leaves the buffer as it was
  when there is no output.
\<close>

fun fgets_line :: "nat \<Rightarrow> string \<Rightarrow> string" where
  "fgets_line 0 s = []"
| "fgets_line (Suc n) [] = []"
| "fgets_line (Suc n) (c # s) = (if c = newline then [c] else c # fgets_line n s)"

definition upload_command :: "string \<Rightarrow> string \<Rightarrow> string \<Rightarrow> string option \<Rightarrow> string" where
  "upload_command b a s l = ''python3 pylib/s3upload.py '' @ c_string b @ '' '' @ c_string a @ '' '' @ c_string s @
     '' '' @ (case l of None \<Rightarrow> ''(null)'' | Some f \<Rightarrow> c_string f) @ '' cpp''"

definition uploadLogs :: "'j main_env \<Rightarrow> 'j \<Rightarrow> string run" where
  "uploadLogs M pl =
     (let J = me_json M; cstr = (\<lambda>k. rbind (jfield J pl k) (\<lambda>x. throws ''Json'' (j_asCString J x))) in
      rbind (cstr CBSDKD_MSGFLD_S3_BUCKET) (\<lambda>b.
      rbind (cstr CBSDKD_MSGFLD_S3_ACCESSS) (\<lambda>a.
      rbind (cstr CBSDKD_MSGFLD_S3_SECRET) (\<lambda>s.
      let cmd = upload_command b a s (me_lcblogFile M) in
      rbind (require (length cmd < 1024) BadAccess) (\<lambda>_.
      case me_popen M cmd of
        None \<Rightarrow> Inl BadAccess
      | Some out \<Rightarrow> Inr (c_string (if out = [] then me_urlbuf M else fgets_line 1023 out)))))))"

definition dispatch_upload :: "'j main_env \<Rightarrow> 'j Message \<Rightarrow> 'j control \<Rightarrow> 'j control run" where
  "dispatch_upload M req s =
     (let J = me_json M in
      rbind (uploadLogs M (payload req)) (\<lambda>url.
      rbind (jset J (j_null J) ''url'' (j_str J url)) (\<lambda>val.
      control_respond J (setResponseData val (Response_new J req Error_new)) s)))"

definition dispatchCommand :: "'j main_env \<Rightarrow> 'j Message \<Rightarrow> 'j control \<Rightarrow> (bool \<times> 'j control) run" where
  "dispatchCommand M req s =
     (let J = me_json M; c = cmd_code (command req); go_on = (\<lambda>m. rbind m (\<lambda>s1. Inr (True, s1))) in
      if c = NEWDATASET then go_on (create_new_ds J req s)
      else if c = GOODBYE then rbind (dispatch_goodbye J req s) (\<lambda>s1. Inr (False, s1))
      else if c = CANCEL then go_on (dispatch_cancel J req s)
      else if c = INFO then go_on (dispatch_info M req s)
      else if c = TTL then go_on (dispatch_ttl J req s)
      else if c = GETUSAGE then Inr (True, start_collector J s)
      else if c = UPLOADLOGS then go_on (dispatch_upload M req s)
      else go_on (control_respond J (Response_new J req (Error_of SUBSYSf_SDKD SDKD_ENOIMPL [])) s))"

section \<open>The loop\<close>

text \<open>
  What one round meets: the threads reported alive at the two collections, what \<open>select\<close> gives,
  the sets the two sockets are in, and what \<open>accept\<close> gives. A \<open>select\<close> that fails leaves the
  sets as they were passed: both sockets in the read and the except set.
\<close>

record main_event =
  ev_alive1 :: "nat \<Rightarrow> bool"
  ev_alive2 :: "nat \<Rightarrow> bool"
  ev_error :: "sockerr option"
  ev_accept_exc :: bool
  ev_control_exc :: bool
  ev_control_write :: bool
  ev_accept_read :: bool
  ev_control_read :: bool
  ev_newsock :: "conn option"

text \<open>
  Reading a command. A request that is not valid is deleted, but the pointer to it is not
  null, so it is dispatched.
\<close>

definition main_read :: "'j main_env \<Rightarrow> 'j control \<Rightarrow> (bool \<times> 'j control) run" where
  "main_read M s =
     rbind (readRequest (me_json M) (me_msg M) (c_conn s)) (\<lambda>(rv, reqp, c).
     let s1 = s\<lparr>c_conn := c\<rparr> in
     case reqp of
       NullPtr \<Rightarrow> Inr (rv \<noteq> -1, s1)
     | Dangling \<Rightarrow> Inl BadAccess
     | Live req \<Rightarrow> dispatchCommand M req s1)"

definition main_sockets ::
    "'j main_env \<Rightarrow> main_event \<Rightarrow> bool \<Rightarrow> 'j control \<Rightarrow> (bool \<times> 'j control) run" where
  "main_sockets M ev wants_write s =
     (if ev_accept_exc ev \<or> ev_control_exc ev then Inr (False, s)
      else
        rbind (if wants_write \<and> ev_control_write ev
               then rbind (flushBufferBlock (c_conn s)) (\<lambda>(r, c). Inr (r, s\<lparr>c_conn := c\<rparr>))
               else Inr (0, s)) (\<lambda>(r, s1).
        if r = -1 then Inr (False, s1)
        else if ev_accept_read ev \<and> ev_newsock ev = None then Inr (False, s1)
        else
          let s2 = (case ev_newsock ev of Some c \<Rightarrow> if ev_accept_read ev then new_worker c s1 else s1 | None \<Rightarrow> s1)
          in if ev_control_read ev then main_read M s2 else Inr (True, s2)))"

definition loopOnce :: "'j main_env \<Rightarrow> main_event \<Rightarrow> 'j control \<Rightarrow> (bool \<times> 'j control) run" where
  "loopOnce M ev s =
     rbind (setupFdSets (c_conn s)) (\<lambda>wants_write.
     let s2 = collect_workers (ev_alive2 ev) (collect_workers (ev_alive1 ev) s) in
     case ev_error ev of
       None \<Rightarrow> main_sockets M ev wants_write s2
     | Some e \<Rightarrow>
         if e \<noteq> Interrupted then Inr (False, s2)
         else main_sockets M (ev\<lparr>ev_accept_exc := True, ev_control_exc := True, ev_control_write := True,
                ev_accept_read := True, ev_control_read := True\<rparr>) wants_write s2)"

fun main_loops :: "'j main_env \<Rightarrow> main_event list \<Rightarrow> 'j control \<Rightarrow> 'j control run" where
  "main_loops M [] s = Inl Running"
| "main_loops M (ev # evs) s =
     rbind (loopOnce M ev s) (\<lambda>(go, s1). if go then main_loops M evs s1 else Inr s1)"

definition main_flush :: "'j control \<Rightarrow> 'j control run" where
  "main_flush s = rbind (flushBufferBlock (c_conn s)) (\<lambda>(_, c). Inr (s\<lparr>c_conn := c\<rparr>))"

text \<open>\<open>run\<close> after the control connection is accepted.\<close>

definition main_run :: "'j main_env \<Rightarrow> main_event list \<Rightarrow> 'j control \<Rightarrow> 'j control run" where
  "main_run M evs s = rbind (main_loops M evs s) main_flush"

text \<open>One round of the destructor's loop: every worker is cancelled, the ended ones are collected.\<close>

fun cancel_all :: "nat list \<Rightarrow> 'j control \<Rightarrow> 'j control run" where
  "cancel_all [] s = Inr s"
| "cancel_all (d # ds) s = rbind (cancel_worker d s) (cancel_all ds)"

definition destroy_round :: "(nat \<Rightarrow> bool) \<Rightarrow> 'j control \<Rightarrow> 'j control run" where
  "destroy_round alive s = rbind (cancel_all (c_children s) s) (\<lambda>s1. Inr (collect_workers alive s1))"

fun destroy_loop :: "(nat \<Rightarrow> bool) list \<Rightarrow> 'j control \<Rightarrow> 'j control run" where
  "destroy_loop alives s =
     (if c_children s = [] then Inr s
      else case alives of
        [] \<Rightarrow> Inl Running
      | alive # rest \<Rightarrow> rbind (destroy_round alive s) (destroy_loop rest))"

declare destroy_loop.simps [simp del]

text \<open>
  What the destructor waits for outside the daemon: what \<open>isAlive\<close> reports of the workers in each
  round of its loop, whether the client calls back when it has closed the cluster, and for each
  thread of the client whether its \<open>io.run()\<close> returns. A wait that does not end is \<open>Running\<close>.
\<close>

record destroy_env =
  de_rounds :: "(nat \<Rightarrow> bool) list"
  de_closed :: bool
  de_io_ends :: "bool list"

definition close_cluster :: "destroy_env \<Rightarrow> unit run" where
  "close_cluster E = require (de_closed E) Running"

fun join_io_threads :: "bool list \<Rightarrow> unit run" where
  "join_io_threads [] = Inr ()"
| "join_io_threads (ends # ts) = rbind (require ends Running) (\<lambda>_. join_io_threads ts)"

text \<open>The destructor, over the listening socket and the state; the mutexes are deleted last.\<close>

definition MainDispatch_delete :: "destroy_env \<Rightarrow> int \<Rightarrow> 'j control \<Rightarrow> (int \<times> 'j control) run" where
  "MainDispatch_delete E acceptfd s =
     (let fd = (if acceptfd \<ge> 0 then -1 else acceptfd) in
      rbind (destroy_loop (de_rounds E) s) (\<lambda>s1.
      rbind (close_cluster E) (\<lambda>_.
      rbind (join_io_threads (de_io_ends E)) (\<lambda>_. Inr (fd, s1)))))"

lemma join_io_threads_eq: "join_io_threads ts = (if \<forall>ends \<in> set ts. ends then Inr () else Inl Running)"
  by (induction ts) (auto simp: require_def)

end
