(* ===== verification/System.thy ===== *)
theory System
  imports Control WorkerItems
begin

text \<open>
  The daemon as a whole: the control thread, the worker threads and the collectors take steps in
  any order. One round of a loop is one step; a round of the control thread whose \<open>select\<close> waits
  between its two collections is a step that collects and a later one. The environment of a
  step is arbitrary: every theorem holds for all scripts, clusters and JSON libraries. That the client
  has closed the cluster and that its threads have ended are steps of the environment.
\<close>

section \<open>Steps\<close>

datatype main_phase = Dispatching | Closing | ClosingCluster | Joining | Closed

record 'j system =
  sy_control :: "'j control"
  sy_phase :: main_phase

text \<open>A thread that has not ended is reported alive.\<close>

definition truthful :: "(nat \<Rightarrow> bool) \<Rightarrow> 'j control \<Rightarrow> bool" where
  "truthful alive c \<longleftrightarrow> (\<forall>d ch. c_heap c d = Some ch \<and> ch_phase ch \<noteq> Ended \<longrightarrow> alive d)"

text \<open>A worker's step on the shared state, written back into the heap.\<close>

definition put_worker :: "nat \<Rightarrow> phase \<Rightarrow> 'j worker_state \<Rightarrow> 'j control \<Rightarrow> 'j control" where
  "put_worker d p s c =
     c\<lparr>c_heap := (c_heap c)(d \<mapsto> \<lparr>ch_phase = p, ch_worker = fst s\<rparr>), c_shared := snd s\<rparr>"

inductive step :: "'j json_api \<Rightarrow> 'j system \<Rightarrow> 'j system \<Rightarrow> bool" for J :: "'j json_api" where
  main_collect: "truthful alive c \<Longrightarrow>
    step J \<lparr>sy_control = c, sy_phase = Dispatching\<rparr>
      \<lparr>sy_control = collect_workers alive c, sy_phase = Dispatching\<rparr>"
| main_round: "me_json M = J \<Longrightarrow> truthful (ev_alive1 ev) c \<Longrightarrow> truthful (ev_alive2 ev) c \<Longrightarrow>
    loopOnce M ev c = Inr (True, c') \<Longrightarrow>
    step J \<lparr>sy_control = c, sy_phase = Dispatching\<rparr> \<lparr>sy_control = c', sy_phase = Dispatching\<rparr>"
| main_end: "me_json M = J \<Longrightarrow> truthful (ev_alive1 ev) c \<Longrightarrow> truthful (ev_alive2 ev) c \<Longrightarrow>
    loopOnce M ev c = Inr (False, c1) \<Longrightarrow> main_flush c1 = Inr c' \<Longrightarrow>
    step J \<lparr>sy_control = c, sy_phase = Dispatching\<rparr> \<lparr>sy_control = c', sy_phase = Closing\<rparr>"
| close_round: "c_children c \<noteq> [] \<Longrightarrow> truthful alive c \<Longrightarrow> destroy_round alive c = Inr c' \<Longrightarrow>
    step J \<lparr>sy_control = c, sy_phase = Closing\<rparr> \<lparr>sy_control = c', sy_phase = Closing\<rparr>"
| close_end: "c_children c = [] \<Longrightarrow>
    step J \<lparr>sy_control = c, sy_phase = Closing\<rparr> \<lparr>sy_control = c, sy_phase = ClosingCluster\<rparr>"
| cluster_closed: "step J \<lparr>sy_control = c, sy_phase = ClosingCluster\<rparr> \<lparr>sy_control = c, sy_phase = Joining\<rparr>"
| io_joined: "step J \<lparr>sy_control = c, sy_phase = Joining\<rparr> \<lparr>sy_control = c, sy_phase = Closed\<rparr>"
| serve: "e_json E = J \<Longrightarrow> c_heap c d = Some ch \<Longrightarrow> ch_phase ch = Serving \<Longrightarrow>
    selectLoop E ev (ch_worker ch, c_shared c) = Inr (go, s') \<Longrightarrow>
    step J \<lparr>sy_control = c, sy_phase = p\<rparr>
      \<lparr>sy_control = put_worker d (if go then Serving else Leaving) s' c, sy_phase = p\<rparr>"
| leave: "c_heap c d = Some ch \<Longrightarrow> ch_phase ch = Leaving \<Longrightarrow>
    worker_end (ch_worker ch, c_shared c) = Inr s' \<Longrightarrow>
    step J \<lparr>sy_control = c, sy_phase = p\<rparr> \<lparr>sy_control = put_worker d Ended s' c, sy_phase = p\<rparr>"
| sample: "i < length (c_collectors c) \<Longrightarrow> thr_alive (c_collectors c ! i) \<Longrightarrow>
    Loop_init J (c_collectors c ! i) = Inr u \<or> Loop_round J D spent r (c_collectors c ! i) = Inr u \<Longrightarrow>
    step J \<lparr>sy_control = c, sy_phase = p\<rparr>
      \<lparr>sy_control = c\<lparr>c_collectors := (c_collectors c)[i := u]\<rparr>, sy_phase = p\<rparr>"

definition system_start :: "conn \<Rightarrow> ttl_timer \<Rightarrow> 'j system" where
  "system_start conn t = \<lparr>sy_control = MainDispatch_new conn t, sy_phase = Dispatching\<rparr>"

inductive reachable :: "'j json_api \<Rightarrow> 'j system \<Rightarrow> bool" for J :: "'j json_api" where
  reachable_start: "reachable J (system_start conn t)"
| reachable_step: "reachable J s \<Longrightarrow> step J s s' \<Longrightarrow> reachable J s'"

inductive_cases closedE: "step J \<lparr>sy_control = c, sy_phase = Closed\<rparr> s'"

section \<open>The part of the state the invariants depend on\<close>

text \<open>What of a worker matters: its phase, number and connection, its handle and the handle's number.\<close>

record child_view =
  v_phase :: phase
  v_id :: nat
  v_none :: bool
  v_hid :: "64 word"
  v_conn :: conn

definition child_view :: "child \<Rightarrow> child_view" where
  "child_view ch = \<lparr>v_phase = ch_phase ch, v_id = w_id (ch_worker ch),
     v_none = (cur_handle (ch_worker ch) = None), v_hid = cur_hid (ch_worker ch),
     v_conn = w_conn (ch_worker ch)\<rparr>"

definition heap_view :: "heap \<Rightarrow> nat \<Rightarrow> child_view option" where
  "heap_view h d = map_option child_view (h d)"

text \<open>When statistics are collected there is a collector behind the pointer.\<close>

definition collecting_ok :: "'j control \<Rightarrow> bool" where
  "collecting_ok c \<longleftrightarrow> (isCollectingStats c \<longrightarrow> (\<exists>i. coll c = Some i \<and> i < length (c_collectors c)))"

text \<open>Steps that leave all of it as it is.\<close>

definition quiet :: "'j control \<Rightarrow> 'j control \<Rightarrow> bool" where
  "quiet c c' \<longleftrightarrow> c_children c' = c_children c \<and> heap_view (c_heap c') = heap_view (c_heap c) \<and>
     c_next c' = c_next c \<and> owners (c_shared c') = owners (c_shared c) \<and> named (c_shared c') = named (c_shared c) \<and>
     (collecting_ok c \<longrightarrow> collecting_ok c')"

lemma quiet_refl [simp]: "quiet c c"
  by (simp add: quiet_def)

lemma quiet_trans [trans]: "quiet c c' \<Longrightarrow> quiet c' c'' \<Longrightarrow> quiet c c''"
  by (simp add: quiet_def)

lemma quiet_fields [simp]:
  "quiet c (c'\<lparr>c_conn := x\<rparr>) = quiet c c'" "quiet c (c'\<lparr>c_ttl := t\<rparr>) = quiet c c'"
  by (simp_all add: quiet_def collecting_ok_def)

lemma quiet_shared:
  "owners m = owners (c_shared c) \<Longrightarrow> named m = named (c_shared c) \<Longrightarrow> quiet c (c\<lparr>c_shared := m\<rparr>)"
  by (simp add: quiet_def collecting_ok_def)

lemma control_respond_quiet: "control_respond J res c = Inr c' \<Longrightarrow> quiet c c'"
  by (auto simp: control_respond_def rbind_eq_Inr)

lemma heap_view_eqD:
  "heap_view h' = heap_view h \<Longrightarrow> h d = Some ch \<Longrightarrow> \<exists>ch'. h' d = Some ch' \<and> child_view ch' = child_view ch"
  by (drule fun_cong [of _ _ d]) (simp add: heap_view_def)

lemma cancel_worker_quiet:
  assumes "cancel_worker d c = Inr c'"
  shows "quiet c c'"
proof -
  obtain ch where ch: "c_heap c d = Some ch"
    and c': "c' = c\<lparr>c_heap := (c_heap c)(d \<mapsto> ch\<lparr>ch_worker := fst (cancelCurrentHandle (ch_worker ch))\<rparr>)\<rparr>"
    using assms by (auto simp: cancel_worker_def split: option.splits)
  have "child_view (ch\<lparr>ch_worker := fst (cancelCurrentHandle (ch_worker ch))\<rparr>) = child_view ch"
    by (simp add: child_view_def cancelCurrentHandle_def cancelCurrent_def)
  with ch show ?thesis by (auto simp: quiet_def c' heap_view_def fun_eq_iff collecting_ok_def)
qed

section \<open>Commands are quiet\<close>

text \<open>No command touches the registry: a dataset is never registered either, since only a reference has a name.\<close>

lemma determineType_named:
  assumes "determineType J req [] = Inr (t, refid)" and "refid \<noteq> []"
  shows "t = DSTYPE_REFERENCE"
  using assms by (auto simp: determineType_def rbind_eq_Inr split: option.splits if_splits)

lemma fromType_reference: "fromType J DSTYPE_REFERENCE req = Inr None"
  by (simp add: fromType_def)

definition invalid_dataset :: "'j json_api \<Rightarrow> 'j Message \<Rightarrow> 'j Response" where
  "invalid_dataset J req = Response_new J req (Error_of SUBSYSf_SDKD SDKD_EINVAL ''Invalid Dataset'')"

definition needs_id :: "'j json_api \<Rightarrow> 'j Message \<Rightarrow> 'j Response" where
  "needs_id J req = Response_new J req (Error_of SUBSYSf_SDKD SDKD_EINVAL ''NEWDATASET must have an ID'')"

lemma create_new_ds_eq:
  assumes "determineType J req [] = Inr (t, refid)" and "fromType J t req = Inr ds"
  shows "create_new_ds J req c =
    rbind (if t = DSTYPE_INVALID then control_respond J (invalid_dataset J req) c else Inr c)
      (control_respond J (needs_id J req))"
proof -
  have no_ref: "refid = []" if "ds \<noteq> None"
  proof (rule ccontr)
    assume "refid \<noteq> []"
    with determineType_named [OF assms(1)] assms(2) fromType_reference [of J req] have "ds = None" by simp
    with that show False by simp
  qed
  show ?thesis
    using assms no_ref
    by (auto simp: create_new_ds_def invalid_dataset_def needs_id_def Let_def intro!: rbind_cong split: option.splits)
qed

lemma create_new_ds_quiet:
  assumes "create_new_ds J req c = Inr c'"
  shows "quiet c c'"
proof -
  obtain t refid ds where t: "determineType J req [] = Inr (t, refid)" and ds: "fromType J t req = Inr ds"
    using assms by (auto simp: create_new_ds_def rbind_eq_Inr Let_def)
  obtain c1 where c1: "(if t = DSTYPE_INVALID then control_respond J (invalid_dataset J req) c else Inr c) = Inr c1"
    and "control_respond J (needs_id J req) c1 = Inr c'"
    using assms unfolding create_new_ds_eq [OF t ds] by (auto simp: rbind_eq_Inr)
  moreover have "quiet c c1" using c1 control_respond_quiet by (auto split: if_splits)
  ultimately show ?thesis using control_respond_quiet quiet_trans by blast
qed

lemma start_collector_quiet [simp]: "quiet c (start_collector J c)"
  by (simp add: quiet_def collecting_ok_def start_collector_def)

lemma goodbye_quiet:
  assumes "dispatch_goodbye J req c = Inr c'"
  shows "quiet c c'"
proof (cases "isCollectingStats c")
  case True
  then obtain i where i: "coll c = Some i" using assms by (auto simp: dispatch_goodbye_def split: option.splits)
  define c1 where "c1 = c\<lparr>c_collectors := (c_collectors c)[i := StopCollector (c_collectors c ! i)]\<rparr>"
  obtain res where "control_respond J res c1 = Inr c'"
    using assms True i by (auto simp: dispatch_goodbye_def c1_def Let_def rbind_eq_Inr)
  moreover have "quiet c c1" by (simp add: c1_def quiet_def collecting_ok_def)
  ultimately show ?thesis using control_respond_quiet quiet_trans by blast
qed (use assms in \<open>simp add: dispatch_goodbye_def\<close>)

lemma cancel_quiet:
  assumes "dispatch_cancel J req c = Inr c'"
  shows "quiet c c'"
proof -
  define m where "m = snd (h2wmap_at (handle_id req) (c_shared c))"
  define c1 where "c1 = c\<lparr>c_shared := m\<rparr>"
  have q1: "quiet c c1" unfolding c1_def by (rule quiet_shared) (simp_all add: m_def)
  have "\<exists>res c2. quiet c1 c2 \<and> control_respond J res c2 = Inr c'"
  proof (cases "owners (c_shared c) (handle_id req)")
    case None
    with assms have "control_respond J (Response_new J req (Error_of SUBSYSf_SDKD SDKD_ENOHANDLE [])) c1 = Inr c'"
      by (simp add: dispatch_cancel_def c1_def m_def Let_def split_beta)
    then show ?thesis using quiet_refl by blast
  next
    case (Some d)
    with assms have "rbind (cancel_worker d c1) (control_respond J (Response_new J req (Error_of_code 0 []))) = Inr c'"
      by (simp add: dispatch_cancel_def c1_def m_def Let_def split_beta)
    then show ?thesis using cancel_worker_quiet unfolding rbind_eq_Inr by blast
  qed
  then show ?thesis using q1 control_respond_quiet quiet_trans by blast
qed

lemma info_quiet:
  assumes "dispatch_info M req c = Inr c'"
  shows "quiet c c'"
proof -
  obtain p res c2 where "control_respond (me_json M) res (c\<lparr>c_shared := (c_shared c)\<lparr>g_pFactor := p\<rparr>\<rparr>) = Inr c2"
    and c': "c' = start_collector (me_json M) c2"
    using assms by (auto simp: dispatch_info_def Let_def rbind_eq_Inr)
  then have "quiet (c\<lparr>c_shared := (c_shared c)\<lparr>g_pFactor := p\<rparr>\<rparr>) c2" by (rule_tac control_respond_quiet)
  moreover have "quiet c (c\<lparr>c_shared := (c_shared c)\<lparr>g_pFactor := p\<rparr>\<rparr>)" by (rule quiet_shared) simp_all
  ultimately show ?thesis unfolding c' using start_collector_quiet quiet_trans by blast
qed

lemma ttl_quiet: "dispatch_ttl J req c = Inr c' \<Longrightarrow> quiet c c'"
  by (auto simp: dispatch_ttl_def rbind_eq_Inr Let_def split: if_splits dest!: control_respond_quiet
      intro: quiet_trans [rotated])

lemma upload_quiet: "dispatch_upload M req c = Inr c' \<Longrightarrow> quiet c c'"
  by (auto simp: dispatch_upload_def rbind_eq_Inr Let_def dest!: control_respond_quiet)

lemmas command_quiet = create_new_ds_quiet goodbye_quiet cancel_quiet info_quiet ttl_quiet upload_quiet
  control_respond_quiet

lemma dispatchCommand_quiet: "dispatchCommand M req c = Inr (go, c') \<Longrightarrow> quiet c c'"
  by (auto simp: dispatchCommand_def Let_def rbind_eq_Inr split: if_splits dest: command_quiet)

section \<open>Moves of the control thread\<close>

text \<open>
  Whatever the control thread does is a sequence of three moves: it collects workers that have
  ended, it starts a worker, or it does something quiet.
\<close>

inductive control_move :: "'j control \<Rightarrow> 'j control \<Rightarrow> bool" where
  quiet: "quiet c c' \<Longrightarrow> control_move c c'"
| collect: "truthful alive c \<Longrightarrow> control_move c (collect_workers alive c)"
| spawn: "control_move c (new_worker x c)"

lemma collect_eq: "collect alive ds h = (filter alive ds, \<lambda>d. if d \<in> set ds \<and> \<not> alive d then None else h d)"
  by (induction ds arbitrary: h) (auto simp: fun_eq_iff)

lemma cancel_all_quiet: "cancel_all ds c = Inr c' \<Longrightarrow> quiet c c'"
proof (induction ds arbitrary: c)
  case (Cons d ds)
  then show ?case using cancel_worker_quiet quiet_trans by (fastforce simp: rbind_eq_Inr)
qed simp

lemma truthful_quiet:
  assumes "quiet c c'" and "truthful alive c"
  shows "truthful alive c'"
  unfolding truthful_def
proof (intro allI impI)
  fix d ch
  assume ch: "c_heap c' d = Some ch \<and> ch_phase ch \<noteq> Ended"
  have "heap_view (c_heap c) = heap_view (c_heap c')" using assms(1) by (simp add: quiet_def)
  from heap_view_eqD [OF this] ch obtain ch1 where "c_heap c d = Some ch1" "child_view ch1 = child_view ch" by blast
  with ch have "c_heap c d = Some ch1 \<and> ch_phase ch1 \<noteq> Ended" by (simp add: child_view_def)
  with assms(2) show "alive d" unfolding truthful_def by blast
qed

lemma quiet_moves: "quiet c c' \<Longrightarrow> control_move\<^sup>*\<^sup>* c c'"
  by (simp add: control_move.quiet r_into_rtranclp)

lemma collect_moves: "truthful alive c \<Longrightarrow> control_move\<^sup>*\<^sup>* c (collect_workers alive c)"
  by (simp add: control_move.collect r_into_rtranclp)

lemma main_read_quiet:
  assumes "main_read M c = Inr (go, c')"
  shows "quiet c c'"
proof -
  obtain rv reqp x where r: "readRequest (me_json M) (me_msg M) (c_conn c) = Inr (rv, reqp, x)"
    using assms by (auto simp: main_read_def rbind_eq_Inr)
  show ?thesis
  proof (cases reqp)
    case (Live req)
    with assms r have "dispatchCommand M req (c\<lparr>c_conn := x\<rparr>) = Inr (go, c')" by (simp add: main_read_def)
    from dispatchCommand_quiet [OF this] have "quiet (c\<lparr>c_conn := x\<rparr>) c'" .
    then show ?thesis by (rule quiet_trans [rotated]) simp
  qed (use assms r in \<open>auto simp: main_read_def\<close>)
qed

lemma main_sockets_moves:
  assumes "main_sockets M ev ww c = Inr (go, c')"
  shows "control_move\<^sup>*\<^sup>* c c'"
proof (cases "ev_accept_exc ev \<or> ev_control_exc ev")
  case False
  then obtain r c1 where r: "(if ww \<and> ev_control_write ev
      then rbind (flushBufferBlock (c_conn c)) (\<lambda>(r, x). Inr (r, c\<lparr>c_conn := x\<rparr>)) else Inr (0, c)) = Inr (r, c1)"
    and rest: "(if r = -1 then Inr (False, c1)
        else if ev_accept_read ev \<and> ev_newsock ev = None then Inr (False, c1)
        else
          let s2 = (case ev_newsock ev of Some x \<Rightarrow> if ev_accept_read ev then new_worker x c1 else c1 | None \<Rightarrow> c1)
          in if ev_control_read ev then main_read M s2 else Inr (True, s2)) = Inr (go, c')"
    using assms by (auto simp: main_sockets_def rbind_eq_Inr)
  have "quiet c c1" using r by (auto simp: rbind_eq_Inr split: if_splits prod.splits)
  moreover define c2 where "c2 = (case ev_newsock ev of Some x \<Rightarrow> if ev_accept_read ev then new_worker x c1 else c1 | None \<Rightarrow> c1)"
  have "c' = c1 \<or> c' = c2 \<or> main_read M c2 = Inr (go, c')"
    using rest unfolding c2_def [symmetric] Let_def by (auto split: if_splits)
  then have "quiet c1 c' \<or> quiet c2 c'" using main_read_quiet by auto
  moreover have "c2 = c1 \<or> (\<exists>x. c2 = new_worker x c1)" by (auto simp: c2_def split: option.splits)
  moreover have "control_move\<^sup>*\<^sup>* c1 (new_worker x c1)" for x
    by (simp add: control_move.spawn r_into_rtranclp)
  ultimately have "control_move\<^sup>*\<^sup>* c c1" "control_move\<^sup>*\<^sup>* c1 c2"
    "control_move\<^sup>*\<^sup>* c1 c' \<or> control_move\<^sup>*\<^sup>* c2 c'"
    using quiet_moves by auto
  then show ?thesis using rtranclp_trans by metis
qed (use assms in \<open>simp add: main_sockets_def\<close>)

lemma loopOnce_moves:
  assumes "loopOnce M ev c = Inr (go, c')" and "truthful (ev_alive1 ev) c" and "truthful (ev_alive2 ev) c"
  shows "control_move\<^sup>*\<^sup>* c c'"
proof -
  define c1 where "c1 = collect_workers (ev_alive1 ev) c"
  define c2 where "c2 = collect_workers (ev_alive2 ev) c1"
  have "truthful (ev_alive2 ev) c1"
    using assms(3) by (auto simp: truthful_def c1_def collect_workers_def collect_eq split: if_splits)
  then have 1: "control_move\<^sup>*\<^sup>* c c2"
    unfolding c2_def by (rule rtranclp_trans [OF collect_moves [OF assms(2), folded c1_def] collect_moves])
  have "c' = c2 \<or> (\<exists>ev' ww. main_sockets M ev' ww c2 = Inr (go, c'))"
    using assms(1) by (auto simp: loopOnce_def c1_def c2_def Let_def rbind_eq_Inr split: option.splits if_splits)
  then have "control_move\<^sup>*\<^sup>* c2 c'" using main_sockets_moves by auto
  with 1 show ?thesis by (rule rtranclp_trans)
qed

lemma main_flush_moves: "main_flush c = Inr c' \<Longrightarrow> control_move\<^sup>*\<^sup>* c c'"
  by (auto simp: main_flush_def rbind_eq_Inr intro!: quiet_moves)

lemma destroy_round_moves:
  assumes "destroy_round alive c = Inr c'" and "truthful alive c"
  shows "control_move\<^sup>*\<^sup>* c c'"
proof -
  obtain c1 where c1: "cancel_all (c_children c) c = Inr c1" and c': "c' = collect_workers alive c1"
    using assms(1) by (auto simp: destroy_round_def rbind_eq_Inr)
  note q = cancel_all_quiet [OF c1]
  show ?thesis unfolding c'
    using quiet_moves [OF q] collect_moves [OF truthful_quiet [OF q assms(2)]] by (rule rtranclp_trans)
qed

text \<open>So a step is a sequence of such moves, or a worker's.\<close>

lemma step_move_cases [consumes 1, case_names moves serve leave]:
  assumes "step J s s'"
    and "\<And>c c' p p'. control_move\<^sup>*\<^sup>* c c' \<Longrightarrow> P \<lparr>sy_control = c, sy_phase = p\<rparr> \<lparr>sy_control = c', sy_phase = p'\<rparr>"
    and "\<And>E c d ch ev go s' p. e_json E = J \<Longrightarrow> c_heap c d = Some ch \<Longrightarrow> ch_phase ch = Serving \<Longrightarrow>
      selectLoop E ev (ch_worker ch, c_shared c) = Inr (go, s') \<Longrightarrow>
      P \<lparr>sy_control = c, sy_phase = p\<rparr>
        \<lparr>sy_control = put_worker d (if go then Serving else Leaving) s' c, sy_phase = p\<rparr>"
    and "\<And>c d ch s' p. c_heap c d = Some ch \<Longrightarrow> ch_phase ch = Leaving \<Longrightarrow>
      worker_end (ch_worker ch, c_shared c) = Inr s' \<Longrightarrow>
      P \<lparr>sy_control = c, sy_phase = p\<rparr> \<lparr>sy_control = put_worker d Ended s' c, sy_phase = p\<rparr>"
  shows "P s s'"
  using assms(1)
proof (cases rule: step.cases)
  case (main_end M ev c c1 c')
  have "control_move\<^sup>*\<^sup>* c c'"
    using rtranclp_trans [OF loopOnce_moves [OF main_end(6,4,5)] main_flush_moves [OF main_end(7)]] .
  with main_end assms(2) show ?thesis by simp
next
  case (sample i c u D spent r p)
  have "quiet c (c\<lparr>c_collectors := (c_collectors c)[i := u]\<rparr>)" by (simp add: quiet_def collecting_ok_def)
  from assms(2) [OF quiet_moves [OF this]] sample show ?thesis by simp
next
  case (main_collect alive c)
  with assms(2) [OF collect_moves] show ?thesis by simp
next
  case (main_round M ev c c')
  with assms(2) [OF loopOnce_moves] show ?thesis by simp
next
  case (close_round c alive c')
  with assms(2) [OF destroy_round_moves] show ?thesis by simp
next
  case (close_end c)
  with assms(2) [OF rtranclp.rtrancl_refl] show ?thesis by simp
next
  case cluster_closed
  with assms(2) [OF rtranclp.rtrancl_refl] show ?thesis by simp
next
  case io_joined
  with assms(2) [OF rtranclp.rtrancl_refl] show ?thesis by simp
next
  case serve
  with assms(3) show ?thesis by simp
next
  case leave
  with assms(4) show ?thesis by simp
qed

end
