(* ===== verification/Registration.thy ===== *)
theory Registration
  imports System
begin

text \<open>
  The registry as a machine of its own: which workers exist and which of them owns which handle
  number. The daemon's steps are steps of this machine, and the invariant that makes them so:
  a registered number belongs to a worker that exists and has that number.
\<close>

section \<open>The abstract registry\<close>

record registry_spec =
  live :: "nat set"
  owner :: "64 word \<Rightarrow> nat option"

text \<open>
  A worker is created; a worker that owns nothing gets a number; a worker gives up its one
  number; workers that own nothing are deleted.
\<close>

inductive astep :: "registry_spec \<Rightarrow> registry_spec \<Rightarrow> bool" where
  spawn: "d \<notin> live a \<Longrightarrow> astep a (a\<lparr>live := insert d (live a)\<rparr>)"
| own: "d \<in> live a \<Longrightarrow> d \<notin> ran (owner a) \<Longrightarrow> k \<noteq> 0 \<Longrightarrow> astep a (a\<lparr>owner := (owner a)(k \<mapsto> d)\<rparr>)"
| disown: "d \<in> live a \<Longrightarrow> (\<And>k'. owner a k' = Some d \<Longrightarrow> k' = k) \<Longrightarrow> astep a (a\<lparr>owner := (owner a)(k := None)\<rparr>)"
| reap: "D \<inter> ran (owner a) = {} \<Longrightarrow> astep a (a\<lparr>live := live a - D\<rparr>)"

inductive_cases astepE: "astep a a'"

text \<open>What the abstract machine promises: an owner exists and owns one number, which is not zero.\<close>

definition registry_ok :: "registry_spec \<Rightarrow> bool" where
  "registry_ok a \<longleftrightarrow> ran (owner a) \<subseteq> live a \<and> owner a 0 = None \<and>
     (\<forall>k k' d. owner a k = Some d \<and> owner a k' = Some d \<longrightarrow> k = k')"

lemma astep_ok: "astep a a' \<Longrightarrow> registry_ok a \<Longrightarrow> registry_ok a'"
proof (induction rule: astep.induct)
  case (own d a k)
  then show ?case by (auto simp: registry_ok_def ran_def split: if_splits)
next
  case (disown d a k)
  then show ?case by (auto simp: registry_ok_def ran_def split: if_splits)
next
  case (reap D a)
  then show ?case by (auto simp: registry_ok_def ran_def)
qed (auto simp: registry_ok_def)

section \<open>The daemon's view of it\<close>

definition registry :: "'j control \<Rightarrow> registry_spec" where
  "registry c = \<lparr>live = dom (heap_view (c_heap c)), owner = (owners (c_shared c))(0 := None)\<rparr>"

definition children_ok :: "'j control \<Rightarrow> bool" where
  "children_ok c \<longleftrightarrow> distinct (c_children c) \<and> set (c_children c) = dom (heap_view (c_heap c)) \<and>
     (\<forall>d \<in> set (c_children c). d < c_next c)"

definition view_ok :: "nat \<Rightarrow> child_view \<Rightarrow> bool" where
  "view_ok d v \<longleftrightarrow> v_id v = d \<and> (v_none v \<longrightarrow> v_hid v = 0) \<and> (v_phase v = Ended \<longrightarrow> v_none v)"

definition views_ok :: "'j control \<Rightarrow> bool" where
  "views_ok c \<longleftrightarrow> (\<forall>d v. heap_view (c_heap c) d = Some v \<longrightarrow> view_ok d v)"

definition owners_ok :: "'j control \<Rightarrow> bool" where
  "owners_ok c \<longleftrightarrow> (\<forall>k d. k \<noteq> 0 \<longrightarrow> owners (c_shared c) k = Some d \<longrightarrow>
     (\<exists>v. heap_view (c_heap c) d = Some v \<and> v_hid v = k))"

definition system_ok :: "'j control \<Rightarrow> bool" where
  "system_ok c \<longleftrightarrow> children_ok c \<and> views_ok c \<and> owners_ok c \<and> collecting_ok c \<and>
     named (c_shared c) = Map.empty"

lemmas system_ok_defs = system_ok_def children_ok_def views_ok_def owners_ok_def

text \<open>A transition of the daemon that is none, one or more of the registry, and keeps the invariant.\<close>

definition refines :: "'j control \<Rightarrow> 'j control \<Rightarrow> bool" where
  "refines c c' \<longleftrightarrow> (system_ok c \<longrightarrow> system_ok c' \<and> astep\<^sup>*\<^sup>* (registry c) (registry c'))"

lemma refines_trans [trans]: "refines c c' \<Longrightarrow> refines c' c'' \<Longrightarrow> refines c c''"
  by (auto simp: refines_def)

lemma refines_refl [simp]: "refines c c"
  by (simp add: refines_def)

lemma quiet_refines: "quiet c c' \<Longrightarrow> refines c c'"
  by (simp add: refines_def quiet_def system_ok_defs registry_def)

lemma heap_view_simps [simp]:
  "heap_view (h(d := x)) = (heap_view h)(d := map_option child_view x)"
  by (auto simp: heap_view_def)

section \<open>Collecting\<close>

lemma truthful_view:
  "truthful alive c \<Longrightarrow> heap_view (c_heap c) d = Some v \<Longrightarrow> \<not> alive d \<Longrightarrow> v_phase v = Ended"
  by (force simp: truthful_def heap_view_def child_view_def)

lemma collect_refines:
  assumes t: "truthful alive c"
  shows "refines c (collect_workers alive c)"
proof -
  define c' where "c' = collect_workers alive c"
  define D where "D = {d \<in> set (c_children c). \<not> alive d}"
  have view: "heap_view (c_heap c') = (\<lambda>d. if d \<in> D then None else heap_view (c_heap c) d)"
    by (auto simp: c'_def D_def collect_workers_def collect_eq heap_view_def fun_eq_iff)
  have rest: "c_children c' = filter alive (c_children c)" "c_next c' = c_next c" "c_shared c' = c_shared c"
    "collecting_ok c' = collecting_ok c"
    by (simp_all add: c'_def collect_workers_def collect_eq collecting_ok_def)
  have "system_ok c' \<and> astep\<^sup>*\<^sup>* (registry c) (registry c')" if ok: "system_ok c"
  proof -
    have idle: "k = 0" if "owners (c_shared c) k = Some d" "d \<in> D" for k d
    proof (rule ccontr)
      assume "k \<noteq> 0"
      with ok that(1) obtain v where v: "heap_view (c_heap c) d = Some v" "v_hid v = k"
        unfolding system_ok_def owners_ok_def by blast
      then have "v_phase v = Ended" using t that(2) truthful_view by (auto simp: D_def)
      then show False using ok v \<open>k \<noteq> 0\<close> by (auto simp: system_ok_def views_ok_def view_ok_def)
    qed
    have "registry c' = (registry c)\<lparr>live := live (registry c) - D\<rparr>"
      by (auto simp: registry_def view rest split: if_splits)
    moreover have "D \<inter> ran (owner (registry c)) = {}"
      using idle by (auto simp: registry_def ran_def split: if_splits)
    ultimately have "astep (registry c) (registry c')" by (simp add: astep.reap)
    moreover have "system_ok c'"
      using ok idle unfolding system_ok_defs rest view
      by (auto simp: D_def split: if_splits)
    ultimately show ?thesis by blast
  qed
  then show ?thesis unfolding refines_def c'_def by blast
qed

section \<open>A new worker\<close>

lemma new_view_ok: "view_ok d \<lparr>v_phase = Serving, v_id = d, v_none = True, v_hid = 0, v_conn = x\<rparr>"
  by (simp add: view_ok_def)

lemma new_worker_refines: "refines c (new_worker conn c)"
proof -
  define d where "d = c_next c"
  define c' where "c' = new_worker conn c"
  have view: "heap_view (c_heap c') = (heap_view (c_heap c))(d \<mapsto> \<lparr>v_phase = Serving, v_id = d, v_none = True, v_hid = 0, v_conn = conn\<rparr>)"
    by (simp add: c'_def d_def new_worker_def child_view_def WorkerDispatch_new_def Let_def)
  have rest: "c_children c' = c_children c @ [d]" "c_next c' = Suc d" "c_shared c' = c_shared c"
    "collecting_ok c' = collecting_ok c"
    by (simp_all add: c'_def new_worker_def Let_def collecting_ok_def d_def)
  have "system_ok c' \<and> astep\<^sup>*\<^sup>* (registry c) (registry c')" if ok: "system_ok c"
  proof -
    have fresh: "heap_view (c_heap c) d = None" "d \<notin> set (c_children c)"
      using ok by (auto simp: system_ok_def children_ok_def d_def)
    then have "registry c' = (registry c)\<lparr>live := insert d (live (registry c))\<rparr>" "d \<notin> live (registry c)"
      by (auto simp: registry_def view rest)
    then have "astep (registry c) (registry c')" by (simp add: astep.spawn)
    moreover have "owners (c_shared c) k = Some d \<Longrightarrow> k = 0" for k
      using ok fresh unfolding system_ok_def owners_ok_def by force
    then have "system_ok c'"
      using ok fresh new_view_ok unfolding system_ok_defs rest view d_def
      by (auto simp: less_Suc_eq split: if_splits)
    ultimately show ?thesis by blast
  qed
  then show ?thesis unfolding refines_def c'_def by blast
qed

section \<open>A worker's step\<close>

text \<open>A new view of a worker that exists, with the owners it leaves.\<close>

lemma put_worker_parts:
  "heap_view (c_heap (put_worker d p s c)) = (heap_view (c_heap c))(d \<mapsto> child_view \<lparr>ch_phase = p, ch_worker = fst s\<rparr>)"
  "c_children (put_worker d p s c) = c_children c" "c_next (put_worker d p s c) = c_next c"
  "c_shared (put_worker d p s c) = snd s" "collecting_ok (put_worker d p s c) = collecting_ok c"
  by (simp_all add: put_worker_def collecting_ok_def)

lemma put_worker_ok:
  assumes ok: "system_ok c" and ch: "c_heap c d = Some ch"
    and v: "view_ok d (child_view \<lparr>ch_phase = p, ch_worker = fst s\<rparr>)"
    and o': "\<And>k e. k \<noteq> 0 \<Longrightarrow> owners (snd s) k = Some e \<Longrightarrow>
      e = d \<and> cur_hid (fst s) = k \<or> e \<noteq> d \<and> owners (c_shared c) k = Some e"
    and n: "named (snd s) = named (c_shared c)"
  shows "system_ok (put_worker d p s c)"
proof -
  have dom: "heap_view (c_heap c) d \<noteq> None" using ch by (simp add: heap_view_def)
  have h: "v_hid (child_view \<lparr>ch_phase = p, ch_worker = fst s\<rparr>) = cur_hid (fst s)" by (simp add: child_view_def)
  have "owners_ok (put_worker d p s c)"
    unfolding owners_ok_def put_worker_parts
  proof (intro allI impI)
    fix k e
    assume "k \<noteq> 0" "owners (snd s) k = Some e"
    from o' [OF this] show "\<exists>v. ((heap_view (c_heap c))(d \<mapsto> child_view \<lparr>ch_phase = p, ch_worker = fst s\<rparr>)) e = Some v \<and> v_hid v = k"
      using ok h \<open>k \<noteq> 0\<close> unfolding system_ok_def owners_ok_def by auto
  qed
  moreover have "children_ok (put_worker d p s c)"
    using ok dom unfolding system_ok_def children_ok_def put_worker_parts by auto
  moreover have "views_ok (put_worker d p s c)"
    using ok v unfolding system_ok_def views_ok_def put_worker_parts by auto
  ultimately show ?thesis using ok n by (simp add: system_ok_def put_worker_parts)
qed

lemma put_worker_live:
  "c_heap c d = Some ch \<Longrightarrow> live (registry (put_worker d p s c)) = live (registry c)"
  by (auto simp: registry_def put_worker_parts heap_view_def)

text \<open>What the invariant says of one worker.\<close>

lemma worker_view:
  assumes "system_ok c" and "c_heap c d = Some ch"
  shows "w_id (ch_worker ch) = d" and "cur_handle (ch_worker ch) = None \<Longrightarrow> cur_hid (ch_worker ch) = 0"
    and "k \<noteq> 0 \<Longrightarrow> owners (c_shared c) k = Some d \<Longrightarrow> cur_hid (ch_worker ch) = k"
    and "d \<in> live (registry c)"
proof -
  have v: "heap_view (c_heap c) d = Some (child_view ch)" using assms(2) by (simp add: heap_view_def)
  then have "view_ok d (child_view ch)" using assms(1) by (auto simp: system_ok_def views_ok_def)
  then show "w_id (ch_worker ch) = d" and "cur_handle (ch_worker ch) = None \<Longrightarrow> cur_hid (ch_worker ch) = 0"
    by (auto simp: view_ok_def child_view_def)
  show "cur_hid (ch_worker ch) = k" if "k \<noteq> 0" "owners (c_shared c) k = Some d"
    using assms(1) that v by (auto simp: system_ok_def owners_ok_def child_view_def)
  show "d \<in> live (registry c)" using v by (auto simp: registry_def)
qed

lemma serve_refines:
  assumes ch: "c_heap c d = Some ch" and p: "p \<noteq> Ended" "ch_phase ch \<noteq> Ended"
    and e: "handle_effect (ch_worker ch, c_shared c) s'"
  shows "refines c (put_worker d p s' c)"
proof -
  define c' where "c' = put_worker d p s' c"
  have "system_ok c' \<and> astep\<^sup>*\<^sup>* (registry c) (registry c')" if ok: "system_ok c"
  proof -
    note w = worker_view [OF ok ch]
    have n: "named (snd s') = named (c_shared c)" and id: "w_id (fst s') = d"
      using e w(1) by (simp_all add: handle_effect_def)
    from e consider
      (same) "cur_handle (fst s') = cur_handle (ch_worker ch)" "cur_hid (fst s') = cur_hid (ch_worker ch)"
        "owners (snd s') = owners (c_shared c)"
      | (opened) "cur_handle (ch_worker ch) = None" "cur_handle (fst s') \<noteq> None"
        "owners (snd s') = (owners (c_shared c))(cur_hid (fst s') \<mapsto> d)"
      using w(1) by (auto simp: handle_effect_def)
    then show ?thesis
    proof cases
      case same
      have "system_ok c'" unfolding c'_def
        using same w id n p by (intro put_worker_ok [OF ok ch]) (auto simp: view_ok_def child_view_def)
      moreover have "registry c' = registry c"
        using put_worker_live [OF ch] same by (simp add: registry_def c'_def put_worker_parts)
      ultimately show ?thesis by simp
    next
      case opened
      have no_key: "owners (c_shared c) k = Some d \<Longrightarrow> k = 0" for k using w(2,3) opened(1) by blast
      have "system_ok c'" unfolding c'_def
        using opened no_key id n p
        by (intro put_worker_ok [OF ok ch]) (auto simp: view_ok_def child_view_def split: if_splits)
      moreover have "astep\<^sup>*\<^sup>* (registry c) (registry c')"
      proof (cases "cur_hid (fst s') = 0")
        case True
        then have "registry c' = registry c"
          using put_worker_live [OF ch] opened by (simp add: registry_def c'_def put_worker_parts)
        then show ?thesis by simp
      next
        case False
        have "registry c' = (registry c)\<lparr>owner := (owner (registry c))(cur_hid (fst s') \<mapsto> d)\<rparr>"
          using put_worker_live [OF ch, of p s'] opened False
          by (simp add: registry_def c'_def put_worker_parts fun_upd_twist)
        moreover have "d \<notin> ran (owner (registry c))"
          using no_key by (auto simp: registry_def ran_def split: if_splits)
        ultimately have "astep (registry c) (registry c')" using astep.own [OF w(4) _ False] by simp
        then show ?thesis by simp
      qed
      ultimately show ?thesis by blast
    qed
  qed
  then show ?thesis by (simp add: refines_def c'_def)
qed

lemma leave_refines:
  assumes ch: "c_heap c d = Some ch" and e: "worker_end (ch_worker ch, c_shared c) = Inr s'"
  shows "refines c (put_worker d Ended s' c)"
proof -
  define c' where "c' = put_worker d Ended s' c"
  define k where "k = cur_hid (ch_worker ch)"
  note ending = worker_end_effect [OF e, simplified]
  have "system_ok c' \<and> astep\<^sup>*\<^sup>* (registry c) (registry c')" if ok: "system_ok c"
  proof -
    note w = worker_view [OF ok ch]
    have own: "owners (snd s') j = (if j = k \<and> k \<noteq> 0 then None else owners (c_shared c) j)" for j
      using ending(5) by (auto simp: k_def)
    have "system_ok c'" unfolding c'_def
    proof (rule put_worker_ok [OF ok ch])
      show "view_ok d (child_view \<lparr>ch_phase = Ended, ch_worker = fst s'\<rparr>)"
        using ending w(1) by (simp add: view_ok_def child_view_def)
      show "named (snd s') = named (c_shared c)" by (rule ending(4))
      fix j e
      assume j: "j \<noteq> 0" "owners (snd s') j = Some e"
      then have e: "owners (c_shared c) j = Some e" "j \<noteq> k" using own [of j] by (auto split: if_splits)
      have "e \<noteq> d" using e w(3) [OF j(1)] unfolding k_def by blast
      with e show "e = d \<and> cur_hid (fst s') = j \<or> e \<noteq> d \<and> owners (c_shared c) j = Some e" by simp
    qed
    moreover have "astep\<^sup>*\<^sup>* (registry c) (registry c')"
    proof (cases "k = 0")
      case True
      then have "registry c' = registry c"
        using put_worker_live [OF ch] ending(5) by (simp add: registry_def c'_def put_worker_parts k_def)
      then show ?thesis by simp
    next
      case False
      have "registry c' = (registry c)\<lparr>owner := (owner (registry c))(k := None)\<rparr>"
        using put_worker_live [OF ch, of Ended s'] own False
        by (simp add: registry_def c'_def put_worker_parts fun_eq_iff)
      moreover have "owner (registry c) k' = Some d \<Longrightarrow> k' = k" for k'
        using w(3) by (auto simp: registry_def k_def split: if_splits)
      ultimately have "astep (registry c) (registry c')" using astep.disown [OF w(4)] by simp
      then show ?thesis by simp
    qed
    ultimately show ?thesis by blast
  qed
  then show ?thesis by (simp add: refines_def c'_def)
qed

section \<open>Every step\<close>

lemma moves_refine: "control_move\<^sup>*\<^sup>* c c' \<Longrightarrow> refines c c'"
proof (induction rule: rtranclp_induct)
  case (step c' c'')
  then show ?case
    by (elim control_move.cases) (auto intro: refines_trans quiet_refines collect_refines new_worker_refines)
qed simp

lemma step_refines: "step J s s' \<Longrightarrow> refines (sy_control s) (sy_control s')"
proof (induction rule: step_move_cases)
  case (serve E c d ch ev go s' p)
  have "handle_effect (ch_worker ch, c_shared c) s'" by (rule selectLoop_effect [OF serve(4)])
  with serve show ?case by (auto intro!: serve_refines)
qed (auto intro: moves_refine leave_refines)

lemma start_ok: "system_ok (sy_control (system_start conn t))"
  by (auto simp: system_start_def MainDispatch_new_def system_ok_defs collecting_ok_def heap_view_def)

lemma reachable_ok: "reachable J s \<Longrightarrow> system_ok (sy_control s)"
proof (induction rule: reachable.induct)
  case (reachable_step s s')
  then show ?case using step_refines unfolding refines_def by blast
qed (rule start_ok)

text \<open>The invariant of the daemon gives the one of the abstract registry.\<close>

lemma registry_of_system:
  assumes "system_ok c"
  shows "registry_ok (registry c)"
proof -
  have "d \<in> dom (heap_view (c_heap c))" if "owners (c_shared c) k = Some d" "k \<noteq> 0" for k d
    using assms that by (auto simp: system_ok_def owners_ok_def)
  moreover have "k = k'" if "owners (c_shared c) k = Some d" "owners (c_shared c) k' = Some d" "k \<noteq> 0" "k' \<noteq> 0" for k k' d
  proof -
    have "\<exists>v. heap_view (c_heap c) d = Some v \<and> v_hid v = j" if "j \<noteq> 0" "owners (c_shared c) j = Some d" for j
      using assms that by (simp add: system_ok_def owners_ok_def)
    from this [OF that(3,1)] this [OF that(4,2)] show ?thesis by auto
  qed
  ultimately show ?thesis by (auto simp: registry_ok_def registry_def ran_def split: if_splits)
qed

text \<open>Every registered number but zero has a worker that lives, has a handle, and has that number.\<close>

lemma owner_serves:
  assumes "system_ok c" and "owners (c_shared c) k = Some d" and "k \<noteq> 0"
  obtains ch where "c_heap c d = Some ch" and "cur_hid (ch_worker ch) = k" and "cur_handle (ch_worker ch) \<noteq> None"
    and "ch_phase ch \<noteq> Ended"
proof -
  obtain v where v: "heap_view (c_heap c) d = Some v" "v_hid v = k"
    using assms by (auto simp: system_ok_def owners_ok_def)
  then obtain ch where ch: "c_heap c d = Some ch" "v = child_view ch" by (auto simp: heap_view_def)
  moreover have "view_ok d v" using assms(1) v(1) by (auto simp: system_ok_def views_ok_def)
  ultimately show thesis using v(2) assms(3) that by (auto simp: view_ok_def child_view_def)
qed

section \<open>The destructor's loop\<close>

lemma cancel_all_ok:
  "set ds \<subseteq> dom (heap_view (c_heap c)) \<Longrightarrow> \<exists>c'. cancel_all ds c = Inr c'"
proof (induction ds arbitrary: c)
  case (Cons d ds)
  then obtain ch where "c_heap c d = Some ch" by (auto simp: heap_view_def)
  then obtain c1 where c1: "cancel_worker d c = Inr c1" by (simp add: cancel_worker_def)
  have "heap_view (c_heap c1) = heap_view (c_heap c)" using cancel_worker_quiet [OF c1] by (simp add: quiet_def)
  with Cons c1 show ?case by simp
qed simp

lemma destroy_round_ok:
  assumes "set (c_children c) \<subseteq> dom (heap_view (c_heap c))"
  obtains c' where "destroy_round alive c = Inr c'" and "c_children c' = filter alive (c_children c)"
    and "heap_view (c_heap c') = (\<lambda>d. if d \<in> set (c_children c) \<and> \<not> alive d then None else heap_view (c_heap c) d)"
proof -
  obtain c1 where c1: "cancel_all (c_children c) c = Inr c1" using cancel_all_ok [OF assms] by blast
  have q: "c_children c1 = c_children c" "heap_view (c_heap c1) = heap_view (c_heap c)"
    using cancel_all_quiet [OF c1] by (simp_all add: quiet_def)
  show thesis
  proof (rule that [of "collect_workers alive c1"])
    show "heap_view (c_heap (collect_workers alive c1)) =
        (\<lambda>d. if d \<in> set (c_children c) \<and> \<not> alive d then None else heap_view (c_heap c) d)"
      using q by (auto simp: collect_workers_def collect_eq heap_view_def fun_eq_iff)
  qed (use c1 q in \<open>simp_all add: destroy_round_def collect_workers_def collect_eq\<close>)
qed

text \<open>The loop ends when every worker has been reported gone in some round, and goes on otherwise.\<close>

lemma destroy_loop_result:
  assumes "set (c_children c) = dom (heap_view (c_heap c))"
  shows "if \<forall>d \<in> set (c_children c). \<exists>alive \<in> set rounds. \<not> alive d
    then \<exists>c'. destroy_loop rounds c = Inr c' \<and> c_children c' = [] \<and> heap_view (c_heap c') = Map.empty
    else destroy_loop rounds c = Inl Running"
  using assms
proof (induction rounds arbitrary: c)
  case Nil
  then show ?case by (cases "c_children c") (auto simp: destroy_loop.simps)
next
  case (Cons alive rounds)
  show ?case
  proof (cases "c_children c = []")
    case True
    with Cons.prems show ?thesis by (auto simp: destroy_loop.simps)
  next
    case False
    obtain c' where c': "destroy_round alive c = Inr c'" "c_children c' = filter alive (c_children c)"
      "heap_view (c_heap c') = (\<lambda>d. if d \<in> set (c_children c) \<and> \<not> alive d then None else heap_view (c_heap c) d)"
      using destroy_round_ok [of c alive] Cons.prems by blast
    have "set (c_children c') = dom (heap_view (c_heap c'))" using Cons.prems c'(2,3) by (auto split: if_splits)
    note IH = Cons.IH [OF this]
    have "destroy_loop (alive # rounds) c = destroy_loop rounds c'"
      using False c'(1) by (simp add: destroy_loop.simps [of "alive # _"])
    moreover have "(\<forall>d \<in> set (c_children c'). \<exists>alive \<in> set rounds. \<not> alive d) \<longleftrightarrow>
        (\<forall>d \<in> set (c_children c). \<exists>alive \<in> set (alive # rounds). \<not> alive d)"
      by (auto simp: c'(2))
    ultimately show ?thesis using IH by simp
  qed
qed

lemma delete_result:
  assumes "set (c_children c) = dom (heap_view (c_heap c))"
  shows "if (\<forall>d \<in> set (c_children c). \<exists>alive \<in> set (de_rounds E). \<not> alive d) \<and> de_closed E \<and> (\<forall>ends \<in> set (de_io_ends E). ends)
    then \<exists>c'. MainDispatch_delete E fd c = Inr (if fd \<ge> 0 then -1 else fd, c') \<and> c_children c' = [] \<and>
      heap_view (c_heap c') = Map.empty
    else MainDispatch_delete E fd c = Inl Running"
  using destroy_loop_result [OF assms, of "de_rounds E"]
  by (auto simp: MainDispatch_delete_def close_cluster_def join_io_threads_eq require_def split: if_splits)

end
