(* ===== verification/SystemProps.thy ===== *)
theory SystemProps
  imports Registration WorkerProps
begin

text \<open>
  The properties of the control thread and of the daemon as a whole. The examples run a short
  history: a connection is accepted, its worker opens a handle, and the connection ends.
\<close>

section \<open>Answers of the control thread\<close>

definition control_output :: "string \<Rightarrow> 'j control \<Rightarrow> 'j control" where
  "control_output t c = c\<lparr>c_conn := (c_conn c)\<lparr>outbuf := outbuf (c_conn c) @ t\<rparr>\<rparr>"

lemma control_respond_ok:
  assumes "writer J"
  obtains e where "encode J res = Inr e" and "\<And>c. control_respond J res c = Inr (control_output (terminated e) c)"
proof -
  have "json_object J" using assms by (simp add: writer_def)
  then obtain root where "response_root J res = Inr root"
    by (rule json_object.response_root_ok)
  then have "encode J res = Inr (j_write J root)" by (simp add: encode_def)
  moreover have "j_write J root \<noteq> []" using assms by (simp add: writer_def)
  ultimately show thesis
    by (intro that [of "j_write J root"])
      (simp_all add: control_respond_def writeResponse_def control_output_def terminated_def)
qed

lemma h2wmap_at_owner: "owners m k = Some d \<Longrightarrow> h2wmap_at k m = (Some d, m)"
  by (simp add: owners_def h2wmap_at_def split: option.splits)

lemma cancelCurrentHandle_sets:
  "cur_handle w \<noteq> None \<Longrightarrow> fst (cancelCurrentHandle w) = w\<lparr>w_io := (w_io w)\<lparr>do_cancel := True\<rparr>\<rparr>"
  by (auto simp: cancelCurrentHandle_def cancelCurrent_def)

lemma processRequest_opens:
  assumes "writer (e_json E)" and "Request_isValid req" and "cmd_code (command req) = NEWHANDLE"
    and "cur_handle (fst s) = None"
    and "HandleOptions_new (e_json E) (mem_path (e_memory E)) (mem_handle (e_memory E)) (payload req) = Inr h"
    and "HandleOptions_isValid h"
    and "ensureCluster (e_cluster E) \<lparr>o_connstr = connstr_of h, o_username = username h, o_password = password h\<rparr>
      (bucket h) (snd s) = (None, m)"
  obtains e where "encode (e_json E) (Response_new (e_json E) req Error_new) = Inr e" and "e \<noteq> []"
    and "processRequest E req s = Inr (True,
    (add_output (terminated e) (fst (open_handle (e_world E) h (handle_id req) (fst s, m))),
     snd (open_handle (e_world E) h (handle_id req) (fst s, m))))"
proof -
  define s1 where "s1 = open_handle (e_world E) h (handle_id req) (fst s, m)"
  have t: "try_handle E req h s = (Error_of_code 0 [], s1)"
    using assms by (simp add: try_handle_def s1_def)
  have "\<not> is_error (Error_of_code 0 [])" by (simp add: is_error_def Error_of_code_def)
  moreover obtain e where e: "encode (e_json E) (Response_new (e_json E) req Error_new) = Inr e"
    "respond (e_json E) (Response_new (e_json E) req Error_new) s1 = Inr (add_output (terminated e) (fst s1), snd s1)"
    by (rule respond_ok [OF assms(1)])
  ultimately have "processRequest E req s = Inr (True, (add_output (terminated e) (fst s1), snd s1))"
    using assms t by (simp add: processRequest_def initializeHandle_def)
  moreover have "e \<noteq> []" using e by (auto simp: respond_eq)
  ultimately show thesis using that e(1) by (simp add: s1_def)
qed

section \<open>A short history\<close>

text \<open>A library whose parser reads every line as the request for the handle number \<open>k\<close>.\<close>

definition handle_json :: "int \<Rightarrow> jval json_api" where
  "handle_json k = Jref_with (\<lambda>_. Inr (JObj
     [(''Command'', JStr ''NEWHANDLE''), (''ReqID'', JInt 1), (''Handle'', JInt k), (''CommandData'', JObj handle_fields)]))"

definition client_conn :: conn where
  "client_conn = (new_conn [Bytes [CHR ''x'', newline]])\<lparr>sends := [Taken 4096],
     selects := [SelectError OtherError]\<rparr>"

definition handle_env :: "int \<Rightarrow> jval surroundings" where
  "handle_env k = (example_env None)\<lparr>e_json := handle_json k\<rparr>"

definition client_request :: "64 word \<Rightarrow> jval Message" where
  "client_request h = \<lparr>reqid = 1, handle_id = h, command = Command_of_code NEWHANDLE,
     payload = JObj handle_fields, msg_err = Error_new\<rparr>"

definition client_options :: HandleOptions where
  "client_options = (many_options 1 1)\<lparr>hostname := ''h'', username := [], password := [], bucket := ''b'',
     certpath := [], timeout := 0\<rparr>"

lemma client_reads:
  "readRequest (handle_json 0) (field_request []) client_conn =
     Inr (1, Live (client_request 0), client_conn\<lparr>incoming := []\<rparr>)"
  "readRequest (handle_json 7) (field_request []) client_conn =
     Inr (1, Live (client_request 7), client_conn\<lparr>incoming := []\<rparr>)"
  by code_simp+

lemma handle_json_object: "writer (handle_json k)"
  unfolding writer_def handle_json_def by (intro conjI Jref.json_object_axioms) (simp add: Jref_with_def)

text \<open>The worker of an accepted connection opens the handle \<open>of_int k\<close>.\<close>

lemma client_opens:
  assumes "k \<in> {0, 7}"
  obtains s' e where "selectLoop (handle_env k) (SelectReady False False True) (WorkerDispatch_new 0 client_conn, shared_new) = Inr (True, s')"
    and "w_id (fst s') = 0" and "cur_handle (fst s') \<noteq> None" and "cur_hid (fst s') = of_int k"
    and "owners (snd s') = [of_int k \<mapsto> 0]" and "e \<noteq> []"
    and "encode (handle_json k) (Response_new (handle_json k) (client_request (of_int k)) Error_new) = Inr e"
    and "w_conn (fst s') = client_conn\<lparr>incoming := [], outbuf := terminated e\<rparr>"
proof -
  define E where "E = handle_env k"
  define c where "c = client_conn\<lparr>incoming := []\<rparr>"
  define s where "s = ((WorkerDispatch_new 0 client_conn)\<lparr>w_conn := c\<rparr>, shared_new :: jval shared)"
  have r: "readRequest (handle_json k) (field_request []) client_conn = Inr (1, Live (client_request (of_int k)), c)"
    using assms client_reads by (auto simp: c_def)
  have conn: "sock_open client_conn" "outbuf client_conn = []"
    by (simp_all add: client_conn_def new_conn_def)
  obtain m where m: "ensureCluster (e_cluster E) \<lparr>o_connstr = connstr_of client_options, o_username = username client_options,
      o_password = password client_options\<rparr> (bucket client_options) (snd s) = (None, m)"
    by (simp add: E_def handle_env_def example_env_def s_def ensureCluster_def shared_new_def)
  have mo: "owners m = Map.empty" using ensureCluster_maps(2) [of "e_cluster E" _ "bucket client_options" "snd s"] m
    by (metis new_maps(1) s_def snd_conv)
  have o': "HandleOptions_new (handle_json k) None (many_options 1 1) (JObj handle_fields) = Inr client_options"
    unfolding handle_json_def by code_simp
  define s2 where "s2 = open_handle (e_world E) client_options (of_int k) (fst s, m)"
  obtain e where e: "encode (handle_json k) (Response_new (handle_json k) (client_request (of_int k)) Error_new) = Inr e" "e \<noteq> []"
    and p: "processRequest E (client_request (of_int k)) s = Inr (True, (add_output (terminated e) (fst s2), snd s2))"
    using processRequest_opens [of E "client_request (of_int k)" s client_options m] m o' handle_json_object
    by (auto simp: s2_def s_def E_def handle_env_def example_env_def example_memory_def client_request_def Request_isValid_def
        Error_new_def is_error_def Command_of_code_def WorkerDispatch_new_def client_options_def HandleOptions_isValid_def)
  have eff: "handle_effect (fst s, m) s2" "w_conn (fst s2) = w_conn (fst s)" "cur_hid (fst s2) = of_int k"
    "cur_handle (fst s2) = Some client_options"
    unfolding s2_def using open_handle_effect [of "(fst s, m)" "e_world E" client_options "of_int k"]
    by (simp_all add: s_def WorkerDispatch_new_def)
  then have o2: "owners (snd s2) = [of_int k \<mapsto> 0]" "w_id (fst s2) = 0"
    using mo by (auto simp: handle_effect_def s_def WorkerDispatch_new_def)
  have l: "selectLoop E (SelectReady False False True) (WorkerDispatch_new 0 client_conn, shared_new) =
      Inr (True, (add_output (terminated e) (fst s2), snd s2))"
    using r p conn
    by (simp add: selectLoop_def setupFdSets_def WorkerDispatch_new_def worker_read_def E_def handle_env_def
        example_env_def example_memory_def s_def)
  show thesis
    by (rule that [OF l [unfolded E_def]])
      (use e eff o2 conn in \<open>simp_all add: s_def c_def\<close>)
qed

text \<open>The states of the history: accepted, opened, and the connection's end until the worker is collected.\<close>

definition example_main :: "int \<Rightarrow> jval main_env" where
  "example_main k = \<lparr>me_json = handle_json k, me_msg = field_request [], me_noPersist = False, me_lcblogFile = None,
     me_time = 0, me_popen = (\<lambda>_. None), me_urlbuf = []\<rparr>"

definition quiet_event :: main_event where
  "quiet_event = \<lparr>ev_alive1 = \<lambda>_. True, ev_alive2 = \<lambda>_. True, ev_error = None, ev_accept_exc = False,
     ev_control_exc = False, ev_control_write = False, ev_accept_read = False, ev_control_read = False,
     ev_newsock = None\<rparr>"

definition example_start :: "jval system" where
  "example_start = system_start (new_conn []) \<lparr>ttl_created = False, ttl_initialized = False, ttl_scheduled = None\<rparr>"

definition accepted :: "jval control" where
  "accepted = new_worker client_conn (sy_control example_start)"

lemma accepted_reachable: "reachable (handle_json k) \<lparr>sy_control = accepted, sy_phase = Dispatching\<rparr>"
proof -
  have "step (handle_json k) \<lparr>sy_control = sy_control example_start, sy_phase = Dispatching\<rparr>
      \<lparr>sy_control = accepted, sy_phase = Dispatching\<rparr>"
    by (rule step.main_round [where M = "example_main k" and ev = "quiet_event\<lparr>ev_accept_read := True, ev_newsock := Some client_conn\<rparr>"])
      (simp_all add: example_main_def truthful_def quiet_event_def loopOnce_def main_sockets_def setupFdSets_def
        collect_workers_def accepted_def example_start_def system_start_def MainDispatch_new_def new_conn_def)
  moreover have "reachable (handle_json k) example_start"
    unfolding example_start_def by (rule reachable_start)
  ultimately show ?thesis using reachable_step by (fastforce simp: example_start_def system_start_def)
qed

lemma accepted_fields:
  "c_heap accepted = [0 \<mapsto> \<lparr>ch_phase = Serving, ch_worker = WorkerDispatch_new 0 client_conn\<rparr>]"
  "c_shared accepted = shared_new" "c_children accepted = [0]"
  by (simp_all add: accepted_def new_worker_def example_start_def system_start_def MainDispatch_new_def)

lemma client_conn_fields [simp]:
  "sock_open client_conn" "outbuf client_conn = []" "wire client_conn = []" "inbuf client_conn = []"
  "sends client_conn = [Taken 4096]" "selects client_conn = [SelectError OtherError]"
  by (simp_all add: client_conn_def new_conn_def)

lemma opened_step:
  assumes "k \<in> {0, 7}"
  obtains s' e where "step (handle_json k) \<lparr>sy_control = accepted, sy_phase = Dispatching\<rparr>
      \<lparr>sy_control = put_worker 0 Serving s' accepted, sy_phase = Dispatching\<rparr>"
    and "cur_handle (fst s') \<noteq> None" and "cur_hid (fst s') = of_int k" and "owners (snd s') = [of_int k \<mapsto> 0]"
    and "encode (handle_json k) (Response_new (handle_json k) (client_request (of_int k)) Error_new) = Inr e"
    and "e \<noteq> []" and "w_conn (fst s') = client_conn\<lparr>incoming := [], outbuf := terminated e\<rparr>"
proof -
  obtain s' e where s': "selectLoop (handle_env k) (SelectReady False False True) (WorkerDispatch_new 0 client_conn, shared_new) = Inr (True, s')"
    "cur_handle (fst s') \<noteq> None" "cur_hid (fst s') = of_int k" "owners (snd s') = [of_int k \<mapsto> 0]"
    "encode (handle_json k) (Response_new (handle_json k) (client_request (of_int k)) Error_new) = Inr e"
    "e \<noteq> []" "w_conn (fst s') = client_conn\<lparr>incoming := [], outbuf := terminated e\<rparr>"
    using client_opens [OF assms] by blast
  have "step (handle_json k) \<lparr>sy_control = accepted, sy_phase = Dispatching\<rparr>
      \<lparr>sy_control = put_worker 0 (if True then Serving else Leaving) s' accepted, sy_phase = Dispatching\<rparr>"
    by (rule step.serve [where E = "handle_env k" and ev = "SelectReady False False True"
          and ch = "\<lparr>ch_phase = Serving, ch_worker = WorkerDispatch_new 0 client_conn\<rparr>"])
      (use s'(1) in \<open>simp_all add: accepted_fields handle_env_def\<close>)
  then show thesis using s' that by simp
qed

lemma opened_reachable:
  assumes "k \<in> {0, 7}"
  obtains s' where "reachable (handle_json k) \<lparr>sy_control = put_worker 0 Serving s' accepted, sy_phase = Dispatching\<rparr>"
    and "cur_handle (fst s') \<noteq> None" and "cur_hid (fst s') = of_int k" and "owners (snd s') = [of_int k \<mapsto> 0]"
    and "sock_open (w_conn (fst s'))" and "outbuf (w_conn (fst s')) \<noteq> []"
    and "selects (w_conn (fst s')) = [SelectError OtherError]"
proof -
  obtain s' e where s': "step (handle_json k) \<lparr>sy_control = accepted, sy_phase = Dispatching\<rparr>
      \<lparr>sy_control = put_worker 0 Serving s' accepted, sy_phase = Dispatching\<rparr>"
    "cur_handle (fst s') \<noteq> None" "cur_hid (fst s') = of_int k" "owners (snd s') = [of_int k \<mapsto> 0]"
    "e \<noteq> []" "w_conn (fst s') = client_conn\<lparr>incoming := [], outbuf := terminated e\<rparr>"
    using opened_step [OF assms] by blast
  then show thesis
    using that [of s'] reachable_step [OF accepted_reachable s'(1)] by (simp add: terminated_def)
qed

lemma owned_reachable:
  obtains s where "reachable (handle_json 7) s" and "owners (c_shared (sy_control s)) 7 = Some 0"
proof -
  obtain s1 where "reachable (handle_json 7) \<lparr>sy_control = put_worker 0 Serving s1 accepted, sy_phase = Dispatching\<rparr>"
    and "owners (snd s1) = [of_int 7 \<mapsto> 0]"
    using opened_reachable [of 7] by blast
  then show thesis
    by (intro that [of "\<lparr>sy_control = put_worker 0 Serving s1 accepted, sy_phase = Dispatching\<rparr>"])
      (simp_all add: put_worker_def)
qed

text \<open>Whatever the daemon does, the number zero keeps an owner once it has one.\<close>

lemma zero_stays_step: "step J s s' \<Longrightarrow> owners (c_shared (sy_control s)) 0 \<noteq> None \<Longrightarrow> owners (c_shared (sy_control s')) 0 \<noteq> None"
proof (induction rule: step_move_cases)
  case (moves c c' p p')
  have "owners (c_shared c') = owners (c_shared c)"
    using moves(1)
  proof (induction rule: rtranclp_induct)
    case (step c1 c2)
    then show ?case by (auto elim!: control_move.cases simp: quiet_def collect_workers_def collect_eq new_worker_def Let_def)
  qed simp
  with moves show ?case by simp
next
  case (serve E c d ch ev go s' p)
  have "handle_effect (ch_worker ch, c_shared c) s'" by (rule selectLoop_effect [OF serve(4)])
  with serve show ?case by (auto simp: handle_effect_def put_worker_def)
next
  case (leave c d ch s' p)
  with worker_end_effect(5) [OF leave(3)] show ?case by (auto simp: put_worker_def)
qed

lemma zero_stays:
  "(step J)\<^sup>*\<^sup>* s s' \<Longrightarrow> owners (c_shared (sy_control s)) 0 \<noteq> None \<Longrightarrow> owners (c_shared (sy_control s')) 0 \<noteq> None"
  by (induction rule: rtranclp_induct) (blast dest: zero_stays_step)+

lemma collected_reachable:
  obtains s0 c where "reachable (handle_json 0) s0" and "owners (c_shared (sy_control s0)) 0 \<noteq> None"
    and "(step (handle_json 0))\<^sup>*\<^sup>* s0 \<lparr>sy_control = c, sy_phase = Dispatching\<rparr>"
    and "owners (c_shared c) 0 = Some 0" and "c_heap c 0 = None"
proof -
  obtain s1 where s1: "reachable (handle_json 0) \<lparr>sy_control = put_worker 0 Serving s1 accepted, sy_phase = Dispatching\<rparr>"
    "cur_hid (fst s1) = of_int 0" "owners (snd s1) = [of_int 0 \<mapsto> 0]" "sock_open (w_conn (fst s1))" "outbuf (w_conn (fst s1)) \<noteq> []"
    "selects (w_conn (fst s1)) = [SelectError OtherError]"
    using opened_reachable [of 0] by blast
  define c1 where "c1 = put_worker 0 Serving s1 accepted"
  have c1: "c_heap c1 0 = Some \<lparr>ch_phase = Serving, ch_worker = fst s1\<rparr>" "c_shared c1 = snd s1" "c_children c1 = [0]"
    by (simp_all add: c1_def put_worker_def accepted_fields)
  define c2 where "c2 = put_worker 0 Leaving s1 c1"
  have l: "selectLoop (handle_env 0) (SelectFailed OtherError) s1 = Inr (False, s1)"
    using s1 by (simp add: selectLoop_def setupFdSets_def)
  have st1: "step (handle_json 0) \<lparr>sy_control = c1, sy_phase = Dispatching\<rparr>
      \<lparr>sy_control = put_worker 0 (if False then Serving else Leaving) s1 c1, sy_phase = Dispatching\<rparr>"
    by (rule step.serve [where E = "handle_env 0" and ev = "SelectFailed OtherError"
          and ch = "\<lparr>ch_phase = Serving, ch_worker = fst s1\<rparr>"])
      (use l c1 in \<open>simp_all add: handle_env_def\<close>)
  have c2: "c_heap c2 0 = Some \<lparr>ch_phase = Leaving, ch_worker = fst s1\<rparr>" "c_shared c2 = snd s1" "c_children c2 = [0]"
    by (simp_all add: c2_def put_worker_def c1)
  obtain s3 where s3: "worker_end s1 = Inr s3"
    using s1 by (auto simp: worker_end_def flushBufferBlock_def flush_block.simps split_beta)
  define c3 where "c3 = put_worker 0 Ended s3 c2"
  have st2: "step (handle_json 0) \<lparr>sy_control = c2, sy_phase = Dispatching\<rparr> \<lparr>sy_control = c3, sy_phase = Dispatching\<rparr>"
    unfolding c3_def by (rule step.leave [where ch = "\<lparr>ch_phase = Leaving, ch_worker = fst s1\<rparr>"]) (simp_all add: c2 s3)
  have c3: "c_heap c3 0 = Some \<lparr>ch_phase = Ended, ch_worker = fst s3\<rparr>" "owners (c_shared c3) = [0 \<mapsto> 0]" "c_children c3 = [0]"
    using worker_end_effect(5) [OF s3] s1 by (simp_all add: c3_def put_worker_def c2)
  define alive where "alive = (\<lambda>d :: nat. d \<noteq> 0)"
  have "truthful alive c3" unfolding truthful_def alive_def
  proof (intro allI impI notI)
    fix d ch
    assume "c_heap c3 d = Some ch \<and> ch_phase ch \<noteq> Ended" "d = 0"
    then show False using c3(1) by auto
  qed
  then have st3: "step (handle_json 0) \<lparr>sy_control = c3, sy_phase = Dispatching\<rparr>
      \<lparr>sy_control = collect_workers alive c3, sy_phase = Dispatching\<rparr>" by (rule step.main_collect)
  define s0 where "s0 = \<lparr>sy_control = c1, sy_phase = Dispatching\<rparr>"
  have "step (handle_json 0) s0 \<lparr>sy_control = c2, sy_phase = Dispatching\<rparr>"
    using st1 by (simp add: c2_def s0_def)
  with st2 st3 have "(step (handle_json 0))\<^sup>*\<^sup>* s0 \<lparr>sy_control = collect_workers alive c3, sy_phase = Dispatching\<rparr>"
    by (meson r_into_rtranclp rtranclp.rtrancl_into_rtrancl)
  moreover have "reachable (handle_json 0) s0" "owners (c_shared (sy_control s0)) 0 \<noteq> None"
    using s1 by (simp_all add: s0_def c1_def [symmetric] c1)
  moreover have "owners (c_shared (collect_workers alive c3)) 0 = Some 0" "c_heap (collect_workers alive c3) 0 = None"
    using c3 by (simp_all add: collect_workers_def collect_eq alive_def)
  ultimately show thesis using that by blast
qed

section \<open>Properties\<close>

text \<open>
  C7: the registry is sound in every reachable state: a handle number other than zero that is
  registered belongs to a worker object that exists, whose thread has not ended, that has an
  open handle, and whose handle has that number; two numbers never share a worker.
\<close>

theorem registry_sound:
  assumes "reachable J s" and "owners (c_shared (sy_control s)) k = Some d" and "k \<noteq> 0"
  shows "(\<exists>ch. c_heap (sy_control s) d = Some ch \<and> ch_phase ch \<noteq> Ended \<and>
      cur_handle (ch_worker ch) \<noteq> None \<and> cur_hid (ch_worker ch) = k) \<and>
    (\<forall>k'. owners (c_shared (sy_control s)) k' = Some d \<longrightarrow> k' \<noteq> 0 \<longrightarrow> k' = k)"
proof -
  note ok = reachable_ok [OF assms(1)]
  obtain ch where ch: "c_heap (sy_control s) d = Some ch" "cur_hid (ch_worker ch) = k"
    "cur_handle (ch_worker ch) \<noteq> None" "ch_phase ch \<noteq> Ended"
    using owner_serves [OF ok assms(2,3)] by blast
  then show ?thesis using worker_view(3) [OF ok ch(1)] by auto
qed

lemma registry_sound_witness:
  "\<exists>s ch. reachable (handle_json 7) s \<and> owners (c_shared (sy_control s)) 7 = Some 0 \<and>
     c_heap (sy_control s) 0 = Some ch \<and> cur_hid (ch_worker ch) = 7"
proof -
  obtain s where r: "reachable (handle_json 7) s" and w: "owners (c_shared (sy_control s)) 7 = Some 0"
    by (rule owned_reachable)
  have "(7 :: 64 word) \<noteq> 0" by simp
  with registry_sound [OF r w] r w show ?thesis by blast
qed

text \<open>
  C6: refinement. Every step of the daemon, whatever the interleaving, is a sequence of steps of
  the abstract registry - a worker is created, gets a number, gives it up, is deleted without
  one - and the abstract invariant holds before and after.
\<close>

theorem daemon_refines_registry:
  assumes "reachable J s" and "step J s s'"
  shows "astep\<^sup>*\<^sup>* (registry (sy_control s)) (registry (sy_control s')) \<and>
    registry_ok (registry (sy_control s)) \<and> registry_ok (registry (sy_control s'))"
proof -
  have ok: "system_ok (sy_control s)" using assms(1) by (rule reachable_ok)
  then have "system_ok (sy_control s')" "astep\<^sup>*\<^sup>* (registry (sy_control s)) (registry (sy_control s'))"
    using step_refines [OF assms(2)] by (simp_all add: refines_def)
  with ok registry_of_system show ?thesis by blast
qed

lemma daemon_refines_registry_witness:
  "\<exists>s s'. step (handle_json 7) s s' \<and> reachable (handle_json 7) s \<and>
     astep\<^sup>*\<^sup>* (registry (sy_control s)) (registry (sy_control s')) \<and> registry_ok (registry (sy_control s'))"
proof -
  define c where "c = collect_workers (\<lambda>_. True) accepted"
  have st: "step (handle_json 7) \<lparr>sy_control = accepted, sy_phase = Dispatching\<rparr> \<lparr>sy_control = c, sy_phase = Dispatching\<rparr>"
    unfolding c_def by (rule step.main_collect) (simp add: truthful_def)
  from daemon_refines_registry [OF accepted_reachable st] st accepted_reachable show ?thesis by blast
qed

text \<open>
  C17: cancelling a handle number other than zero never touches a deleted worker: either no worker
  has the number and the command is refused, or the flag of the worker that has it is set and
  the command succeeds. Nothing else of the workers changes.
\<close>

theorem cancel_reaches_owner:
  assumes "writer (me_json M)" and "reachable (me_json M) s" and "cmd_code (command req) = CANCEL"
    and "handle_id req \<noteq> 0"
  shows "case owners (c_shared (sy_control s)) (handle_id req) of
    None \<Rightarrow> (\<exists>e m. encode (me_json M) (Response_new (me_json M) req (Error_of SUBSYSf_SDKD SDKD_ENOHANDLE [])) = Inr e \<and>
      dispatchCommand M req (sy_control s) = Inr (True, control_output (terminated e) ((sy_control s)\<lparr>c_shared := m\<rparr>)))
  | Some d \<Rightarrow> (\<exists>e ch. encode (me_json M) (Response_new (me_json M) req (Error_of_code 0 [])) = Inr e \<and>
      c_heap (sy_control s) d = Some ch \<and> cur_hid (ch_worker ch) = handle_id req \<and>
      dispatchCommand M req (sy_control s) = Inr (True, control_output (terminated e)
        ((sy_control s)\<lparr>c_heap := (c_heap (sy_control s))(d \<mapsto>
           ch\<lparr>ch_worker := (ch_worker ch)\<lparr>w_io := (w_io (ch_worker ch))\<lparr>do_cancel := True\<rparr>\<rparr>\<rparr>)\<rparr>)))"
proof (cases "owners (c_shared (sy_control s)) (handle_id req)")
  case None
  obtain m where m: "h2wmap_at (handle_id req) (c_shared (sy_control s)) = (None, m)"
    using None owners_updates(4) [of "handle_id req" "c_shared (sy_control s)"]
    by (cases "h2wmap_at (handle_id req) (c_shared (sy_control s))") simp
  obtain e where "encode (me_json M) (Response_new (me_json M) req (Error_of SUBSYSf_SDKD SDKD_ENOHANDLE [])) = Inr e"
    "\<And>c. control_respond (me_json M) (Response_new (me_json M) req (Error_of SUBSYSf_SDKD SDKD_ENOHANDLE [])) c =
      Inr (control_output (terminated e) c)"
    using control_respond_ok [OF assms(1)] by blast
  with m None assms(3) show ?thesis by (auto simp: dispatchCommand_def dispatch_cancel_def)
next
  case (Some d)
  obtain ch where ch: "c_heap (sy_control s) d = Some ch" "cur_hid (ch_worker ch) = handle_id req"
    "cur_handle (ch_worker ch) \<noteq> None"
    using owner_serves [OF reachable_ok [OF assms(2)] Some assms(4)] by blast
  obtain e where "encode (me_json M) (Response_new (me_json M) req (Error_of_code 0 [])) = Inr e"
    "\<And>c. control_respond (me_json M) (Response_new (me_json M) req (Error_of_code 0 [])) c =
      Inr (control_output (terminated e) c)"
    using control_respond_ok [OF assms(1)] by blast
  with ch h2wmap_at_owner [OF Some] Some assms(3) show ?thesis
    by (simp add: dispatchCommand_def dispatch_cancel_def cancel_worker_def cancelCurrentHandle_sets)
qed

lemma cancel_reaches_owner_witness:
  "\<exists>s e ch c'. reachable (handle_json 7) s \<and>
     dispatchCommand (example_main 7) ((example_request CANCEL [])\<lparr>handle_id := 7\<rparr>) (sy_control s) =
       Inr (True, control_output (terminated e) c') \<and> c_heap c' 0 = Some ch \<and> do_cancel (w_io (ch_worker ch))"
proof -
  obtain s where r: "reachable (handle_json 7) s" and w: "owners (c_shared (sy_control s)) 7 = Some 0"
    by (rule owned_reachable)
  define req where "req = (example_request CANCEL [])\<lparr>handle_id := 7\<rparr>"
  have req: "cmd_code (command req) = CANCEL" "handle_id req = 7"
    by (simp_all add: req_def example_request_def Command_of_code_def)
  have j: "me_json (example_main 7) = handle_json 7" by (simp add: example_main_def)
  from cancel_reaches_owner [of "example_main 7" s req, unfolded j, OF handle_json_object r req(1)]
  obtain e ch where "dispatchCommand (example_main 7) req (sy_control s) = Inr (True, control_output (terminated e)
      ((sy_control s)\<lparr>c_heap := (c_heap (sy_control s))(0 \<mapsto>
         ch\<lparr>ch_worker := (ch_worker ch)\<lparr>w_io := (w_io (ch_worker ch))\<lparr>do_cancel := True\<rparr>\<rparr>\<rparr>)\<rparr>))"
    by (auto simp: req w)
  with r show ?thesis unfolding req_def by fastforce
qed

text \<open>
  C32: the handle number zero is registered like any other but never taken back: once it has an
  owner it has one after any further steps of the daemon, and in every state in which the worker it
  names was collected, cancelling zero uses the deleted object.
\<close>

theorem handle_zero_dangles:
  assumes "(step J)\<^sup>*\<^sup>* s s'" and "owners (c_shared (sy_control s)) 0 \<noteq> None"
  shows "\<exists>d. owners (c_shared (sy_control s')) 0 = Some d \<and>
    (c_heap (sy_control s') d = None \<longrightarrow>
      dispatchCommand M (req\<lparr>command := Command_of_code CANCEL, handle_id := 0\<rparr>) (sy_control s') = Inl BadAccess)"
proof -
  obtain d where d: "owners (c_shared (sy_control s')) 0 = Some d" using zero_stays [OF assms] by blast
  then show ?thesis
    using h2wmap_at_owner [OF d]
    by (simp add: dispatchCommand_def dispatch_cancel_def cancel_worker_def Command_of_code_def)
qed

lemma handle_zero_dangles_witness:
  "\<exists>s. reachable (handle_json 0) s \<and> c_heap (sy_control s) 0 = None \<and> owners (c_shared (sy_control s)) 0 = Some 0 \<and>
     dispatchCommand (example_main 0) (example_request MC_DS_GET []\<lparr>command := Command_of_code CANCEL, handle_id := 0\<rparr>)
       (sy_control s) = Inl BadAccess"
proof -
  obtain s0 c where r: "reachable (handle_json 0) s0" "owners (c_shared (sy_control s0)) 0 \<noteq> None"
    "(step (handle_json 0))\<^sup>*\<^sup>* s0 \<lparr>sy_control = c, sy_phase = Dispatching\<rparr>"
    and c: "owners (c_shared c) 0 = Some 0" "c_heap c 0 = None"
    by (rule collected_reachable)
  have "reachable (handle_json 0) \<lparr>sy_control = c, sy_phase = Dispatching\<rparr>"
    using r(3,1) by (induction rule: rtranclp_induct) (auto intro: reachable_step)
  with handle_zero_dangles [OF r(3,2), of "example_main 0" "example_request MC_DS_GET []"] c show ?thesis
    by (intro exI [of _ "\<lparr>sy_control = c, sy_phase = Dispatching\<rparr>"]) simp
qed

text \<open>
  No request registers a dataset. The command for a new dataset is always answered with the
  refusal that it must have an id, after a first refusal when its type is not known - two
  responses to one request - and nothing but the output changes.
\<close>

theorem new_dataset_refused:
  assumes "writer (me_json M)" and "cmd_code (command req) = NEWDATASET"
    and "determineType (me_json M) req [] = Inr (t, refid)" and "fromType (me_json M) t req = Inr ds"
  shows "\<exists>e1 e2. encode (me_json M) (invalid_dataset (me_json M) req) = Inr e1 \<and>
    encode (me_json M) (needs_id (me_json M) req) = Inr e2 \<and>
    dispatchCommand M req c = Inr (True, control_output
      ((if t = DSTYPE_INVALID then terminated e1 else []) @ terminated e2) c)"
proof -
  obtain e1 where e1: "encode (me_json M) (invalid_dataset (me_json M) req) = Inr e1"
    "\<And>c. control_respond (me_json M) (invalid_dataset (me_json M) req) c = Inr (control_output (terminated e1) c)"
    using control_respond_ok [OF assms(1)] by blast
  obtain e2 where e2: "encode (me_json M) (needs_id (me_json M) req) = Inr e2"
    "\<And>c. control_respond (me_json M) (needs_id (me_json M) req) c = Inr (control_output (terminated e2) c)"
    using control_respond_ok [OF assms(1)] by blast
  show ?thesis
    using e1 e2 assms(2) create_new_ds_eq [OF assms(3,4), of c]
    by (simp add: dispatchCommand_def control_output_def)
qed

lemma new_dataset_refused_witness:
  "\<exists>e1 e2. dispatchCommand (example_main 7) (example_request NEWDATASET []) accepted =
     Inr (True, control_output (terminated e1 @ terminated e2) accepted)"
proof -
  have j: "me_json (example_main 7) = handle_json 7" by (simp add: example_main_def)
  have "determineType (handle_json 7) (example_request NEWDATASET []) [] = Inr (DSTYPE_INVALID, [])"
    "fromType (handle_json 7) DSTYPE_INVALID (example_request NEWDATASET []) = Inr None"
    by code_simp+
  from new_dataset_refused [of "example_main 7", unfolded j, OF handle_json_object _ this]
  show ?thesis by (simp add: example_request_def Command_of_code_def) blast
qed

definition reference_fields :: "(string \<times> jval) list" where
  "reference_fields = [(''DSType'', JStr ''DSTYPE_REFERENCE''), (''DS'', JObj [(''ID'', JStr ''a'')])]"

text \<open>
  C34: a reference to a dataset never finds one: in every reachable state, whatever was sent to
  the control connection, a worker answers such a request with the error for a missing dataset.
\<close>

theorem reference_not_found:
  assumes "reachable (e_json E) s" and "writer (e_json E)"
    and "c_heap (sy_control s) d = Some ch" and "cur_handle (ch_worker ch) \<noteq> None"
    and "Request_isValid req" and "cmd_code (command req) \<notin> {CLOSEHANDLE, NEWHANDLE} \<union> set no_dataset_commands"
    and "determineType (e_json E) req [] = Inr (DSTYPE_REFERENCE, refid)"
  shows "\<exists>e m. encode (e_json E) (Response_new (e_json E) req (setString ''Couldn't find dataset''
      (setCode (SUBSYSf_SDKD OR SDKD_ENODS) Error_new))) = Inr e \<and>
    processRequest E req (ch_worker ch, c_shared (sy_control s)) =
      Inr (True, (add_output (terminated e) (ch_worker ch), m))"
proof -
  have "named (c_shared (sy_control s)) refid = None"
    using reachable_ok [OF assms(1)] by (simp add: system_ok_def)
  then obtain m where m: "dsmap_at refid (c_shared (sy_control s)) = (None, m)"
    using named_updates(5) [of refid "c_shared (sy_control s)"]
    by (cases "dsmap_at refid (c_shared (sy_control s))") simp
  define err where "err = setString ''Couldn't find dataset'' (setCode (SUBSYSf_SDKD OR SDKD_ENODS) Error_new)"
  have f: "find_dataset E req (c_shared (sy_control s)) = Inr (Inl err, m)"
    using assms(7) m by (simp add: find_dataset_def getDatasetById_def err_def)
  obtain h where h: "cur_handle (ch_worker ch) = Some h" using assms(4) by blast
  obtain e where "encode (e_json E) (Response_new (e_json E) req err) = Inr e"
    "respond (e_json E) (Response_new (e_json E) req err) (ch_worker ch, m) = Inr (add_output (terminated e) (ch_worker ch), m)"
    using respond_ok [OF assms(2), of "Response_new (e_json E) req err" "(ch_worker ch, m)"] by auto
  with f h assms(5,6) show ?thesis unfolding err_def [symmetric] by (simp add: processRequest_def Let_def)
qed

lemma reference_not_found_witness:
  "\<exists>s e m wk. reachable (handle_json 7) s \<and>
     processRequest (handle_env 7) (example_request MC_DS_GET reference_fields) (wk, c_shared (sy_control s)) =
       Inr (True, (add_output (terminated e) wk, m))"
proof -
  obtain s1 where r: "reachable (handle_json 7) \<lparr>sy_control = put_worker 0 Serving s1 accepted, sy_phase = Dispatching\<rparr>"
    and h: "cur_handle (fst s1) \<noteq> None"
    using opened_reachable [of 7] by blast
  have j: "e_json (handle_env 7) = handle_json 7" by (simp add: handle_env_def)
  have d: "determineType (handle_json 7) (example_request MC_DS_GET reference_fields) [] = Inr (DSTYPE_REFERENCE, ''a'')"
    by code_simp
  have "c_heap (put_worker 0 Serving s1 accepted) 0 = Some \<lparr>ch_phase = Serving, ch_worker = fst s1\<rparr>"
    by (simp add: put_worker_def)
  with reference_not_found [of "handle_env 7" _ 0 "\<lparr>ch_phase = Serving, ch_worker = fst s1\<rparr>", unfolded j,
      OF r handle_json_object _ _ _ _ d] h r
  show ?thesis by (force simp: no_dataset_commands_def)
qed

definition garbled :: "jval Message" where
  "garbled = \<lparr>reqid = 1, handle_id = 1, command = \<lparr>cmdstr = [], cmd_code = CB_AS_QUERY\<rparr>, payload = JNull,
     msg_err = Error_of SUBSYSf_SDKD SDKD_EINVAL ''* Line 1, Column 1''\<rparr>"

text \<open>
  A request on the control connection that is not valid is answered with its error and then
  used after it was deleted.
\<close>

theorem invalid_control_request_dangles:
  assumes "getRawMessage (c_conn c) = (IO_OK, line, x)" and "line \<noteq> []"
    and "Request_decode (me_json M) (me_msg M) line None True = Inr (Some req, e)" and "\<not> Request_isValid req"
    and "writer (me_json M)"
  shows "main_read M c = Inl BadAccess"
proof -
  have "json_object (me_json M)" using assms(5) by (simp add: writer_def)
  then obtain root where "response_root (me_json M) (Response_new (me_json M) req (msg_err req)) = Inr root"
    by (rule json_object.response_root_ok)
  moreover have "j_write (me_json M) root \<noteq> []" using assms(5) by (simp add: writer_def)
  ultimately have "\<exists>x'. writeResponse (me_json M) (Response_new (me_json M) req (msg_err req)) x = Inr x'"
    by (simp add: writeResponse_def encode_def)
  with assms show ?thesis by (auto simp: main_read_def readRequest_def)
qed

lemma invalid_control_request_dangles_witness:
  "main_read ((example_main 7)\<lparr>me_json := Jref\<rparr>) ((sy_control example_start)\<lparr>c_conn := client_conn\<rparr>) = Inl BadAccess"
proof -
  have j: "me_json ((example_main 7)\<lparr>me_json := Jref\<rparr>) = Jref" by simp
  have raw: "getRawMessage client_conn = (IO_OK, ''x'', client_conn\<lparr>incoming := []\<rparr>)" by code_simp
  have dec: "Request_decode Jref (field_request []) ''x'' None True = Inr (Some garbled, None)" "\<not> Request_isValid garbled"
    by code_simp+
  show ?thesis
    by (rule invalid_control_request_dangles [of _ "''x''" "client_conn\<lparr>incoming := []\<rparr>" _ garbled None])
      (use raw dec writer_Jref in \<open>simp_all add: example_main_def\<close>)
qed

text \<open>
  A signal that interrupts the control thread's \<open>select\<close> ends the daemon's loop: the sets are
  left as they were passed, the accepting socket is in the except set, and nothing is read,
  accepted or written.
\<close>

theorem interrupt_ends_loop:
  assumes "sock_open (c_conn c)" and "ev_error ev = Some Interrupted"
  shows "loopOnce M ev c = Inr (False, collect_workers (ev_alive2 ev) (collect_workers (ev_alive1 ev) c))"
  using assms by (simp add: loopOnce_def setupFdSets_def main_sockets_def)

lemma interrupt_ends_loop_witness:
  "loopOnce (example_main 7) (quiet_event\<lparr>ev_error := Some Interrupted\<rparr>) accepted = Inr (False, accepted)"
proof -
  have "sock_open (c_conn accepted)"
    by (simp add: accepted_def new_worker_def example_start_def system_start_def MainDispatch_new_def new_conn_def)
  then show ?thesis
    using interrupt_ends_loop [of accepted "quiet_event\<lparr>ev_error := Some Interrupted\<rparr>" "example_main 7"]
    by (simp add: quiet_event_def collect_workers_def collect_eq)
qed

text \<open>Which threads have not ended.\<close>

definition thread_lives :: "'j control \<Rightarrow> nat \<Rightarrow> bool" where
  "thread_lives c d \<longleftrightarrow> (case c_heap c d of Some ch \<Rightarrow> ch_phase ch \<noteq> Ended | None \<Rightarrow> False)"

text \<open>
  C33: shutdown. When running workers are reported alive and none takes a step in between, the
  destructor returns exactly if every worker has been reported gone in some round of its loop, the
  client calls back when the cluster is closed, and every thread of the client ends; every worker is
  deleted then. In all other cases it waits for ever, and never uses a deleted worker; it waits
  whenever a worker's thread has not ended: setting the flag of its handle does not wake a worker
  that waits for its connection.
\<close>

theorem shutdown:
  assumes "reachable J s" and "\<forall>alive \<in> set (de_rounds E). truthful alive (sy_control s)"
  shows "(if (\<forall>d \<in> set (c_children (sy_control s)). \<exists>alive \<in> set (de_rounds E). \<not> alive d) \<and>
        de_closed E \<and> (\<forall>ends \<in> set (de_io_ends E). ends)
      then \<exists>c'. MainDispatch_delete E fd (sy_control s) = Inr (if fd \<ge> 0 then -1 else fd, c') \<and>
        c_children c' = [] \<and> c_heap c' = Map.empty
      else MainDispatch_delete E fd (sy_control s) = Inl Running) \<and>
    ((\<exists>d. thread_lives (sy_control s) d) \<longrightarrow> MainDispatch_delete E fd (sy_control s) = Inl Running)"
proof -
  have kids: "set (c_children (sy_control s)) = dom (heap_view (c_heap (sy_control s)))"
    using reachable_ok [OF assms(1)] by (simp add: system_ok_def children_ok_def)
  have living: "\<not> (\<forall>d \<in> set (c_children (sy_control s)). \<exists>alive \<in> set (de_rounds E). \<not> alive d)"
    if "thread_lives (sy_control s) d" for d
  proof -
    obtain ch where "c_heap (sy_control s) d = Some ch" "ch_phase ch \<noteq> Ended"
      using \<open>thread_lives (sy_control s) d\<close> by (auto simp: thread_lives_def split: option.splits)
    then have "d \<in> set (c_children (sy_control s))" "\<forall>alive \<in> set (de_rounds E). alive d"
      using kids assms(2) by (auto simp: truthful_def heap_view_def)
    then show ?thesis by blast
  qed
  have empty: "h = Map.empty" if "heap_view h = Map.empty" for h using that by (auto simp: heap_view_def fun_eq_iff)
  show ?thesis
  proof (cases "(\<forall>d \<in> set (c_children (sy_control s)). \<exists>alive \<in> set (de_rounds E). \<not> alive d) \<and>
      de_closed E \<and> (\<forall>ends \<in> set (de_io_ends E). ends)")
    case True
    have "\<exists>c'. MainDispatch_delete E fd (sy_control s) = Inr (if fd \<ge> 0 then -1 else fd, c') \<and> c_children c' = [] \<and>
        heap_view (c_heap c') = Map.empty"
      using delete_result [OF kids, of E fd] by (simp only: if_P [OF True])
    with True living empty show ?thesis by (auto simp del: split_paired_Ex)
  next
    case False
    have "MainDispatch_delete E fd (sy_control s) = Inl Running"
      using delete_result [OF kids, of E fd] by (simp only: if_not_P [OF False])
    then show ?thesis by (simp only: if_not_P [OF False] simp_thms)
  qed
qed

lemma shutdown_witness:
  "MainDispatch_delete \<lparr>de_rounds = replicate 3 (\<lambda>_. True), de_closed = True, de_io_ends = replicate 4 True\<rparr> 5 accepted =
     Inl Running \<and>
   (\<exists>c'. MainDispatch_delete \<lparr>de_rounds = [], de_closed = True, de_io_ends = replicate 4 True\<rparr> 5 (sy_control example_start) =
     Inr (-1, c'))"
proof -
  have "thread_lives accepted 0" by (simp add: thread_lives_def accepted_fields)
  moreover have "truthful (\<lambda>_. True) accepted" by (simp add: truthful_def)
  moreover have "reachable (handle_json 7) example_start" by (simp add: example_start_def reachable_start)
  moreover have "c_children (sy_control example_start) = []"
    by (simp add: example_start_def system_start_def MainDispatch_new_def)
  ultimately show ?thesis
    using shutdown [OF accepted_reachable [of 7],
        of "\<lparr>de_rounds = replicate 3 (\<lambda>_. True), de_closed = True, de_io_ends = replicate 4 True\<rparr>" 5]
      shutdown [of "handle_json 7" example_start "\<lparr>de_rounds = [], de_closed = True, de_io_ends = replicate 4 True\<rparr>" 5]
    by auto
qed

text \<open>
  The time limit. A command with a positive number of seconds arms the timer for exactly that
  number, a negative or zero one disarms it, and one without a number leaves it and is refused.
\<close>

theorem ttl_command:
  assumes "writer (me_json M)" and "cmd_code (command req) = TTL"
    and "j_isMember (me_json M) (payload req) CBSDKD_MSGFLD_TTL_SECONDS = Some has"
    and "has \<Longrightarrow> jint (me_json M) (payload req) CBSDKD_MSGFLD_TTL_SECONDS = Inr secs" and "secs < 2 ^ 31"
  shows "\<exists>c' e. dispatchCommand M req c = Inr (True, control_output (terminated e) c') \<and>
    encode (me_json M) (Response_new (me_json M) req (if has then Error_of_code 0 [] else createInvalid ''Missing Seconds'')) = Inr e \<and>
    (if \<not> has then c' = c
     else if secs \<le> 0 then \<not> ttl_initialized (c_ttl c') \<and> (ttl_initialized (c_ttl c) \<longrightarrow> ttl_scheduled (c_ttl c') = None)
     else \<exists>w. ttl_scheduled (c_ttl c') = Some w \<and> uint w = secs)"
proof -
  obtain e where e: "encode (me_json M) (Response_new (me_json M) req (if has then Error_of_code 0 [] else createInvalid ''Missing Seconds'')) = Inr e"
    "\<And>c. control_respond (me_json M) (Response_new (me_json M) req (if has then Error_of_code 0 [] else createInvalid ''Missing Seconds'')) c =
      Inr (control_output (terminated e) c)"
    using control_respond_ok [OF assms(1)] by blast
  show ?thesis
  proof (cases has)
    case False
    with e assms(2,3) show ?thesis by (auto simp: dispatchCommand_def dispatch_ttl_def)
  next
    case True
    define n where "n = (if secs < 0 then 0 else secs)"
    define c' where "c' = c\<lparr>c_ttl := sdkd_set_ttl (word_of_int n) (c_ttl c)\<rparr>"
    have d: "dispatchCommand M req c = Inr (True, control_output (terminated e) c')"
      using e(2) assms(2,3) True assms(4) [OF True]
      by (simp add: dispatchCommand_def dispatch_ttl_def Let_def c'_def n_def)
    have u: "uint (word_of_int n :: 32 word) = n"
      using assms(5) by (simp add: n_def unsigned_of_int take_bit_int_eq_self)
    have z: "(word_of_int n :: 32 word) = 0 \<longleftrightarrow> secs \<le> 0"
    proof
      assume "(word_of_int n :: 32 word) = 0"
      then have "n = 0" using u by simp
      then show "secs \<le> 0" by (simp add: n_def split: if_splits)
    qed (simp add: n_def)
    show ?thesis using d e(1) True z u
      by (auto simp: c'_def sdkd_set_ttl_def Let_def n_def)
  qed
qed

lemma ttl_command_witness:
  "\<exists>c' e w. dispatchCommand (example_main 7) (example_request TTL [(''Seconds'', JInt 60)]) accepted =
     Inr (True, control_output (terminated e) c') \<and> ttl_scheduled (c_ttl c') = Some w \<and> uint w = 60"
proof -
  have j: "me_json (example_main 7) = handle_json 7" by (simp add: example_main_def)
  have q: "cmd_code (command (example_request TTL [(''Seconds'', JInt 60)])) = TTL"
    "j_isMember (handle_json 7) (payload (example_request TTL [(''Seconds'', JInt 60)])) ''Seconds'' = Some True"
    "jint (handle_json 7) (payload (example_request TTL [(''Seconds'', JInt 60)])) ''Seconds'' = Inr 60"
    by code_simp+
  from ttl_command [of "example_main 7" "example_request TTL [(''Seconds'', JInt 60)]" True 60 accepted, unfolded j,
      OF handle_json_object q(1,2)] q(3)
  show ?thesis by simp blast
qed

end
