(* ===== verification/Startup.thy ===== *)
theory Startup
  imports Control Json_Ref
begin

text \<open>
  Starting the daemon: the command line (\<open>src/Main.cpp\<close>), the listening socket
  (\<open>src/sockutil.c\<close>) and the sessions (\<open>src/Daemon.cpp\<close>). The parser of long options is a
  submodule and an argument; what the system calls return is an argument too.
\<close>

section \<open>Options\<close>

record DaemonOptions =
  lcblogFile :: "string option"
  debugLevel :: int
  debugColors :: int
  portFile :: "string option"
  isPersistent :: int
  initialTTL :: int
  portNumber :: "32 word"
  noPersist :: int

definition DaemonOptions_new :: DaemonOptions where
  "DaemonOptions_new = \<lparr>lcblogFile = None, debugLevel = 0, debugColors = 0, portFile = None, isPersistent = 0,
     initialTTL = 0, portNumber = 0, noPersist = 0\<rparr>"

text \<open>\<open>getline\<close> with a comma: the pieces of a string, where a last empty piece does not count.\<close>

fun getlines :: "string \<Rightarrow> string \<Rightarrow> string list" where
  "getlines cur [] = (if cur = [] then [] else [cur])"
| "getlines cur (c # cs) = (if c = CHR '','' then cur # getlines [] cs else getlines (cur @ [c]) cs)"

text \<open>One \<open>key=value\<close>. Without the sign the position is the largest number, and one more is 0.\<close>

definition kv_key :: "string \<Rightarrow> string" where
  "kv_key s = takeWhile (\<lambda>c. c \<noteq> CHR ''='') s"

definition kv_value :: "string \<Rightarrow> string" where
  "kv_value s = (if CHR ''='' \<in> set s then drop (length (kv_key s) + 1) s else s)"

definition opt_pairs :: "string list \<Rightarrow> string \<Rightarrow> string" where
  "opt_pairs args = foldl (\<lambda>m kv. m(kv_key kv := kv_value kv)) (\<lambda>_. []) (concat (map (getlines []) args))"

text \<open>\<open>parseLegacyArgs\<close> over the arguments after the program's name.\<close>

definition parseLegacyArgs :: "string list \<Rightarrow> DaemonOptions \<Rightarrow> bool \<times> DaemonOptions" where
  "parseLegacyArgs args u =
     (if opt_pairs args ''infofile'' = [] then (False, u)
      else (True, (u\<lparr>portFile := Some (c_string (opt_pairs args ''infofile''))\<rparr>)
        \<lparr>debugLevel := (if opt_pairs args ''debug'' \<noteq> [] then 2 else debugLevel u)\<rparr>))"

text \<open>
  \<open>parseCliOptions\<close>: the table of the options, each with the place its value goes to. The parser,
  a submodule, gives the values it stores, in order; a switch is the number it stores for it.
\<close>

datatype cli_type = CLIOPTS_ARGT_STRING | CLIOPTS_ARGT_INT | CLIOPTS_ARGT_UINT | CLIOPTS_ARGT_NONE

datatype cli_dest =
    To_lcblogFile | To_debugLevel | To_debugColors | To_portFile | To_portNumber
  | To_isPersistent | To_initialTTL | To_printVersion

datatype cli_value = CliString string | CliInt int | CliUint "32 word"

type_synonym cli_entry = "char option \<times> string \<times> cli_type \<times> cli_dest"

definition cliopts_entries :: "cli_entry list" where
  "cliopts_entries =
     [(Some CHR ''L'', ''lcb log file'', CLIOPTS_ARGT_STRING, To_lcblogFile),
      (Some CHR ''d'', ''debug'', CLIOPTS_ARGT_INT, To_debugLevel),
      (Some CHR ''c'', ''color'', CLIOPTS_ARGT_NONE, To_debugColors),
      (Some CHR ''f'', ''portfile'', CLIOPTS_ARGT_STRING, To_portFile),
      (Some CHR ''l'', ''listen'', CLIOPTS_ARGT_UINT, To_portNumber),
      (Some CHR ''P'', ''persist'', CLIOPTS_ARGT_NONE, To_isPersistent),
      (None, ''ttl'', CLIOPTS_ARGT_INT, To_initialTTL),
      (Some CHR ''V'', ''version'', CLIOPTS_ARGT_NONE, To_printVersion)]"

type_synonym cliopts = "cli_entry list \<Rightarrow> string list \<Rightarrow> (cli_dest \<times> cli_value) list"

fun store_option :: "cli_dest \<times> cli_value \<Rightarrow> DaemonOptions \<times> int \<Rightarrow> DaemonOptions \<times> int" where
  "store_option (To_lcblogFile, CliString s) (u, pv) = (u\<lparr>lcblogFile := Some s\<rparr>, pv)"
| "store_option (To_debugLevel, CliInt i) (u, pv) = (u\<lparr>debugLevel := i\<rparr>, pv)"
| "store_option (To_debugColors, CliInt i) (u, pv) = (u\<lparr>debugColors := i\<rparr>, pv)"
| "store_option (To_portFile, CliString s) (u, pv) = (u\<lparr>portFile := Some s\<rparr>, pv)"
| "store_option (To_portNumber, CliUint n) (u, pv) = (u\<lparr>portNumber := n\<rparr>, pv)"
| "store_option (To_isPersistent, CliInt i) (u, pv) = (u\<lparr>isPersistent := i\<rparr>, pv)"
| "store_option (To_initialTTL, CliInt i) (u, pv) = (u\<lparr>initialTTL := i\<rparr>, pv)"
| "store_option (To_printVersion, CliInt i) (u, pv) = (u, i)"
| "store_option _ (u, pv) = (u, pv)"

definition parseCliOptions :: "cliopts \<Rightarrow> string list \<Rightarrow> DaemonOptions \<times> int \<Rightarrow> bool \<times> DaemonOptions \<times> int" where
  "parseCliOptions cli args s = (True, fold store_option (cli cliopts_entries args) s)"

text \<open>\<open>Program\<close>: the options of the arguments after the program's name.\<close>

definition Program_new :: "cliopts \<Rightarrow> string list \<Rightarrow> DaemonOptions run" where
  "Program_new cli args =
     (if args = [] then Inl (Exited 1)
      else
        let (legacy, u) = parseLegacyArgs args DaemonOptions_new;
            (u', printVersion) = (if legacy then (u, 0) else snd (parseCliOptions cli args (u, 0)))
        in if printVersion \<noteq> 0 then Inl (Exited 0) else Inr u')"

section \<open>The listening socket\<close>

text \<open>Which of the calls of \<open>sdkd_start_listening\<close> succeed, and the descriptor that \<open>socket\<close> gives.\<close>

record listen_calls =
  ls_socket :: "int option"
  ls_setsockopt :: bool
  ls_bind :: bool
  ls_getsockname :: "32 word option"
  ls_listen :: bool

text \<open>The descriptor or -1, whether the socket was closed, and the port in the address.\<close>

definition sdkd_start_listening :: "listen_calls \<Rightarrow> 32 word \<Rightarrow> int \<times> bool \<times> 32 word" where
  "sdkd_start_listening ls port =
     (case ls_socket ls of
        None \<Rightarrow> (-1, False, port)
      | Some acceptfd \<Rightarrow>
          if \<not> ls_setsockopt ls then (-1, True, port)
          else if \<not> ls_bind ls then (-1, True, port)
          else (case ls_getsockname ls of
                  None \<Rightarrow> (-1, True, port)
                | Some port' \<Rightarrow> if \<not> ls_listen ls then (-1, True, port') else (acceptfd, False, port')))"

definition sdkd_make_socket_nonblocking :: "int option \<Rightarrow> (int \<Rightarrow> int) \<Rightarrow> int \<Rightarrow> bool \<Rightarrow> int" where
  "sdkd_make_socket_nonblocking getfl setfl O_NONBLOCK nonblocking =
     (case getfl of
        None \<Rightarrow> -1
      | Some existing \<Rightarrow> setfl (if nonblocking then or existing O_NONBLOCK else and existing (not O_NONBLOCK)))"

section \<open>The daemon\<close>

record Daemon =
  myOptions :: DaemonOptions
  listenPort :: "32 word"
  infoFp :: bool
  info_text :: string
  d_ttl :: ttl_timer

text \<open>
  The constructor; \<open>opens\<close> says whether the port file can be created. The logger takes a
  \<open>std::string\<close>, which cannot be made of a null pointer.
\<close>

definition Daemon_new :: "(string \<Rightarrow> bool) \<Rightarrow> ttl_timer \<Rightarrow> DaemonOptions \<Rightarrow> Daemon run" where
  "Daemon_new opens t o' =
     (if portFile o' = None \<and> portNumber o' = 0 then Inl (Exited 1)
      else
        rbind (case portFile o' of None \<Rightarrow> Inr False | Some f \<Rightarrow> if opens f then Inr True else Inl (Exited 0)) (\<lambda>fp.
        rbind (throws ''logic_error'' (lcblogFile o')) (\<lambda>_.
        Inr \<lparr>myOptions = o', listenPort = word_of_int (uint (portNumber o') mod 2 ^ 16), infoFp = fp, info_text = [],
              d_ttl = sdkd_set_ttl (word_of_int (initialTTL o')) (sdkd_init_timer t)\<rparr>)))"

text \<open>\<open>writePortInfo\<close>: the port is written once, then the file is closed.\<close>

definition writePortInfo :: "Daemon \<Rightarrow> Daemon" where
  "writePortInfo d =
     (if \<not> infoFp d then d
      else d\<lparr>info_text := info_text d @ nat_to_string (unat (listenPort d)) @ [newline], infoFp := False\<rparr>)"

text \<open>\<open>runServer\<close>, with the session itself as a function of the daemon.\<close>

definition runServer :: "listen_calls \<Rightarrow> (Daemon \<Rightarrow> Daemon run) \<Rightarrow> Daemon \<Rightarrow> Daemon run" where
  "runServer ls session d =
     (let (fd, _, port) = sdkd_start_listening ls (listenPort d); d1 = d\<lparr>listenPort := port\<rparr> in
      if fd = -1 then Inl (Exited 1) else session (writePortInfo d1))"

text \<open>\<open>run\<close>: one session, or sessions forever; one element of the list is one session's calls.\<close>

fun Daemon_run :: "listen_calls list \<Rightarrow> (Daemon \<Rightarrow> Daemon run) \<Rightarrow> Daemon \<Rightarrow> Daemon run" where
  "Daemon_run [] session d = Inl Running"
| "Daemon_run (ls # rest) session d =
     rbind (runServer ls session d) (\<lambda>d'.
     if isPersistent (myOptions d') \<noteq> 0 then Daemon_run rest session d' else Inr d')"

section \<open>Lemmas\<close>

text \<open>A socket that was opened is returned or closed, never both and never neither.\<close>

lemma listening_socket:
  assumes "ls_socket ls = Some fd" and "0 \<le> fd" and "sdkd_start_listening ls port = (r, was_closed, port')"
  shows "was_closed \<longleftrightarrow> r = -1" and "r = -1 \<or> r = fd"
  using assms by (auto simp: sdkd_start_listening_def split: if_splits option.splits)

text \<open>Parsing what a caller writes: one argument of pairs joined by commas.\<close>

definition pair_ok :: "string \<times> string \<Rightarrow> bool" where
  "pair_ok p \<longleftrightarrow> CHR '','' \<notin> set (fst p) \<union> set (snd p) \<and> CHR ''='' \<notin> set (fst p)"

definition pair_text :: "string \<times> string \<Rightarrow> string" where
  "pair_text p = fst p @ ''='' @ snd p"

lemma kv_pair_text: "pair_ok p \<Longrightarrow> kv_key (pair_text p) = fst p \<and> kv_value (pair_text p) = snd p"
proof -
  assume "pair_ok p"
  then have "takeWhile (\<lambda>c. c \<noteq> CHR ''='') (fst p) = fst p" by (simp add: pair_ok_def takeWhile_eq_all_conv) blast
  moreover have "\<forall>c \<in> set (fst p). c \<noteq> CHR ''=''" using \<open>pair_ok p\<close> by (auto simp: pair_ok_def)
  ultimately show ?thesis by (simp add: kv_key_def kv_value_def pair_text_def takeWhile_append)
qed

lemma getlines_piece: "CHR '','' \<notin> set s \<Longrightarrow> getlines cur (s @ t) = getlines (cur @ s) t"
  by (induction s arbitrary: cur) auto

lemma getlines_commas:
  "\<forall>p \<in> set kvs. pair_ok p \<Longrightarrow> getlines [] (commas (map pair_text kvs)) = map pair_text kvs"
proof (induction kvs rule: induct_list012)
  case (2 p)
  then have "CHR '','' \<notin> set (pair_text p)" by (auto simp: pair_ok_def pair_text_def)
  from getlines_piece [OF this, of "[]" "[]"] show ?case by (simp add: pair_text_def)
next
  case (3 p q kvs)
  then have "CHR '','' \<notin> set (pair_text p)" by (auto simp: pair_ok_def pair_text_def)
  from getlines_piece [OF this, of "[]"] 3 show ?case by simp
qed simp

lemma foldl_pairs:
  "\<forall>p \<in> set kvs. pair_ok p \<Longrightarrow>
    foldl (\<lambda>m kv. m(kv_key kv := kv_value kv)) f (map pair_text kvs) =
      (\<lambda>k. case map_of (rev kvs) k of None \<Rightarrow> f k | Some v \<Rightarrow> v)"
proof (induction kvs rule: rev_induct)
  case (snoc p kvs)
  then show ?case using kv_pair_text [of p] by (auto simp: fun_eq_iff split: option.splits)
qed simp

section \<open>Properties\<close>

text \<open>
  The legacy arguments are read back: from pairs written as \<open>key=value\<close> and joined by commas the
  parser finds for each key the value of its last pair, and nothing for any other key.
\<close>

theorem legacy_args_roundtrip:
  assumes "\<forall>p \<in> set kvs. pair_ok p"
  shows "opt_pairs [commas (map pair_text kvs)] k = (case map_of (rev kvs) k of None \<Rightarrow> [] | Some v \<Rightarrow> v)"
  using getlines_commas [OF assms] foldl_pairs [OF assms, of "\<lambda>_. []"] by (simp add: opt_pairs_def)

lemma legacy_args_roundtrip_witness:
  "opt_pairs [''infofile=a,debug=1,infofile=b=c''] ''infofile'' = ''b=c''"
  using legacy_args_roundtrip [of "[(''infofile'', ''a''), (''debug'', ''1''), (''infofile'', ''b=c'')]" "''infofile''"]
  by (simp add: pair_ok_def pair_text_def)

text \<open>
  The daemon does not start with the arguments its usage message names: they set a port file
  but no log file, so the daemon exits when the port file cannot be opened, and making a string
  of the null log file throws when it can.
\<close>

theorem legacy_start_throws:
  assumes "opt_pairs args ''infofile'' \<noteq> []"
  shows "\<exists>u. Program_new cli args = Inr u \<and> portFile u = Some (c_string (opt_pairs args ''infofile'')) \<and>
    Daemon_new opens t u = (if opens (c_string (opt_pairs args ''infofile'')) then Inl (Uncaught ''logic_error'')
      else Inl (Exited 0))"
proof -
  have "args \<noteq> []" using assms by (auto simp: opt_pairs_def)
  with assms show ?thesis
    by (simp add: Program_new_def parseLegacyArgs_def Daemon_new_def DaemonOptions_new_def)
qed

lemma legacy_start_throws_witness:
  "\<exists>u. Program_new cli [''infofile=port''] = Inr u \<and> Daemon_new (\<lambda>_. True) t u = Inl (Uncaught ''logic_error'')"
proof -
  have "opt_pairs [''infofile=port''] ''infofile'' \<noteq> []" by code_simp
  from legacy_start_throws [OF this, of cli "\<lambda>_. True" t] show ?thesis by auto
qed

text \<open>
  Without legacy arguments, and with no option for a port file or a port number other than 0, the
  daemon does not start either.
\<close>

lemma store_option_ports:
  assumes "To_portFile \<notin> fst ` set ovs" and "\<And>n. (To_portNumber, CliUint n) \<in> set ovs \<Longrightarrow> n = 0"
    and "portFile u = None" and "portNumber u = 0"
  shows "portFile (fst (fold store_option ovs (u, pv))) = None \<and> portNumber (fst (fold store_option ovs (u, pv))) = 0"
  using assms
proof (induction ovs arbitrary: u pv)
  case (Cons ov ovs)
  have "portFile (fst (store_option ov (u, pv))) = None \<and> portNumber (fst (store_option ov (u, pv))) = 0"
    using Cons.prems by (cases ov rule: prod.exhaust; cases "fst ov"; cases "snd ov") auto
  then show ?case using Cons.IH [of "fst (store_option ov (u, pv))" "snd (store_option ov (u, pv))"] Cons.prems
    by simp
qed simp

lemma start_needs_port:
  assumes "opt_pairs args ''infofile'' = []" and "Program_new cli args = Inr u"
    and "To_portFile \<notin> fst ` set (cli cliopts_entries args)"
    and "\<And>n. (To_portNumber, CliUint n) \<in> set (cli cliopts_entries args) \<Longrightarrow> n = 0"
  shows "Daemon_new opens t u = Inl (Exited 1)"
proof -
  have "u = fst (fold store_option (cli cliopts_entries args) (DaemonOptions_new, 0))"
    using assms(1,2)
    by (auto simp: Program_new_def parseLegacyArgs_def parseCliOptions_def Let_def split: if_splits prod.splits)
  then show ?thesis
    using store_option_ports [OF assms(3,4), of DaemonOptions_new 0]
    by (simp add: Daemon_new_def DaemonOptions_new_def)
qed

end
