(* ===== verification/Logging.thy ===== *)
theory Logging
  imports Json
begin

text \<open>
  The logging routines the daemon carries with it (\<open>src/contrib/debug.c\<close>, \<open>debug.h\<close> and
  \<open>debug++.h\<close>): reading the level from the environment, the line of one message, the context
  object, and the hex dump. The formatted text of a message is an argument.
\<close>

section \<open>Levels\<close>

datatype loglevel = LOGLVL_ALL | LOGLVL_TRACE | LOGLVL_DEBUG | LOGLVL_INFO | LOGLVL_WARN | LOGLVL_ERROR
  | LOGLVL_CRIT | LOGLVL_NONE

primrec level_int :: "loglevel \<Rightarrow> int" where
  "level_int LOGLVL_ALL = 0"
| "level_int LOGLVL_TRACE = 1"
| "level_int LOGLVL_DEBUG = 2"
| "level_int LOGLVL_INFO = 3"
| "level_int LOGLVL_WARN = 4"
| "level_int LOGLVL_ERROR = 5"
| "level_int LOGLVL_CRIT = 6"
| "level_int LOGLVL_NONE = 7"

definition LOGLVL_MAX :: int where
  "LOGLVL_MAX = level_int LOGLVL_CRIT"

text \<open>The level is an enumeration, but an integer is stored into it unchecked.\<close>

record debug_st =
  dbg_prefix :: string
  dbg_level :: int
  dbg_color :: bool
  dbg_initialized :: bool

section \<open>The environment\<close>

text \<open>\<open>sscanf("%d")\<close>: white space, a sign, digits.\<close>

definition scan_int :: "string \<Rightarrow> int option" where
  "scan_int s =
     (let t = dropWhile is_space s;
          (neg, u) = (case t of c # cs \<Rightarrow> if c = CHR ''-'' then (True, cs) else if c = CHR ''+'' then (False, cs) else (False, t)
                      | [] \<Rightarrow> (False, []));
          ds = takeWhile is_digit u
      in if ds = [] then None else Some (if neg then - int (dec_value ds) else int (dec_value ds)))"

definition cbsdkd_init_logging :: "(string \<Rightarrow> string option) \<Rightarrow> debug_st \<Rightarrow> debug_st" where
  "cbsdkd_init_logging env d =
     (let d1 = d\<lparr>dbg_initialized := True\<rparr> in
      case env ''CBSDKD_DEBUG'' of
        None \<Rightarrow> d1\<lparr>dbg_level := level_int LOGLVL_WARN\<rparr>
      | Some tmp_env \<Rightarrow>
          let d2 = (case scan_int tmp_env of
                      Some max_level \<Rightarrow>
                        let my_level = LOGLVL_MAX - max_level
                        in d1\<lparr>dbg_level := (if my_level \<le> 0 then level_int LOGLVL_ALL else my_level)\<rparr>
                    | None \<Rightarrow> d1\<lparr>dbg_level := level_int LOGLVL_WARN\<rparr>)
          in d2\<lparr>dbg_color := (env ''CBSDKD_DEBUG_COLORS'' \<noteq> None)\<rparr>)"

section \<open>One message\<close>

definition escape :: "string \<Rightarrow> string" where
  "escape s = CHR 0x1B # CHR ''['' # s"

definition line_color :: "loglevel \<Rightarrow> string option" where
  "line_color l =
     (if l \<in> {LOGLVL_CRIT, LOGLVL_ERROR} then Some (escape ''1;31m'')
      else if l = LOGLVL_WARN then Some (escape ''33m'')
      else if l \<in> {LOGLVL_DEBUG, LOGLVL_TRACE} then Some (escape ''2;37m'')
      else None)"

text \<open>What \<open>cbsdkd_logger\<close> prints for the text \<open>body\<close>.\<close>

definition cbsdkd_logger :: "debug_st \<Rightarrow> loglevel \<Rightarrow> nat \<Rightarrow> string \<Rightarrow> string \<Rightarrow> string" where
  "cbsdkd_logger d l line fn body =
     (if dbg_level d > level_int l then []
      else
        let reset_fmt = (if dbg_color d then escape ''0m'' else []);
            title_fmt = (if dbg_color d \<and> line_color l \<noteq> None then escape ''95m'' else []);
            line_fmt = (if dbg_color d then (case line_color l of Some f \<Rightarrow> f | None \<Rightarrow> []) else [])
        in ''['' @ title_fmt @ dbg_prefix d @ reset_fmt @ ''] '' @ line_fmt @ fn @ '':'' @ nat_to_string line @ '' '' @
           body @ reset_fmt @ [CHR 0x0A])"

text \<open>The constructor of \<open>DebugContext\<close>, with the default level, and \<open>setLogPrefix\<close>.\<close>

definition DebugContext_new :: "(string \<Rightarrow> string option) \<Rightarrow> debug_st" where
  "DebugContext_new env =
     (cbsdkd_init_logging env \<lparr>dbg_prefix = [], dbg_level = 0, dbg_color = False, dbg_initialized = False\<rparr>)
       \<lparr>dbg_color := True, dbg_level := level_int LOGLVL_WARN, dbg_initialized := True, dbg_prefix := ''CBSDKD''\<rparr>"

definition setLogPrefix :: "string \<Rightarrow> debug_st \<Rightarrow> debug_st" where
  "setLogPrefix p d = d\<lparr>dbg_prefix := c_string p\<rparr>"

text \<open>\<open>std::string(cbsdkd__debugctx.prefix)\<close>.\<close>

definition getLogPrefix :: "debug_st \<Rightarrow> string" where
  "getLogPrefix d = c_string (dbg_prefix d)"

section \<open>The macros\<close>

text \<open>
  One group of macros for each level. Each passes its level, the line and the function on; the
  context \<open>ctx\<close> is the one named, the object's own (\<open>log_\<close>) or the global one (\<open>log_noctx_\<close>).
\<close>

definition cbsdkd_log_trace :: "debug_st \<Rightarrow> nat \<Rightarrow> string \<Rightarrow> string \<Rightarrow> string" where
  "cbsdkd_log_trace ctx line fn body = cbsdkd_logger ctx LOGLVL_TRACE line fn body"

definition cbsdkd_log_info :: "debug_st \<Rightarrow> nat \<Rightarrow> string \<Rightarrow> string \<Rightarrow> string" where
  "cbsdkd_log_info ctx line fn body = cbsdkd_logger ctx LOGLVL_INFO line fn body"

definition cbsdkd_log_debug :: "debug_st \<Rightarrow> nat \<Rightarrow> string \<Rightarrow> string \<Rightarrow> string" where
  "cbsdkd_log_debug ctx line fn body = cbsdkd_logger ctx LOGLVL_DEBUG line fn body"

definition cbsdkd_log_warn :: "debug_st \<Rightarrow> nat \<Rightarrow> string \<Rightarrow> string \<Rightarrow> string" where
  "cbsdkd_log_warn ctx line fn body = cbsdkd_logger ctx LOGLVL_WARN line fn body"

definition cbsdkd_log_error :: "debug_st \<Rightarrow> nat \<Rightarrow> string \<Rightarrow> string \<Rightarrow> string" where
  "cbsdkd_log_error ctx line fn body = cbsdkd_logger ctx LOGLVL_ERROR line fn body"

definition cbsdkd_log_crit :: "debug_st \<Rightarrow> nat \<Rightarrow> string \<Rightarrow> string \<Rightarrow> string" where
  "cbsdkd_log_crit ctx line fn body = cbsdkd_logger ctx LOGLVL_CRIT line fn body"

lemmas log_macro_defs = cbsdkd_log_trace_def cbsdkd_log_info_def cbsdkd_log_debug_def cbsdkd_log_warn_def
  cbsdkd_log_error_def cbsdkd_log_crit_def

section \<open>The hex dump\<close>

definition hex_digit :: "nat \<Rightarrow> nat \<Rightarrow> char" where
  "hex_digit a n = (if n < 10 then char_of (48 + n) else char_of (a + (n - 10)))"

text \<open>The digits of a number in base 16, without leading zeros, with letters from the code \<open>a\<close> on.\<close>

fun hex_digits :: "nat \<Rightarrow> nat \<Rightarrow> string" where
  "hex_digits a n = (if n < 16 then [hex_digit a n] else hex_digits a (n div 16) @ [hex_digit a (n mod 16)])"

declare hex_digits.simps [simp del]

definition zero_pad :: "nat \<Rightarrow> string \<Rightarrow> string" where
  "zero_pad w s = replicate (w - length s) (CHR ''0'') @ s"

definition is_alnum :: "nat \<Rightarrow> bool" where
  "is_alnum b \<longleftrightarrow> 48 \<le> b \<and> b \<le> 57 \<or> 65 \<le> b \<and> b \<le> 90 \<or> 97 \<le> b \<and> b \<le> 122"

text \<open>\<open>strncat\<close> into a buffer of \<open>cap\<close> characters.\<close>

definition cat_n :: "nat \<Rightarrow> string \<Rightarrow> string \<Rightarrow> string" where
  "cat_n cap s t = s @ take (cap - length s - 1) t"

definition hex_line :: "string \<Rightarrow> string \<Rightarrow> string \<Rightarrow> string" where
  "hex_line addr hex chars =
     (let a = take 4 addr; h = take 50 hex
      in ''['' @ replicate (4 - length a) (CHR '' '') @ a @ '']   '' @ h @ replicate (50 - length h) (CHR '' '') @ ''  '' @
         chars @ [CHR 0x0A])"

text \<open>What a byte adds to the address of its line, to the hex digits and to the characters.\<close>

definition next_addr :: "nat \<Rightarrow> string \<Rightarrow> string" where
  "next_addr n addrstr = (if n mod 16 = 1 then take 9 (zero_pad 4 (hex_digits 97 (n - 1))) else addrstr)"

definition next_hex :: "nat \<Rightarrow> string \<Rightarrow> string" where
  "next_hex p hexstr = cat_n 53 hexstr (zero_pad 2 (hex_digits 65 p) @ '' '')"

definition next_chars :: "nat \<Rightarrow> string \<Rightarrow> string" where
  "next_chars p charstr = cat_n 21 charstr [if is_alnum p then char_of p else CHR ''.'']"

text \<open>
  The loop at the byte number \<open>n\<close>, with the three strings: the lines printed to the standard
  output, and the three strings at the end.
\<close>

fun hex_loop :: "nat \<Rightarrow> nat list \<Rightarrow> string \<times> string \<times> string \<Rightarrow> string list \<times> (string \<times> string \<times> string)" where
  "hex_loop n [] st = ([], st)"
| "hex_loop n (p # ps) (addrstr, hexstr, charstr) =
     (if n mod 16 = 0
      then let (ls, st) = hex_loop (n + 1) ps (next_addr n addrstr, [], [])
           in (hex_line (next_addr n addrstr) (next_hex p hexstr) (next_chars p charstr) # ls, st)
      else hex_loop (n + 1) ps (next_addr n addrstr,
             if n mod 8 = 0 then cat_n 53 (next_hex p hexstr) ''  '' else next_hex p hexstr,
             if n mod 8 = 0 then cat_n 21 (next_chars p charstr) '' '' else next_chars p charstr))"

text \<open>What goes to the standard output, and what goes to the standard error.\<close>

definition cbsdkd_hex_dump :: "nat list \<Rightarrow> string list \<times> string list" where
  "cbsdkd_hex_dump bytes =
     (let (ls, (addrstr, hexstr, charstr)) = hex_loop 1 bytes ([], [], [])
      in (ls, if length hexstr > 0 then [hex_line addrstr hexstr charstr] else []))"

section \<open>Lemmas\<close>

text \<open>A message is printed when its level is at least the one of the context.\<close>

lemma logger_prints: "cbsdkd_logger d l line fn body \<noteq> [] \<longleftrightarrow> dbg_level d \<le> level_int l"
  by (simp add: cbsdkd_logger_def Let_def)

text \<open>The environment has no effect: the constructor overwrites what was read from it.\<close>

lemma debug_environment_ignored: "DebugContext_new env = DebugContext_new env'"
  by (simp add: DebugContext_new_def cbsdkd_init_logging_def Let_def split: option.splits)

text \<open>So a new context prints warnings and what is above them, and no debugging, whatever the environment says.\<close>

lemma default_log_levels:
  "cbsdkd_log_trace (DebugContext_new env) line fn body = []"
  "cbsdkd_log_debug (DebugContext_new env) line fn body = []"
  "cbsdkd_log_info (DebugContext_new env) line fn body = []"
  "cbsdkd_log_warn (DebugContext_new env) line fn body \<noteq> []"
  "cbsdkd_log_error (DebugContext_new env) line fn body \<noteq> []"
  "cbsdkd_log_crit (DebugContext_new env) line fn body \<noteq> []"
  by (simp_all add: log_macro_defs DebugContext_new_def cbsdkd_logger_def Let_def)

text \<open>The prefix that is read back is the one that was set, up to its first null character.\<close>

lemma log_prefix_roundtrip: "getLogPrefix (setLogPrefix p d) = c_string p"
  by (simp add: getLogPrefix_def setLogPrefix_def c_string_def takeWhile_idem)

text \<open>The value -1, documented to enable every level, gives a level above all of them.\<close>

lemma debug_minus_one_disables:
  assumes "env ''CBSDKD_DEBUG'' = Some ''-1''"
  shows "dbg_level (cbsdkd_init_logging env d) = level_int LOGLVL_NONE"
proof -
  have "scan_int ''-1'' = Some (-1)" by code_simp
  with assms show ?thesis by (simp add: cbsdkd_init_logging_def Let_def LOGLVL_MAX_def)
qed

lemma debug_minus_one_disables_witness:
  "cbsdkd_logger (cbsdkd_init_logging (\<lambda>k. if k = ''CBSDKD_DEBUG'' then Some ''-1'' else None) d) LOGLVL_CRIT 1 ''f'' ''x'' = []"
  using debug_minus_one_disables [of "\<lambda>k. if k = ''CBSDKD_DEBUG'' then Some ''-1'' else None" d]
  by (simp add: cbsdkd_logger_def)

lemma cat_n_nonempty: "1 < cap \<Longrightarrow> s \<noteq> [] \<or> t \<noteq> [] \<Longrightarrow> cat_n cap s t \<noteq> []"
  by (cases "s = []") (auto simp: cat_n_def)

lemma hex_loop_lines:
  assumes "hex_loop n ps (a, h, c) = (ls, (a', h', c'))" and "0 < n" and "h = [] \<longleftrightarrow> (n - 1) mod 16 = 0"
  shows "length ls = (n - 1 + length ps) div 16 - (n - 1) div 16 \<and> (h' = [] \<longleftrightarrow> (n - 1 + length ps) mod 16 = 0)"
  using assms
proof (induction ps arbitrary: n a h c ls)
  case Nil
  then show ?case by simp
next
  case (Cons p ps)
  have hex: "next_hex p h \<noteq> []" by (simp add: next_hex_def cat_n_nonempty)
  show ?case
  proof (cases "n mod 16 = 0")
    case True
    with Cons.prems(1) obtain ls1 where ls: "hex_loop (n + 1) ps (next_addr n a, [], []) = (ls1, (a', h', c'))" "length ls = Suc (length ls1)"
      by (auto split: prod.splits)
    obtain m where n: "n = 16 * m" "0 < m" using True Cons.prems(2) by auto
    then obtain j where m: "m = Suc j" by (cases m) auto
    have "(n - 1) div 16 = j" "n div 16 = Suc j" using n m by simp_all
    moreover have "Suc ((n + length ps) div 16 - Suc j) = (n + length ps) div 16 - j"
      using n m by (simp add: Suc_diff_Suc)
    ultimately show ?thesis using Cons.IH [OF ls(1)] True ls(2) Cons.prems(2) by simp
  next
    case False
    define hex' where "hex' = (if n mod 8 = 0 then cat_n 53 (next_hex p h) ''  '' else next_hex p h)"
    define chars' where "chars' = (if n mod 8 = 0 then cat_n 21 (next_chars p c) '' '' else next_chars p c)"
    from False Cons.prems(1) have ls: "hex_loop (n + 1) ps (next_addr n a, hex', chars') = (ls, (a', h', c'))"
      by (simp add: hex'_def chars'_def)
    have "hex' \<noteq> []" using hex by (simp add: hex'_def cat_n_nonempty)
    moreover have "(n - 1) div 16 = n div 16"
    proof -
      obtain k where k: "n = Suc k" using Cons.prems(2) by (cases n) auto
      have "Suc k mod 16 \<noteq> 0" using False k by simp
      then have "Suc k div 16 = k div 16" by (simp add: div_Suc)
      with k show ?thesis by simp
    qed
    ultimately show ?thesis using Cons.IH [OF ls] False Cons.prems(2) by simp
  qed
qed

text \<open>
  The dump of any number of bytes prints one line for each 16 of them; a last partial line
  is printed too, but to the standard error.
\<close>

theorem hex_dump_lines:
  "length (fst (cbsdkd_hex_dump bytes)) = length bytes div 16 \<and>
   length (snd (cbsdkd_hex_dump bytes)) = (if length bytes mod 16 = 0 then 0 else 1)"
proof -
  obtain ls a h c where l: "hex_loop 1 bytes ([], [], []) = (ls, (a, h, c))" by (cases "hex_loop 1 bytes ([], [], [])") auto
  from hex_loop_lines [OF l] show ?thesis using l by (auto simp: cbsdkd_hex_dump_def)
qed

end
