(* ===== verification/Sessions.thy ===== *)
theory Sessions
  imports Startup Logging
begin

text \<open>
  The process around the sessions: \<open>main\<close> with its process number file (\<open>src/Main.cpp\<close>), the log file
  of the cluster client (\<open>src/logging.cpp\<close>), the debug settings and the sequence of sessions
  (\<open>src/Daemon.cpp\<close>), and how the control connection is accepted (\<open>MainDispatch::run\<close> in
  \<open>src/Control.cpp\<close>).
\<close>

section \<open>Logs\<close>

text \<open>
  The file the client's logger writes to, once it is initialised; \<open>now\<close> is the count of ticks of the
  steady clock, which makes the name of each run's file its own.
\<close>

type_synonym logger = "string option"

definition create_logger :: "string \<Rightarrow> nat \<Rightarrow> logger \<Rightarrow> logger" where
  "create_logger path now lg = (if lg = None then Some (path @ ''.'' @ nat_to_string now) else lg)"

definition destroy_logger :: "logger \<Rightarrow> logger" where
  "destroy_logger lg = (if lg \<noteq> None then None else lg)"

definition initDebugSettings :: "DaemonOptions \<Rightarrow> debug_st \<Rightarrow> debug_st" where
  "initDebugSettings o' d =
     d\<lparr>dbg_level := debugLevel o', dbg_color := (debugColors o' \<noteq> 0), dbg_initialized := True,
       dbg_prefix := ''cbskd-test''\<rparr>"

section \<open>The process\<close>

text \<open>
  What the process leaves outside its sockets: the text of the file with its number, the client's
  logger, the global debug settings and the port file, by name, when there is one.
\<close>

record process =
  p_pid_file :: "string option"
  p_logger :: logger
  p_debug :: debug_st
  p_port_file :: "string option"

text \<open>
  The constructor of \<open>Daemon\<close> with its effects on the process, as far as it comes; the file is there
  as soon as it was opened, and the logger after the last thing that can fail.
\<close>

definition Daemon_create ::
    "(string \<Rightarrow> bool) \<Rightarrow> nat \<Rightarrow> ttl_timer \<Rightarrow> DaemonOptions \<Rightarrow> process \<Rightarrow> (Daemon \<times> process) run" where
  "Daemon_create opens now t o' pr =
     rbind (Daemon_new opens t o') (\<lambda>d.
     Inr (d, pr\<lparr>p_port_file := portFile o', p_debug := initDebugSettings o' (p_debug pr),
               p_logger := (case lcblogFile o' of None \<Rightarrow> p_logger pr | Some f \<Rightarrow> create_logger f now (p_logger pr))\<rparr>))"

definition Daemon_delete :: "Daemon \<Rightarrow> process \<Rightarrow> process" where
  "Daemon_delete d pr =
     (let pr' = (if portFile (myOptions d) \<noteq> None then pr\<lparr>p_port_file := None\<rparr> else pr)
      in pr'\<lparr>p_logger := destroy_logger (p_logger pr')\<rparr>)"

text \<open>
  \<open>main\<close>: \<open>pid\<close> is the number of the process, if the file for it can be opened. The result is
  the exit status; the daemon is never deleted.
\<close>

record main_args =
  ma_pid :: "nat option"
  ma_cli :: cliopts
  ma_args :: "string list"
  ma_opens :: "string \<Rightarrow> bool"
  ma_now :: nat
  ma_timer :: ttl_timer

definition daemon_main ::
    "main_args \<Rightarrow> listen_calls list \<Rightarrow> (Daemon \<Rightarrow> Daemon run) \<Rightarrow> process \<Rightarrow> (nat \<times> process) run" where
  "daemon_main A lss session pr =
     (case ma_pid A of
        None \<Rightarrow> Inl (Exited 1)
      | Some pid \<Rightarrow>
          let pr1 = pr\<lparr>p_pid_file := Some (nat_to_string pid)\<rparr> in
          rbind (Program_new (ma_cli A) (ma_args A)) (\<lambda>userOptions.
          rbind (Daemon_create (ma_opens A) (ma_now A) (ma_timer A) userOptions pr1) (\<lambda>(d, pr2).
          rbind (Daemon_run lss session d) (\<lambda>_. Inr (0, pr2)))))"

section \<open>The control connection\<close>

definition sdkd_accept_socket :: "int option \<Rightarrow> int" where
  "sdkd_accept_socket r = (case r of None \<Rightarrow> -1 | Some fd \<Rightarrow> fd)"

text \<open>
  \<open>run\<close> from its first line: the results of accepting the control connection and of the two calls
  that make the sockets non-blocking; after a failure it returns at once.
\<close>

record run_calls =
  rc_accept :: "int option"
  rc_conn :: conn
  rc_control_nonblocking :: int
  rc_accept_nonblocking :: int

definition MainDispatch_run ::
    "'j main_env \<Rightarrow> int \<Rightarrow> run_calls \<Rightarrow> main_event list \<Rightarrow> 'j control \<Rightarrow> 'j control run" where
  "MainDispatch_run M acceptfd rc evs s =
     rbind (require (acceptfd \<noteq> -1) AssertFailed) (\<lambda>_.
     if sdkd_accept_socket (rc_accept rc) = -1 then Inr s
     else
       let s1 = s\<lparr>c_conn := rc_conn rc\<rparr> in
       if rc_control_nonblocking rc = -1 then Inr s1
       else if rc_accept_nonblocking rc = -1 then Inr s1
       else main_run M evs s1)"

section \<open>Lemmas\<close>

text \<open>The socket that \<open>runServer\<close> hands on is a valid one, so the assertion of \<open>run\<close> holds.\<close>

lemma run_not_asserted:
  assumes "runServer ls session d = Inr d'" and "sdkd_start_listening ls (listenPort d) = (fd, c, port)"
  shows "MainDispatch_run M fd rc evs s \<noteq> Inl AssertFailed \<or> main_run M evs (s\<lparr>c_conn := rc_conn rc\<rparr>) = Inl AssertFailed"
proof -
  have "fd \<noteq> -1" using assms by (auto simp: runServer_def Let_def split: if_splits)
  then show ?thesis by (auto simp: MainDispatch_run_def Let_def)
qed

text \<open>A session changes what is left of the daemon: its time limit, nothing else.\<close>

definition session_ok :: "(Daemon \<Rightarrow> Daemon run) \<Rightarrow> bool" where
  "session_ok session \<longleftrightarrow> (\<forall>d d'. session d = Inr d' \<longrightarrow> d' = d\<lparr>d_ttl := d_ttl d'\<rparr>)"

lemma session_okD:
  assumes "session_ok session" and "session d = Inr d'"
  shows "myOptions d' = myOptions d" and "infoFp d' = infoFp d" and "info_text d' = info_text d"
    and "listenPort d' = listenPort d"
proof -
  obtain t where "d' = d\<lparr>d_ttl := t\<rparr>" using assms by (auto simp: session_ok_def)
  then show "myOptions d' = myOptions d" "infoFp d' = infoFp d" "info_text d' = info_text d"
    "listenPort d' = listenPort d" by simp_all
qed

lemma writePortInfo_fields [simp]:
  "\<not> infoFp (writePortInfo d)" "myOptions (writePortInfo d) = myOptions d"
  by (auto simp: writePortInfo_def)

lemma writePortInfo_again [simp]: "\<not> infoFp d \<Longrightarrow> writePortInfo d = d"
  by (simp add: writePortInfo_def)

text \<open>What each session starts with, as far as the calls go.\<close>

fun session_starts :: "listen_calls list \<Rightarrow> (Daemon \<Rightarrow> Daemon run) \<Rightarrow> Daemon \<Rightarrow> Daemon list" where
  "session_starts [] session d = []"
| "session_starts (ls # rest) session d =
     (let (fd, _, port) = sdkd_start_listening ls (listenPort d);
          d1 = writePortInfo (d\<lparr>listenPort := port\<rparr>)
      in if fd = -1 then []
         else d1 # (case session d1 of
                      Inl _ \<Rightarrow> []
                    | Inr d' \<Rightarrow> if isPersistent (myOptions d') \<noteq> 0 then session_starts rest session d' else []))"

lemma session_starts_cases:
  assumes "d' \<in> set (session_starts (ls # rest) session d)"
    and "sdkd_start_listening ls (listenPort d) = (fd, c, port)"
  obtains "d' = writePortInfo (d\<lparr>listenPort := port\<rparr>)"
  | d2 where "session (writePortInfo (d\<lparr>listenPort := port\<rparr>)) = Inr d2" "d' \<in> set (session_starts rest session d2)"
  using assms by (cases "session (writePortInfo (d\<lparr>listenPort := port\<rparr>))") (auto simp: Let_def split: if_splits)

lemma starts_written:
  assumes "session_ok session" and "\<not> infoFp d" and "d' \<in> set (session_starts lss session d)"
  shows "\<not> infoFp d' \<and> info_text d' = info_text d"
  using assms(2,3)
proof (induction lss arbitrary: d)
  case (Cons ls rest)
  obtain fd c port where l: "sdkd_start_listening ls (listenPort d) = (fd, c, port)" by (cases "sdkd_start_listening ls (listenPort d)")
  from Cons.prems(2) l show ?case
  proof (cases rule: session_starts_cases)
    case (2 d2)
    with Cons.IH [of d2] Cons.prems session_okD [OF assms(1) 2(1)] show ?thesis by simp
  qed (use Cons.prems in simp)
qed simp

section \<open>Properties\<close>

text \<open>
  A persistent daemon never leaves its loop, whatever its sessions do; one that is not serves
  exactly one session.
\<close>

theorem persistent_never_returns:
  assumes "session_ok session" and "isPersistent (myOptions d) \<noteq> 0"
  shows "Daemon_run lss session d \<noteq> Inr d'"
  using assms(2)
proof (induction lss arbitrary: d)
  case (Cons ls lss)
  have "isPersistent (myOptions d2) \<noteq> 0" if "runServer ls session d = Inr d2" for d2
    using that Cons.prems session_okD(1) [OF assms(1)]
    by (auto simp: runServer_def Let_def split: if_splits prod.splits)
  with Cons.IH show ?case by (cases "runServer ls session d") auto
qed simp

lemma single_session:
  assumes "session_ok session" and "isPersistent (myOptions d) = 0"
  shows "Daemon_run (ls # lss) session d = runServer ls session d"
proof -
  have "isPersistent (myOptions d2) = 0" if "runServer ls session d = Inr d2" for d2
    using that assms(2) session_okD(1) [OF assms(1)]
    by (auto simp: runServer_def Let_def split: if_splits prod.splits)
  then show ?thesis by (cases "runServer ls session d") auto
qed

text \<open>
  The port file is written before the first session and never again: in every session it holds one
  line with the port the first session listens on.
\<close>

theorem port_file_written_once:
  assumes "session_ok session" and "Daemon_new opens t o' = Inr d" and "portFile o' \<noteq> None"
    and "sdkd_start_listening ls (listenPort d) = (fd, c, port)"
    and "d' \<in> set (session_starts (ls # lss) session d)"
  shows "info_text d' = nat_to_string (unat port) @ [newline] \<and> \<not> infoFp d'"
proof -
  have d: "infoFp d" "info_text d = []"
    using assms(2,3) by (auto simp: Daemon_new_def rbind_eq_Inr throws_eq_Inr split: if_splits option.splits)
  define d1 where "d1 = writePortInfo (d\<lparr>listenPort := port\<rparr>)"
  have d1: "info_text d1 = nat_to_string (unat port) @ [newline]" "\<not> infoFp d1"
    using d by (simp_all add: d1_def writePortInfo_def)
  from assms(5,4) show ?thesis
  proof (cases rule: session_starts_cases)
    case (2 d2)
    with starts_written [OF assms(1) _ 2(2)] session_okD [OF assms(1) 2(1)] d1 show ?thesis by (simp add: d1_def)
  qed (use d1 in \<open>simp add: d1_def\<close>)
qed

lemma port_file_written_once_witness:
  "\<exists>d d' d''. Daemon_new (\<lambda>_. True) t
       (DaemonOptions_new\<lparr>portFile := Some ''p'', lcblogFile := Some ''l'', isPersistent := 1\<rparr>) = Inr d \<and>
     session_starts (let ls = \<lparr>ls_socket = Some 3, ls_setsockopt = True, ls_bind = True, ls_getsockname = Some 4711,
       ls_listen = True\<rparr> in [ls, ls]) Inr d = [d', d''] \<and> info_text d'' = ''4711'' @ [newline]"
proof -
  let ?ls = "\<lparr>ls_socket = Some 3, ls_setsockopt = True, ls_bind = True, ls_getsockname = Some (4711 :: 32 word), ls_listen = True\<rparr>"
  let ?o = "DaemonOptions_new\<lparr>portFile := Some ''p'', lcblogFile := Some ''l'', isPersistent := 1\<rparr>"
  obtain d where d: "Daemon_new (\<lambda>_. True) t ?o = Inr d" "myOptions d = ?o"
    by (simp add: Daemon_new_def DaemonOptions_new_def)
  have l: "sdkd_start_listening ?ls p = (3, False, 4711)" for p by (simp add: sdkd_start_listening_def)
  obtain d' d'' where s: "session_starts [?ls, ?ls] Inr d = [d', d'']"
    by (simp add: l d(2) Let_def DaemonOptions_new_def)
  have "session_ok Inr" by (simp add: session_ok_def)
  moreover have "d'' \<in> set (session_starts [?ls, ?ls] Inr d)" by (simp only: s) simp
  moreover have "portFile ?o \<noteq> None" by (simp add: DaemonOptions_new_def)
  ultimately have "info_text d'' = nat_to_string (unat (4711 :: 32 word)) @ [newline]"
    using port_file_written_once [OF _ d(1) _ l] by blast
  moreover have "nat_to_string (unat (4711 :: 32 word)) = ''4711''" by (simp add: nat_to_string.simps digit_def char_of_def bit_0)
  ultimately have i: "info_text d'' = ''4711'' @ [newline]" by simp
  show ?thesis unfolding Let_def using d(1) s i by blast
qed

text \<open>
  How \<open>main\<close> ends: it returns 0 when a daemon that is not persistent has served its session, and
  otherwise it does not return. The file with the process number is written, the port file is still
  there then and the client's logger still open, since nothing deletes the daemon.
\<close>

theorem main_returns:
  assumes "session_ok session" and "daemon_main A lss session pr = Inr (r, pr')"
  shows "r = 0 \<and> (\<exists>pid u d ls d'. ma_pid A = Some pid \<and> p_pid_file pr' = Some (nat_to_string pid) \<and>
    Program_new (ma_cli A) (ma_args A) = Inr u \<and> Daemon_new (ma_opens A) (ma_timer A) u = Inr d \<and> isPersistent u = 0 \<and>
    lss \<noteq> [] \<and> runServer (hd lss) session d = Inr d' \<and> p_port_file pr' = portFile u \<and> p_logger pr' \<noteq> None)"
proof -
  obtain pid where pid: "ma_pid A = Some pid" using assms(2) by (cases "ma_pid A") (auto simp: daemon_main_def)
  from assms(2) pid obtain u d pr2 d2 where u: "Program_new (ma_cli A) (ma_args A) = Inr u"
    and c: "Daemon_create (ma_opens A) (ma_now A) (ma_timer A) u (pr\<lparr>p_pid_file := Some (nat_to_string pid)\<rparr>) = Inr (d, pr2)"
    and run: "Daemon_run lss session d = Inr d2" and r: "r = 0" "pr' = pr2"
    by (auto simp: daemon_main_def Let_def rbind_eq_Inr)
  from c have d: "Daemon_new (ma_opens A) (ma_timer A) u = Inr d" by (auto simp: Daemon_create_def rbind_eq_Inr)
  then have o': "myOptions d = u" "lcblogFile u \<noteq> None"
    by (auto simp: Daemon_new_def rbind_eq_Inr throws_eq_Inr split: if_splits)
  with persistent_never_returns [OF assms(1)] run have p: "isPersistent u = 0" by blast
  obtain ls rest where l: "lss = ls # rest" using run by (cases lss) auto
  have "runServer ls session d = Inr d2" using run single_session [OF assms(1)] o' p l by simp
  moreover have "p_pid_file pr2 = Some (nat_to_string pid)" "p_port_file pr2 = portFile u" "p_logger pr2 \<noteq> None"
    using c d o' by (auto simp: Daemon_create_def create_logger_def)
  ultimately show ?thesis using pid u d p l r by auto
qed

lemma main_serves:
  assumes "session_ok session" and "ma_pid A = Some pid" and "Program_new (ma_cli A) (ma_args A) = Inr u"
    and "Daemon_new (ma_opens A) (ma_timer A) u = Inr d" and "isPersistent u = 0" and "runServer ls session d = Inr d'"
  shows "\<exists>pr'. daemon_main A (ls # lss) session pr = Inr (0, pr')"
proof -
  have "myOptions d = u" using assms(4) by (auto simp: Daemon_new_def rbind_eq_Inr throws_eq_Inr split: if_splits)
  with assms single_session [OF assms(1), of d ls lss] show ?thesis
    by (simp add: daemon_main_def Daemon_create_def Let_def del: Daemon_run.simps)
qed

text \<open>
  Level 0, which the help text of the option calls off and which is also the default, is the one at
  which everything is logged.
\<close>

lemma debug_level_zero_logs_all:
  assumes "debugLevel o' = 0"
  shows "cbsdkd_logger (initDebugSettings o' d) l line fn body \<noteq> []"
  using assms by (cases l) (simp_all add: cbsdkd_logger_def initDebugSettings_def Let_def)

end
