(* ===== verification/Platform.thy ===== *)
theory Platform
  imports Control
begin

text \<open>
  The timers of the operating systems (\<open>src/Thread.h\<close>, \<open>src/ThreadUnix.cpp\<close>,
  \<open>src/ThreadWin32.cpp\<close>) against the one interface the time limit uses, and the clock on Windows
  (\<open>src/win32-gettimeofday.c\<close>). What a system call returns is an argument.
\<close>

section \<open>Timers\<close>

text \<open>
  The timer of the process that \<open>alarm\<close> sets, and the handler of its signal with the static
  variable it calls. A function to call is a value of the type \<open>'f\<close>.
\<close>

record 'f alarm_os =
  alarm_handler :: "'f option"
  alarm_due :: "32 word option"

record 'f PosixTimer =
  pt_fn :: 'f
  is_active :: bool

type_synonym 'f posix_timer = "'f PosixTimer \<times> 'f alarm_os"

definition PosixTimer_new :: "'f \<Rightarrow> 'f alarm_os \<Rightarrow> 'f posix_timer" where
  "PosixTimer_new fn os = (\<lparr>pt_fn = fn, is_active = False\<rparr>, os\<lparr>alarm_handler := Some fn\<rparr>)"

definition PosixTimer_schedule :: "32 word \<Rightarrow> 'f posix_timer \<Rightarrow> 'f posix_timer" where
  "PosixTimer_schedule seconds s =
     (let (t, os) = s; t' = (if seconds = 0 then t\<lparr>is_active := False\<rparr> else t)
      in (t', os\<lparr>alarm_due := (if seconds = 0 then None else Some seconds)\<rparr>))"

definition PosixTimer_isActive :: "'f posix_timer \<Rightarrow> bool" where
  "PosixTimer_isActive s = is_active (fst s)"

definition PosixTimer_delete :: "'f posix_timer \<Rightarrow> 'f alarm_os" where
  "PosixTimer_delete s = (snd s)\<lparr>alarm_due := None\<rparr>"

definition alarm_handler_wrap :: "'f alarm_os \<Rightarrow> 'f run" where
  "alarm_handler_wrap os = (case alarm_handler os of None \<Rightarrow> Inl BadAccess | Some fn \<Rightarrow> Inr fn)"

text \<open>
  The timers of the queue on Windows, in milliseconds; \<open>create\<close> gives the handle of a new one, or
  fails and leaves the variable as it is.
\<close>

type_synonym timer_queue = "nat \<Rightarrow> 32 word option"

record 'f WindowsTimer =
  wt_fn :: 'f
  hTimer :: "nat option"

type_synonym 'f windows_timer = "'f WindowsTimer \<times> timer_queue"

definition WindowsTimer_new :: "'f \<Rightarrow> timer_queue \<Rightarrow> 'f windows_timer" where
  "WindowsTimer_new fn q = (\<lparr>wt_fn = fn, hTimer = None\<rparr>, q)"

definition WindowsTimer_reset :: "'f windows_timer \<Rightarrow> 'f windows_timer" where
  "WindowsTimer_reset s =
     (let (t, q) = s in case hTimer t of None \<Rightarrow> (t, q) | Some h \<Rightarrow> (t\<lparr>hTimer := None\<rparr>, q(h := None)))"

definition WindowsTimer_schedule ::
    "(timer_queue \<Rightarrow> nat option) \<Rightarrow> 32 word \<Rightarrow> 'f windows_timer \<Rightarrow> 'f windows_timer" where
  "WindowsTimer_schedule create seconds s =
     (let (t, q) = WindowsTimer_reset s in
      if seconds = 0 then (t, q)
      else case create q of
          None \<Rightarrow> (t, q)
        | Some h \<Rightarrow> (t\<lparr>hTimer := Some h\<rparr>, q(h \<mapsto> seconds * 1000)))"

definition WindowsTimer_isActive :: "'f windows_timer \<Rightarrow> bool" where
  "WindowsTimer_isActive s = (hTimer (fst s) \<noteq> None)"

definition WindowsTimer_fire :: "'f windows_timer \<Rightarrow> 'f" where
  "WindowsTimer_fire s = wt_fn (fst s)"

section \<open>The time limit over a timer\<close>

text \<open>
  \<open>sdkd_set_ttl\<close> with the calls it makes: the timer is created once, of what the system holds
  before; \<open>disable\<close> is scheduling zero seconds.
\<close>

datatype ('o, 's) global_timer = NotCreated 'o | Created 's

definition timer_disable :: "(32 word \<Rightarrow> 's \<Rightarrow> 's) \<Rightarrow> 's \<Rightarrow> 's" where
  "timer_disable schedule = schedule 0"

definition set_ttl_on ::
    "('o \<Rightarrow> 's) \<Rightarrow> (32 word \<Rightarrow> 's \<Rightarrow> 's) \<Rightarrow> 32 word \<Rightarrow> ('o, 's) global_timer \<times> bool
      \<Rightarrow> ('o, 's) global_timer \<times> bool" where
  "set_ttl_on create schedule seconds g =
     (let s = (case fst g of NotCreated os \<Rightarrow> create os | Created s \<Rightarrow> s);
          (s1, initialized) = (if snd g then (timer_disable schedule s, False) else (s, False))
      in if seconds \<noteq> 0 then (Created (schedule seconds s1), True) else (Created s1, initialized))"

text \<open>The timer record of the control thread, as a view of it.\<close>

definition ttl_view :: "('s \<Rightarrow> 32 word option) \<Rightarrow> ('o, 's) global_timer \<times> bool \<Rightarrow> ttl_timer" where
  "ttl_view due g =
     \<lparr>ttl_created = (case fst g of NotCreated _ \<Rightarrow> False | Created _ \<Rightarrow> True), ttl_initialized = snd g,
      ttl_scheduled = (case fst g of NotCreated _ \<Rightarrow> None | Created s \<Rightarrow> due s)\<rparr>"

text \<open>
  What the time limit relies on: a new timer is not due when the system held none, and
  scheduling a number of seconds in range makes it due after exactly that number, zero never.
\<close>

locale timer =
  fixes create :: "'o \<Rightarrow> 's"
    and schedule :: "32 word \<Rightarrow> 's \<Rightarrow> 's"
    and due :: "'s \<Rightarrow> 32 word option"
    and idle_os :: "'o \<Rightarrow> bool"
    and in_range :: "32 word \<Rightarrow> bool"
  assumes due_create: "idle_os os \<Longrightarrow> due (create os) = None"
    and due_zero: "due (schedule 0 s) = None"
    and due_schedule: "in_range n \<Longrightarrow> n \<noteq> 0 \<Longrightarrow> due (schedule n s) = Some n"
begin

definition idle_start :: "('o, 's) global_timer \<times> bool \<Rightarrow> bool" where
  "idle_start g \<longleftrightarrow> (case fst g of NotCreated os \<Rightarrow> idle_os os | Created _ \<Rightarrow> True)"

lemma set_ttl_refines:
  assumes "idle_start g" and "in_range n"
  shows "ttl_view due (set_ttl_on create schedule n g) = sdkd_set_ttl n (ttl_view due g)"
  using assms due_create due_zero due_schedule
  by (cases "fst g") (auto simp: ttl_view_def set_ttl_on_def sdkd_set_ttl_def timer_disable_def idle_start_def Let_def)

lemma idle_start_set [simp]: "idle_start (set_ttl_on create schedule n g)"
  by (auto simp: idle_start_def set_ttl_on_def Let_def split: prod.splits)

text \<open>After settings in range the timer is due for the last of them.\<close>

lemma set_ttl_last:
  assumes "idle_start g" and "\<not> snd g \<longrightarrow> ttl_scheduled (ttl_view due g) = None"
    and "\<forall>n \<in> set ns. in_range n" and "in_range n"
  shows "ttl_scheduled (ttl_view due (fold (set_ttl_on create schedule) (ns @ [n]) g)) =
    (if n = 0 then None else Some n)"
proof -
  let ?g = "fold (set_ttl_on create schedule) ns g"
  have "idle_start ?g \<and> (\<not> snd ?g \<longrightarrow> ttl_scheduled (ttl_view due ?g) = None)"
    using assms(1-3)
  proof (induction ns arbitrary: g)
    case (Cons m ns)
    have "\<not> snd (set_ttl_on create schedule m g) \<longrightarrow>
        ttl_scheduled (ttl_view due (set_ttl_on create schedule m g)) = None"
      using Cons.prems set_ttl_refines [of g m]
      by (auto simp: sdkd_set_ttl_def Let_def ttl_view_def split: if_splits)
    with Cons show ?case by simp
  qed simp
  with assms(4) set_ttl_refines [of ?g n] show ?thesis
    by (auto simp: sdkd_set_ttl_def Let_def ttl_view_def)
qed

end

text \<open>The timers of both systems keep the contract, on Windows below \<open>2^32\<close> milliseconds.\<close>

definition posix_due :: "'f posix_timer \<Rightarrow> 32 word option" where
  "posix_due s = alarm_due (snd s)"

definition no_alarm :: "'f alarm_os \<Rightarrow> bool" where
  "no_alarm os \<longleftrightarrow> alarm_due os = None"

definition windows_due :: "'f windows_timer \<Rightarrow> 32 word option" where
  "windows_due s =
     (case hTimer (fst s) of None \<Rightarrow> None | Some h \<Rightarrow> map_option (\<lambda>ms. ms div 1000) (snd s h))"

definition windows_range :: "32 word \<Rightarrow> bool" where
  "windows_range n \<longleftrightarrow> unat n * 1000 < 2 ^ 32"

interpretation posix: timer "PosixTimer_new fn" PosixTimer_schedule posix_due no_alarm "\<lambda>_. True"
  by unfold_locales
    (simp_all add: PosixTimer_new_def PosixTimer_schedule_def posix_due_def no_alarm_def split: prod.split)

lemma windows_seconds:
  assumes "windows_range n"
  shows "n * 1000 div 1000 = n"
proof -
  have m: "unat (n * 1000) = unat n * 1000"
    using assms unat_mult_lem [of n 1000] by (simp add: windows_range_def)
  show ?thesis by (simp add: word_unat_eq_iff unat_div m)
qed

interpretation windows: timer "WindowsTimer_new fn" "WindowsTimer_schedule (\<lambda>q. Some (h q))" windows_due
    "\<lambda>_. True" windows_range
  by unfold_locales
    (auto simp: WindowsTimer_new_def WindowsTimer_schedule_def WindowsTimer_reset_def windows_due_def
      windows_seconds split: prod.split option.split)

section \<open>The clock on Windows\<close>

text \<open>
  The time since 1601 in units of 100 nanoseconds comes as two words; \<open>long\<close> has 32 bits there.
\<close>

definition DELTA_EPOCH_IN_MICROSECS :: "64 word" where
  "DELTA_EPOCH_IN_MICROSECS = 11644473600000000"

definition windows_micros :: "32 word \<Rightarrow> 32 word \<Rightarrow> 64 word" where
  "windows_micros hi lo =
     (let tmpres = or 0 (ucast hi); tmpres = push_bit 32 tmpres; tmpres = or tmpres (ucast lo);
          tmpres = tmpres div 10
      in tmpres - DELTA_EPOCH_IN_MICROSECS)"

definition windows_gettimeofday :: "32 word \<Rightarrow> 32 word \<Rightarrow> int \<times> int" where
  "windows_gettimeofday hi lo =
     (let tmpres = windows_micros hi lo
      in (sint (ucast (tmpres div 1000000) :: 32 word), sint (ucast (tmpres mod 1000000) :: 32 word)))"

lemma filetime_value: "unat (or (push_bit 32 (ucast hi)) (ucast lo) :: 64 word) = unat hi * 2 ^ 32 + unat lo"
  for hi lo :: "32 word"
proof -
  have "(or (push_bit 32 (ucast hi)) (ucast lo) :: 64 word) = push_bit 32 (ucast hi) + ucast lo"
    using word_cat_eq_push_bit_or [of hi lo, where 'c = 64] word_cat_eq [of hi lo, where 'c = 64] by simp
  also have "\<dots> = word_of_nat (unat hi * 2 ^ 32 + unat lo)"
    by (simp add: push_bit_eq_mult unsigned_of_nat)
  also have "unat \<dots> = unat hi * 2 ^ 32 + unat lo"
  proof (rule of_nat_inverse [OF refl])
    have "unat hi < 2 ^ 32" "unat lo < 2 ^ 32" using unsigned_less [of hi, where 'a = nat] unsigned_less [of lo, where 'a = nat] by simp_all
    then show "unat hi * 2 ^ 32 + unat lo < 2 ^ LENGTH(64)" by simp
  qed
  finally show ?thesis .
qed

lemma windows_micros_value:
  assumes "11644473600000000 \<le> (unat hi * 2 ^ 32 + unat lo) div 10"
  shows "unat (windows_micros hi lo) = (unat hi * 2 ^ 32 + unat lo) div 10 - 11644473600000000"
proof -
  have q: "unat ((or (push_bit 32 (ucast hi)) (ucast lo) :: 64 word) div 10) = (unat hi * 2 ^ 32 + unat lo) div 10"
    by (simp only: unat_div filetime_value) simp
  moreover have "DELTA_EPOCH_IN_MICROSECS \<le> (or (push_bit 32 (ucast hi)) (ucast lo) :: 64 word) div 10"
    using assms by (simp only: word_le_nat_alt q) (simp add: DELTA_EPOCH_IN_MICROSECS_def)
  ultimately show ?thesis
    by (simp only: windows_micros_def Let_def or.left_neutral unat_sub)
      (simp add: DELTA_EPOCH_IN_MICROSECS_def)
qed

section \<open>Pauses\<close>

text \<open>
  The macro \<open>sdkd_millisleep\<close> of \<open>src/sdkd_internal.h\<close>: the argument of \<open>usleep\<close> on POSIX, in
  microseconds and 32 bits; that of \<open>Sleep\<close> on Windows.
\<close>

definition posix_millisleep :: "32 word \<Rightarrow> 32 word" where
  "posix_millisleep ms = ms * 1000"

definition windows_millisleep :: "32 word \<Rightarrow> 32 word" where
  "windows_millisleep ms = ms"

section \<open>Properties\<close>

text \<open>
  Setting the time limit over the timers of either system is the change of the timer record
  in the model of the control thread, on Windows for limits below \<open>2^32\<close> milliseconds.
\<close>

theorem ttl_timers_refine:
  assumes "\<And>os. fst g = NotCreated os \<Longrightarrow> alarm_due os = None" and "unat n * 1000 < 2 ^ 32"
  shows "ttl_view posix_due (set_ttl_on (PosixTimer_new fn) PosixTimer_schedule m g) =
      sdkd_set_ttl m (ttl_view posix_due g) \<and>
    ttl_view windows_due (set_ttl_on (WindowsTimer_new fn') (WindowsTimer_schedule (\<lambda>q. Some (h q))) n g') =
      sdkd_set_ttl n (ttl_view windows_due g')"
proof
  have "posix.idle_start g" using assms(1) by (auto simp: posix.idle_start_def no_alarm_def split: global_timer.split)
  then show "ttl_view posix_due (set_ttl_on (PosixTimer_new fn) PosixTimer_schedule m g) =
      sdkd_set_ttl m (ttl_view posix_due g)"
    by (rule posix.set_ttl_refines) simp
  have "windows.idle_start g'" by (simp add: windows.idle_start_def split: global_timer.split)
  then show "ttl_view windows_due (set_ttl_on (WindowsTimer_new fn') (WindowsTimer_schedule (\<lambda>q. Some (h q))) n g') =
      sdkd_set_ttl n (ttl_view windows_due g')"
    using assms(2) by (intro windows.set_ttl_refines) (simp_all add: windows_range_def)
qed

lemma ttl_timers_refine_witness:
  "ttl_scheduled (ttl_view posix_due (set_ttl_on (PosixTimer_new ''expired'') PosixTimer_schedule 60
      (NotCreated \<lparr>alarm_handler = None, alarm_due = None\<rparr>, False))) = Some 60"
proof -
  let ?g = "(NotCreated \<lparr>alarm_handler = None, alarm_due = None\<rparr>, False) ::
    (string alarm_os, string posix_timer) global_timer \<times> bool"
  have "ttl_view posix_due (set_ttl_on (PosixTimer_new ''expired'') PosixTimer_schedule 60 ?g) =
      sdkd_set_ttl 60 (ttl_view posix_due ?g)"
    by (rule ttl_timers_refine
      [where n = 60 and g' = "(Created (WindowsTimer_new ''expired'' (\<lambda>_. None)), False)", THEN conjunct1]) auto
  then show ?thesis by (simp add: sdkd_set_ttl_def ttl_view_def)
qed

text \<open>
  The seconds are multiplied in 32 bits: a limit of 4294968 seconds fires after 704 milliseconds.
\<close>

lemma windows_limit_wraps:
  "snd (WindowsTimer_schedule (\<lambda>_. Some 0) 4294968 (WindowsTimer_new fn (\<lambda>_. None))) 0 = Some 704"
  by (simp add: WindowsTimer_schedule_def WindowsTimer_new_def WindowsTimer_reset_def)

text \<open>
  A pause on POSIX is as long as asked for below 71 minutes, and too short from there on.
\<close>

lemma posix_pause:
  "unat ms * 1000 < 2 ^ 32 \<Longrightarrow> unat (posix_millisleep ms) = unat ms * 1000"
  "posix_millisleep 4294968 = 704"
  by (simp_all add: posix_millisleep_def unat_word_ariths)

text \<open>A timer of POSIX never counts as active, since nothing sets the member.\<close>

lemma posix_never_active:
  "\<not> PosixTimer_isActive (fold PosixTimer_schedule ns (PosixTimer_new fn os))"
proof -
  have "\<not> PosixTimer_isActive s \<Longrightarrow> \<not> PosixTimer_isActive (fold PosixTimer_schedule ns s)" for s :: "'a posix_timer"
    by (induction ns arbitrary: s)
      (auto simp: PosixTimer_isActive_def PosixTimer_schedule_def Let_def split: prod.splits)
  then show ?thesis by (simp add: PosixTimer_isActive_def PosixTimer_new_def)
qed

text \<open>
  The clock on Windows gives the microseconds since 1970, split at the million, up to the year
  2038 when \<open>long\<close> ends.
\<close>

theorem windows_clock:
  fixes hi lo :: "32 word"
  defines "micros \<equiv> (unat hi * 2 ^ 32 + unat lo) div 10 - 11644473600000000"
  assumes "11644473600000000 \<le> (unat hi * 2 ^ 32 + unat lo) div 10" and "micros < 2 ^ 31 * 1000000"
  shows "windows_gettimeofday hi lo = (int (micros div 1000000), int (micros mod 1000000))"
proof -
  note small = int_of_ulong_unat [unfolded int_of_ulong_def]
  have m: "unat (windows_micros hi lo) = micros"
    using windows_micros_value assms(2) by (simp only: micros_def)
  have "micros div 1000000 < 2 ^ 31" using assms(3) by (simp only: less_mult_imp_div_less)
  moreover have "micros mod 1000000 < 2 ^ 31" using mod_less_divisor [of 1000000 micros] by simp
  moreover have "unat (windows_micros hi lo div 1000000) = micros div 1000000"
    "unat (windows_micros hi lo mod 1000000) = micros mod 1000000"
    by (simp_all add: unat_div unat_mod m)
  ultimately show ?thesis by (simp only: windows_gettimeofday_def Let_def small)
qed

lemma windows_clock_witness: "windows_gettimeofday 27111902 3577643008 = (0, 0) \<and>
  windows_gettimeofday 27111902 3577643028 = (0, 2)"
proof -
  have "unat (27111902 :: 32 word) * 2 ^ 32 + unat (3577643008 :: 32 word) = 116444736000000000"
    "unat (27111902 :: 32 word) * 2 ^ 32 + unat (3577643028 :: 32 word) = 116444736000000020"
    by simp_all
  then show ?thesis
    using windows_clock [of 27111902 3577643008] windows_clock [of 27111902 3577643028] by simp
qed

text \<open>Past the end of \<open>long\<close>, in 2038, the seconds are negative.\<close>

lemma windows_clock_wraps: "fst (windows_gettimeofday 32111902 3577643008) < 0"
  by (simp add: windows_gettimeofday_def windows_micros_def DELTA_EPOCH_IN_MICROSECS_def)

end
