(* ===== verification/Threads.thy ===== *)
theory Threads
  imports Registration
begin

text \<open>
  The threads of the daemon at the grain of its shared accesses: a thread is a list of
  instructions, one for each statement of the source that locks, unlocks, or touches memory
  another thread can see, and any thread may take the next step. What happens inside one
  thread only (parsing, building responses, walking a dataset) is left to the coarser model of
  \<open>System\<close>. A mutex is the interface \<open>Mutex\<close> of \<open>src/Thread.h\<close>: \<open>lock\<close> waits until no thread holds it,
  also for the thread that holds it already; \<open>OsThreads\<close> states what a class needs for that. The two
  calls of the client library that \<open>ensureCluster\<close> waits for are a call and a wait each: the outcome
  comes from a thread of the client, in a step of its own that may come late or never.
\<close>

section \<open>Memory\<close>

datatype thread_id = MainThread | WorkerThread nat

datatype mutex = WMutex | DsMutex | HMutex nat

text \<open>The state of a \<open>std::promise\<close> a callback was given, and of its future.\<close>

datatype future = Pending | Ready bool

text \<open>A worker object, with the address of its handle; a handle in memory is its \<open>do_cancel\<close>.\<close>

record worker_obj =
  o_handle :: "nat option"
  o_hid :: "64 word"

record 'j memory =
  held :: "mutex \<Rightarrow> thread_id option"
  m_shared :: "'j shared"
  objs :: "nat \<Rightarrow> worker_obj option"
  handles :: "nat \<Rightarrow> bool option"
  kids :: "nat list"
  next_obj :: nat
  next_handle :: nat
  futures :: "nat \<Rightarrow> future"
  next_future :: nat
  open_calls :: nat
  opens :: nat
  bucket_opens :: nat
  makers :: "thread_id list"
  open_ok :: "thread_id \<Rightarrow> bool"

text \<open>
  \<open>open_calls\<close> counts the calls of \<open>cluster->open\<close>, \<open>opens\<close> those answered with success, and
  \<open>bucket_opens\<close> the successes of \<open>cluster->open_bucket\<close>; \<open>makers\<close> are the threads that went on to
  create the collections. No instruction reads these four. \<open>open_ok\<close> is the error code of a thread's
  last \<open>ensureCluster\<close>, True for none.
\<close>

definition memory_new :: "'j memory" where
  "memory_new = \<lparr>held = (\<lambda>_. None), m_shared = shared_new, objs = (\<lambda>_. None), handles = (\<lambda>_. None), kids = [],
     next_obj = 0, next_handle = 0, futures = (\<lambda>_. Pending), next_future = 0, open_calls = 0, opens = 0,
     bucket_opens = 0, makers = [], open_ok = (\<lambda>_. False)\<rparr>"

section \<open>Instructions\<close>

datatype instr =
    LockI mutex | UnlockI mutex
  | MainLoop | SpawnWorker | FindWorker "64 word" | IfHandle nat | CancelHandle nat | CollectWorker nat | DestroyTest
  | SelectLoop | IfNoHandle "64 word" bool | TestInitialized | OpenCluster | AwaitOpen nat | OpenBucket | AwaitBucket nat
  | SetInitialized
  | IfOpen "64 word" bool | NewHandle | SetHid "64 word" | MapInsert "64 word"
  | TestGenerated | SetGenerated | CreateCollections
  | IfOperation string | FindDataset string | EnterOp | Poll
  | IfHid | MapErase "64 word" | ClearHid | IfOwnHandle | DeleteHandle | NullHandle

text \<open>What a step cannot know: what arrives, how a call ends, whether an operation has more to do.\<close>

datatype choice =
    Yes | No
  | CAccept | CCollect | CCancel "64 word" | CQuit
  | CNewHandle "64 word" bool | COperation string | CClose

text \<open>The code of the functions, in the order of their statements.\<close>

definition cancelCurrentHandle_code :: "nat \<Rightarrow> instr list" where
  "cancelCurrentHandle_code d = [LockI (HMutex d), IfHandle d, UnlockI (HMutex d)]"

definition collect_workers_code :: "nat list \<Rightarrow> instr list" where
  "collect_workers_code ds = map CollectWorker ds"

definition destroy_code :: "nat list \<Rightarrow> instr list" where
  "destroy_code ds = concat (map cancelCurrentHandle_code ds) @ collect_workers_code ds @ [DestroyTest]"

definition ensureCluster_code :: "instr list" where
  "ensureCluster_code = [LockI WMutex, TestInitialized, UnlockI WMutex]"

definition registerWDHandle_code :: "64 word \<Rightarrow> instr list" where
  "registerWDHandle_code k = [LockI WMutex, MapInsert k, UnlockI WMutex]"

definition unregisterWDHandle_code :: "64 word \<Rightarrow> instr list" where
  "unregisterWDHandle_code k = [LockI WMutex, MapErase k, UnlockI WMutex]"

definition open_handle_code :: "64 word \<Rightarrow> bool \<Rightarrow> instr list" where
  "open_handle_code k use =
     [NewHandle, SetHid k] @ registerWDHandle_code k @ (if use then [TestGenerated] else [])"

definition initializeHandle_code :: "64 word \<Rightarrow> bool \<Rightarrow> instr list" where
  "initializeHandle_code k use = [IfNoHandle k use]"

definition getDatasetById_code :: "string \<Rightarrow> instr list" where
  "getDatasetById_code i = (if i = [] then [] else [LockI DsMutex, FindDataset i, UnlockI DsMutex])"

definition run_end_code :: "nat \<Rightarrow> instr list" where
  "run_end_code d = [IfHid, LockI (HMutex d), IfOwnHandle, UnlockI (HMutex d)]"

section \<open>One instruction\<close>

text \<open>The object a worker runs on; it is gone when the control thread has deleted it.\<close>

definition obj_of :: "nat \<Rightarrow> 'j memory \<Rightarrow> worker_obj run" where
  "obj_of d m = (case objs m d of None \<Rightarrow> Inl BadAccess | Some ob \<Rightarrow> Inr ob)"

definition put_obj :: "nat \<Rightarrow> worker_obj \<Rightarrow> 'j memory \<Rightarrow> 'j memory" where
  "put_obj d ob m = m\<lparr>objs := (objs m)(d \<mapsto> ob)\<rparr>"

text \<open>The handle a worker object points to.\<close>

definition handle_of :: "worker_obj \<Rightarrow> 'j memory \<Rightarrow> (nat \<times> bool) run" where
  "handle_of ob m = (case o_handle ob of None \<Rightarrow> Inl BadAccess | Some a \<Rightarrow>
     (case handles m a of None \<Rightarrow> Inl BadAccess | Some b \<Rightarrow> Inr (a, b)))"

text \<open>Locking the mutex of a deleted object is an access to it.\<close>

definition mutex_ok :: "mutex \<Rightarrow> 'j memory \<Rightarrow> bool" where
  "mutex_ok mx m = (case mx of HMutex d \<Rightarrow> objs m d \<noteq> None | _ \<Rightarrow> True)"

definition mutex_lock :: "thread_id \<Rightarrow> mutex \<Rightarrow> 'j memory \<Rightarrow> 'j memory run" where
  "mutex_lock t mx m = (if mutex_ok mx m then Inr (m\<lparr>held := (held m)(mx := Some t)\<rparr>) else Inl BadAccess)"

definition mutex_unlock :: "mutex \<Rightarrow> 'j memory \<Rightarrow> 'j memory run" where
  "mutex_unlock mx m = (if mutex_ok mx m then Inr (m\<lparr>held := (held m)(mx := None)\<rparr>) else Inl BadAccess)"

text \<open>The value of a future that is ready; one that is not is waited for.\<close>

definition future_get :: "nat \<Rightarrow> 'j memory \<Rightarrow> bool" where
  "future_get f m = (case futures m f of Ready ok \<Rightarrow> ok | Pending \<Rightarrow> False)"

text \<open>A call of the client is given a callback that sets a new promise.\<close>

definition new_future :: "'j memory \<Rightarrow> 'j memory" where
  "new_future m = m\<lparr>futures := (futures m)(next_future m := Pending), next_future := Suc (next_future m)\<rparr>"

text \<open>What an instruction does to memory, and the instructions a branch or a call puts before the rest.\<close>

fun exec_main :: "choice \<Rightarrow> instr \<Rightarrow> 'j memory \<Rightarrow> ('j memory \<times> instr list) run" where
  "exec_main c MainLoop m =
     (case c of
        CAccept \<Rightarrow> Inr (m, [SpawnWorker, MainLoop])
      | CCollect \<Rightarrow> Inr (m, collect_workers_code (kids m) @ [MainLoop])
      | CCancel k \<Rightarrow> Inr (m, [FindWorker k, MainLoop])
      | CQuit \<Rightarrow> Inr (m, [DestroyTest])
      | _ \<Rightarrow> Inr (m, [MainLoop]))"
| "exec_main c SpawnWorker m =
     Inr (m\<lparr>objs := (objs m)(next_obj m \<mapsto> \<lparr>o_handle = None, o_hid = 0\<rparr>),
            kids := kids m @ [next_obj m], next_obj := Suc (next_obj m)\<rparr>, [])"
| "exec_main c (FindWorker k) m =
     (let (w, sh) = h2wmap_at k (m_shared m)
      in Inr (m\<lparr>m_shared := sh\<rparr>, (case w of None \<Rightarrow> [] | Some d \<Rightarrow> cancelCurrentHandle_code d)))"
| "exec_main c (IfHandle d) m =
     rbind (obj_of d m) (\<lambda>ob. Inr (m, if o_handle ob \<noteq> None then [CancelHandle d] else []))"
| "exec_main c (CancelHandle d) m =
     rbind (obj_of d m) (\<lambda>ob. rbind (handle_of ob m) (\<lambda>(a, _). Inr (m\<lparr>handles := (handles m)(a \<mapsto> True)\<rparr>, [])))"
| "exec_main c (CollectWorker d) m =
     rbind (obj_of d m) (\<lambda>ob.
       if c = Yes
       then Inr (m\<lparr>objs := (objs m)(d := None), kids := filter (\<lambda>d'. d' \<noteq> d) (kids m),
                   handles := (case o_handle ob of None \<Rightarrow> handles m | Some a \<Rightarrow> (handles m)(a := None))\<rparr>, [])
       else Inr (m, []))"
| "exec_main c DestroyTest m = Inr (m, if kids m = [] then [] else destroy_code (kids m))"
| "exec_main c i m = Inl AssertFailed"

fun exec_worker :: "choice \<Rightarrow> nat \<Rightarrow> instr \<Rightarrow> 'j memory \<Rightarrow> ('j memory \<times> instr list) run" where
  "exec_worker c d SelectLoop m =
     (case c of
        CNewHandle k use \<Rightarrow> Inr (m, initializeHandle_code k use @ [SelectLoop])
      | COperation i \<Rightarrow> Inr (m, [IfOperation i, SelectLoop])
      | CClose \<Rightarrow> Inr (m, run_end_code d)
      | _ \<Rightarrow> Inr (m, [SelectLoop]))"
| "exec_worker c d (IfNoHandle k use) m =
     rbind (obj_of d m) (\<lambda>ob.
       Inr (m, if o_handle ob \<noteq> None then [] else ensureCluster_code @ [IfOpen k use]))"
| "exec_worker c d TestInitialized m =
     Inr (m\<lparr>open_ok := (open_ok m)(WorkerThread d := True)\<rparr>,
          if cluster_initialized (m_shared m) then [] else [OpenCluster])"
| "exec_worker c d OpenCluster m = Inr (new_future (m\<lparr>open_calls := Suc (open_calls m)\<rparr>), [AwaitOpen (next_future m)])"
| "exec_worker c d (AwaitOpen f) m =
     Inr (m\<lparr>open_ok := (open_ok m)(WorkerThread d := future_get f m), opens := opens m + of_bool (future_get f m)\<rparr>,
          if future_get f m then [OpenBucket] else [])"
| "exec_worker c d OpenBucket m = Inr (new_future m, [AwaitBucket (next_future m)])"
| "exec_worker c d (AwaitBucket f) m =
     Inr (m\<lparr>open_ok := (open_ok m)(WorkerThread d := future_get f m),
            bucket_opens := bucket_opens m + of_bool (future_get f m)\<rparr>,
          if future_get f m then [SetInitialized] else [])"
| "exec_worker c d SetInitialized m = Inr (m\<lparr>m_shared := (m_shared m)\<lparr>cluster_initialized := True\<rparr>\<rparr>, [])"
| "exec_worker c d (IfOpen k use) m = Inr (m, if open_ok m (WorkerThread d) then open_handle_code k use else [])"
| "exec_worker c d NewHandle m =
     rbind (obj_of d m) (\<lambda>ob.
       Inr (put_obj d (ob\<lparr>o_handle := Some (next_handle m)\<rparr>)
              (m\<lparr>handles := (handles m)(next_handle m \<mapsto> (c = Yes)), next_handle := Suc (next_handle m)\<rparr>), []))"
| "exec_worker c d (SetHid k) m = rbind (obj_of d m) (\<lambda>ob. Inr (put_obj d (ob\<lparr>o_hid := k\<rparr>) m, []))"
| "exec_worker c d (MapInsert k) m = Inr (m\<lparr>m_shared := registerWDHandle k d (m_shared m)\<rparr>, [])"
| "exec_worker c d TestGenerated m =
     Inr (m, if collectionsGenerated (m_shared m) then [] else [SetGenerated, CreateCollections])"
| "exec_worker c d SetGenerated m = Inr (m\<lparr>m_shared := (m_shared m)\<lparr>collectionsGenerated := True\<rparr>\<rparr>, [])"
| "exec_worker c d CreateCollections m = Inr (m\<lparr>makers := makers m @ [WorkerThread d]\<rparr>, [])"
| "exec_worker c d (IfOperation i) m =
     rbind (obj_of d m) (\<lambda>ob.
       Inr (m, if o_handle ob = None then [] else getDatasetById_code i @ (if c = Yes then [EnterOp, Poll] else [])))"
| "exec_worker c d (FindDataset i) m = Inr (m\<lparr>m_shared := snd (dsmap_at i (m_shared m))\<rparr>, [])"
| "exec_worker c d EnterOp m =
     rbind (obj_of d m) (\<lambda>ob. rbind (handle_of ob m) (\<lambda>(a, _). Inr (m\<lparr>handles := (handles m)(a \<mapsto> False)\<rparr>, [])))"
| "exec_worker c d Poll m =
     rbind (obj_of d m) (\<lambda>ob. rbind (handle_of ob m) (\<lambda>(_, cancelled).
       Inr (m, if cancelled \<or> c \<noteq> Yes then [] else [Poll])))"
| "exec_worker c d IfHid m =
     rbind (obj_of d m) (\<lambda>ob.
       Inr (m, if o_hid ob \<noteq> 0 then unregisterWDHandle_code (o_hid ob) @ [ClearHid] else []))"
| "exec_worker c d (MapErase k) m = Inr (m\<lparr>m_shared := unregisterWDHandle k (m_shared m)\<rparr>, [])"
| "exec_worker c d ClearHid m = rbind (obj_of d m) (\<lambda>ob. Inr (put_obj d (ob\<lparr>o_hid := 0\<rparr>) m, []))"
| "exec_worker c d IfOwnHandle m =
     rbind (obj_of d m) (\<lambda>ob.
       Inr (m, if o_handle ob \<noteq> None then [CancelHandle d, DeleteHandle, NullHandle] else []))"
| "exec_worker c d (CancelHandle e) m =
     rbind (obj_of e m) (\<lambda>ob. rbind (handle_of ob m) (\<lambda>(a, _). Inr (m\<lparr>handles := (handles m)(a \<mapsto> True)\<rparr>, [])))"
| "exec_worker c d DeleteHandle m =
     rbind (obj_of d m) (\<lambda>ob. rbind (handle_of ob m) (\<lambda>(a, _). Inr (m\<lparr>handles := (handles m)(a := None)\<rparr>, [])))"
| "exec_worker c d NullHandle m = rbind (obj_of d m) (\<lambda>ob. Inr (put_obj d (ob\<lparr>o_handle := None\<rparr>) m, []))"
| "exec_worker c d i m = Inl AssertFailed"

definition exec :: "choice \<Rightarrow> thread_id \<Rightarrow> instr \<Rightarrow> 'j memory \<Rightarrow> ('j memory \<times> instr list) run" where
  "exec c t i m =
     (case i of
        LockI mx \<Rightarrow> rbind (mutex_lock t mx m) (\<lambda>m'. Inr (m', []))
      | UnlockI mx \<Rightarrow> rbind (mutex_unlock mx m) (\<lambda>m'. Inr (m', []))
      | _ \<Rightarrow> (case t of MainThread \<Rightarrow> exec_main c i m | WorkerThread d \<Rightarrow> exec_worker c d i m))"

section \<open>Steps\<close>

record 'j threads =
  mem :: "'j memory"
  prog :: "thread_id \<Rightarrow> instr list"

text \<open>A lock that a thread has is waited for, and so is a future whose callback has not been called.\<close>

definition enabled :: "instr \<Rightarrow> 'j memory \<Rightarrow> bool" where
  "enabled i m = (case i of
      LockI mx \<Rightarrow> held m mx = None
    | AwaitOpen f \<Rightarrow> futures m f \<noteq> Pending
    | AwaitBucket f \<Rightarrow> futures m f \<noteq> Pending
    | _ \<Rightarrow> True)"

text \<open>A thread of the client calls a callback it was given: the promise is set.\<close>

definition answer_future :: "nat \<Rightarrow> bool \<Rightarrow> 'j memory \<Rightarrow> 'j memory" where
  "answer_future f ok m = m\<lparr>futures := (futures m)(f := Ready ok)\<rparr>"

definition may_answer :: "nat \<Rightarrow> 'j memory \<Rightarrow> bool" where
  "may_answer f m \<longleftrightarrow> f < next_future m \<and> futures m f = Pending"

text \<open>
  A choice that may be made: \<open>K\<close> are the handle numbers clients use, and a thread that has
  not ended is reported alive.
\<close>

definition may_choose :: "64 word set \<Rightarrow> (thread_id \<Rightarrow> instr list) \<Rightarrow> instr \<Rightarrow> choice \<Rightarrow> bool" where
  "may_choose K p i c \<longleftrightarrow> (case c of CNewHandle k use \<Rightarrow> k \<in> K | _ \<Rightarrow> True) \<and>
     (case i of CollectWorker d \<Rightarrow> c = Yes \<longrightarrow> p (WorkerThread d) = [] | _ \<Rightarrow> True)"

text \<open>A new worker's thread starts with its loop.\<close>

definition start_worker :: "instr \<Rightarrow> 'j memory \<Rightarrow> (thread_id \<Rightarrow> instr list) \<Rightarrow> thread_id \<Rightarrow> instr list" where
  "start_worker i m p = (if i = SpawnWorker then p(WorkerThread (next_obj m) := [SelectLoop]) else p)"

inductive tstep :: "64 word set \<Rightarrow> 'j threads \<Rightarrow> 'j threads \<Rightarrow> bool" for K :: "64 word set" where
  thread_step: "p t = i # rest \<Longrightarrow> enabled i m \<Longrightarrow> may_choose K p i c \<Longrightarrow> exec c t i m = Inr (m', front) \<Longrightarrow>
    tstep K \<lparr>mem = m, prog = p\<rparr> \<lparr>mem = m', prog = (start_worker i m p)(t := front @ rest)\<rparr>"
| client_step: "may_answer f m \<Longrightarrow> tstep K \<lparr>mem = m, prog = p\<rparr> \<lparr>mem = answer_future f ok m, prog = p\<rparr>"

definition threads_new :: "'j threads" where
  "threads_new = \<lparr>mem = memory_new, prog = (\<lambda>t. case t of MainThread \<Rightarrow> [MainLoop] | WorkerThread _ \<Rightarrow> [])\<rparr>"

inductive treach :: "64 word set \<Rightarrow> 'j threads \<Rightarrow> bool" for K :: "64 word set" where
  treach_start: "treach K threads_new"
| treach_step: "treach K s \<Longrightarrow> tstep K s s' \<Longrightarrow> treach K s'"

text \<open>A thread whose next instruction is not waiting and stops the process.\<close>

definition crashes :: "'j threads \<Rightarrow> bool" where
  "crashes s \<longleftrightarrow> (\<exists>t i rest c h. prog s t = i # rest \<and> enabled i (mem s) \<and> exec c t i (mem s) = Inl h)"

end
