(* ===== verification/ThreadInv.thy ===== *)
theory ThreadInv
  imports Threads
begin

text \<open>
  The invariant of the threads: locks and the code of their owners agree, and what is left of a
  thread's code is safe to run in the state it is in. The second is a function of the code, one
  assertion for each instruction, over the four facts about a worker only its own thread makes
  true: whether it has a handle, whether the handle is in memory, its number, and whether the
  registry names it.
\<close>

section \<open>Futures\<close>

text \<open>A new promise, and a callback that sets one, touch nothing the invariant speaks of.\<close>

lemma new_future_simps [simp]:
  "held (new_future m) = held m" "objs (new_future m) = objs m" "kids (new_future m) = kids m"
  "next_obj (new_future m) = next_obj m" "next_handle (new_future m) = next_handle m"
  "m_shared (new_future m) = m_shared m" "handles (new_future m) = handles m"
  "opens (new_future m) = opens m" "bucket_opens (new_future m) = bucket_opens m"
  "open_calls (new_future m) = open_calls m" "next_future (new_future m) = Suc (next_future m)"
  by (simp_all add: new_future_def)

lemma answer_future_simps [simp]:
  "held (answer_future f ok m) = held m" "objs (answer_future f ok m) = objs m" "kids (answer_future f ok m) = kids m"
  "next_obj (answer_future f ok m) = next_obj m" "next_handle (answer_future f ok m) = next_handle m"
  "m_shared (answer_future f ok m) = m_shared m" "handles (answer_future f ok m) = handles m"
  "opens (answer_future f ok m) = opens m" "bucket_opens (answer_future f ok m) = bucket_opens m"
  "open_calls (answer_future f ok m) = open_calls m" "next_future (answer_future f ok m) = next_future m"
  by (simp_all add: answer_future_def)

section \<open>Locks\<close>

text \<open>The mutex a thread holds, read off what it still has to run.\<close>

fun held_by :: "instr list \<Rightarrow> mutex option" where
  "held_by [] = None"
| "held_by (LockI mx # is) = None"
| "held_by (UnlockI mx # is) = Some mx"
| "held_by (i # is) = held_by is"

text \<open>Instructions that put locks before the rest, or loop, are not run under a lock.\<close>

fun opens_section :: "instr \<Rightarrow> bool" where
  "opens_section (FindWorker k) = True"
| "opens_section DestroyTest = True"
| "opens_section (IfNoHandle k use) = True"
| "opens_section (IfOpen k use) = True"
| "opens_section (IfOperation i) = True"
| "opens_section IfHid = True"
| "opens_section (CollectWorker d) = True"
| "opens_section SpawnWorker = True"
| "opens_section Poll = True"
| "opens_section MainLoop = True"
| "opens_section SelectLoop = True"
| "opens_section _ = False"

fun bracketed :: "mutex option \<Rightarrow> instr list \<Rightarrow> bool" where
  "bracketed h [] \<longleftrightarrow> h = None"
| "bracketed h (LockI mx # is) \<longleftrightarrow> h = None \<and> bracketed (Some mx) is"
| "bracketed h (UnlockI mx # is) \<longleftrightarrow> h = Some mx \<and> bracketed None is"
| "bracketed h (i # is) \<longleftrightarrow> (opens_section i \<longrightarrow> h = None) \<and> bracketed h is"

lemma bracketed_held_by: "bracketed h is \<Longrightarrow> held_by is = h"
  by (induction h "is" rule: bracketed.induct) auto

text \<open>Code in front of the rest: a part that changes no lock, or sections of its own.\<close>

fun lock_free :: "instr \<Rightarrow> bool" where
  "lock_free (LockI mx) = False"
| "lock_free (UnlockI mx) = False"
| "lock_free i = (\<not> opens_section i)"

lemma bracketed_append: "bracketed h xs' \<Longrightarrow> bracketed None is \<Longrightarrow> bracketed h (xs' @ is)"
  by (induction h xs' rule: bracketed.induct) auto

lemma bracketed_lock_free: "\<forall>i \<in> set xs'. lock_free i \<Longrightarrow> bracketed h (xs' @ is) = bracketed h is"
proof (induction xs')
  case (Cons i xs')
  then show ?case by (cases i) auto
qed simp

lemma bracketed_codes [simp]:
  "bracketed None (cancelCurrentHandle_code d)" "bracketed None (collect_workers_code ds)"
  "bracketed None (destroy_code ds)" "bracketed None ensureCluster_code" "bracketed None (registerWDHandle_code k)"
  "bracketed None (unregisterWDHandle_code k)" "bracketed None (open_handle_code k use)"
  "bracketed None (initializeHandle_code k use)" "bracketed None (getDatasetById_code i)" "bracketed None (run_end_code d)"
proof -
  show c: "bracketed None (cancelCurrentHandle_code d)" for d by (simp add: cancelCurrentHandle_code_def)
  show k: "bracketed None (collect_workers_code ds)" for ds by (induction ds) (simp_all add: collect_workers_code_def)
  have "bracketed None (concat (map cancelCurrentHandle_code ds))" by (induction ds) (simp_all add: c bracketed_append)
  then show "bracketed None (destroy_code ds)" by (simp add: destroy_code_def k bracketed_append)
qed (simp_all add: ensureCluster_code_def registerWDHandle_code_def unregisterWDHandle_code_def open_handle_code_def
    initializeHandle_code_def getDatasetById_code_def run_end_code_def)

text \<open>
  An instruction that does not lock or unlock runs under the same lock after it as before, with
  whatever it puts in front.
\<close>

lemma exec_main_bracketed:
  assumes "exec_main c i m = Inr (m', front)" and "bracketed h (i # rest)"
  shows "bracketed h (front @ rest)"
proof (cases i)
  case MainLoop
  with assms show ?thesis by (auto split: choice.splits intro!: bracketed_append)
next
  case (FindWorker k)
  with assms show ?thesis by (auto simp: Let_def split: option.splits prod.splits intro!: bracketed_append)
next
  case DestroyTest
  with assms show ?thesis by (auto split: if_splits intro!: bracketed_append)
qed (use assms in \<open>auto simp: rbind_eq_Inr split: if_splits\<close>)

lemma exec_worker_bracketed:
  assumes "exec_worker c d i m = Inr (m', front)" and "bracketed h (i # rest)"
  shows "bracketed h (front @ rest)"
proof (cases i)
  case SelectLoop
  with assms show ?thesis by (auto split: choice.splits intro!: bracketed_append)
next
  case (IfNoHandle k use)
  have "bracketed None (ensureCluster_code @ IfOpen k use # rest)" if "bracketed None rest"
    using bracketed_append [of None "ensureCluster_code" "IfOpen k use # rest"] that by simp
  with IfNoHandle assms show ?thesis by (auto simp: rbind_eq_Inr split: if_splits)
next
  case (IfOperation x)
  have "bracketed None (getDatasetById_code x @ EnterOp # Poll # rest)" "bracketed None (getDatasetById_code x @ rest)"
    if "bracketed None rest" using that by (auto intro!: bracketed_append)
  with IfOperation assms show ?thesis by (auto simp: rbind_eq_Inr split: if_splits)
next
  case IfHid
  have "bracketed None (unregisterWDHandle_code k @ ClearHid # rest)" if "bracketed None rest" for k
    using that by (auto intro!: bracketed_append)
  with IfHid assms show ?thesis by (auto simp: rbind_eq_Inr split: if_splits)
next
  case (IfOpen k use)
  with assms show ?thesis by (auto split: if_splits intro!: bracketed_append)
qed (use assms in \<open>auto simp: rbind_eq_Inr Let_def split: if_splits\<close>)

fun lock_after :: "instr \<Rightarrow> mutex option \<Rightarrow> mutex option" where
  "lock_after (LockI mx) h = Some mx"
| "lock_after (UnlockI mx) h = None"
| "lock_after i h = h"

lemma exec_bracketed:
  assumes "exec c t i m = Inr (m', front)" and "bracketed h (i # rest)"
  shows "bracketed (lock_after i h) (front @ rest)"
proof -
  have "bracketed h (front @ rest)" if "\<not> (\<exists>mx. i = LockI mx \<or> i = UnlockI mx)"
    using that assms exec_main_bracketed [OF _ assms(2)] exec_worker_bracketed [OF _ assms(2)]
    by (cases t; cases i) (auto simp: exec_def)
  with assms show ?thesis by (cases i) (auto simp: exec_def rbind_eq_Inr)
qed

text \<open>Exactly the lock instructions change who holds what.\<close>

definition held_after :: "thread_id \<Rightarrow> instr \<Rightarrow> (mutex \<Rightarrow> thread_id option) \<Rightarrow> mutex \<Rightarrow> thread_id option" where
  "held_after t i f = (case i of LockI mx \<Rightarrow> f(mx := Some t) | UnlockI mx \<Rightarrow> f(mx := None) | _ \<Rightarrow> f)"

lemma exec_held: "exec c t i m = Inr (m', front) \<Longrightarrow> held m' = held_after t i (held m)"
  by (cases t; cases i)
    (auto simp: exec_def held_after_def rbind_eq_Inr mutex_lock_def mutex_unlock_def put_obj_def Let_def
      split: if_splits choice.splits prod.splits)

definition locks_ok :: "'j threads \<Rightarrow> bool" where
  "locks_ok s \<longleftrightarrow> (\<forall>t. bracketed (held_by (prog s t)) (prog s t)) \<and>
     (\<forall>mx t. held (mem s) mx = Some t \<longleftrightarrow> held_by (prog s t) = Some mx)"

lemma start_worker_ok:
  assumes "locks_ok \<lparr>mem = m, prog = p\<rparr>" and "i = SpawnWorker \<Longrightarrow> p (WorkerThread (next_obj m)) = []"
  shows "locks_ok \<lparr>mem = m, prog = start_worker i m p\<rparr>"
  using assms by (auto simp: locks_ok_def start_worker_def)

lemma exec_locks_ok:
  assumes ok: "locks_ok \<lparr>mem = m, prog = p\<rparr>" and p: "p t = i # rest" and en: "enabled i m"
    and ex: "exec c t i m = Inr (m', front)"
  shows "locks_ok \<lparr>mem = m', prog = p(t := front @ rest)\<rparr>"
proof -
  let ?h = "held_by (i # rest)"
  have b: "bracketed ?h (i # rest)" using ok by (simp add: locks_ok_def p [symmetric])
  from exec_bracketed [OF ex b] have b': "bracketed (lock_after i ?h) (front @ rest)" .
  then have h': "held_by (front @ rest) = lock_after i ?h" by (rule bracketed_held_by)
  have own: "held m mx = Some t \<longleftrightarrow> ?h = Some mx" for mx
    using ok by (simp add: locks_ok_def p [symmetric])
  have "held m' mx = Some t' \<longleftrightarrow> held_by ((p(t := front @ rest)) t') = Some mx" for mx t'
  proof (cases "t' = t")
    case True
    with own [of mx] b h' show ?thesis
      by (cases i) (auto simp: exec_held [OF ex] held_after_def)
  next
    case False
    have other: "held m mx = Some t' \<longleftrightarrow> held_by (p t') = Some mx" using ok by (auto simp: locks_ok_def)
    show ?thesis
    proof (cases i)
      case (LockI nx)
      with en have "held m nx = None" by (simp add: enabled_def)
      with False other LockI show ?thesis by (auto simp: exec_held [OF ex] held_after_def)
    next
      case (UnlockI nx)
      with own [of nx] have "held m nx = Some t" by simp
      with False other UnlockI show ?thesis by (auto simp: exec_held [OF ex] held_after_def)
    qed (use False other in \<open>simp_all add: exec_held [OF ex] held_after_def\<close>)
  qed
  moreover have "bracketed (held_by ((p(t := front @ rest)) t')) ((p(t := front @ rest)) t')" for t'
    using ok b' h' by (cases "t' = t") (simp_all add: locks_ok_def)
  ultimately show ?thesis by (simp add: locks_ok_def)
qed

section \<open>Workers\<close>

text \<open>
  The assertion on a worker's code: it has a handle; the handle is in memory (or there is none); its
  number; the registry names it. At its end a thread has neither handle nor number.
\<close>

fun wsafe :: "nat \<Rightarrow> instr list \<Rightarrow> bool \<Rightarrow> bool \<Rightarrow> 64 word \<Rightarrow> bool \<Rightarrow> bool" where
  "wsafe d [] h l n w \<longleftrightarrow> \<not> h \<and> n = 0"
| "wsafe d (i # is) h l n w \<longleftrightarrow> (l \<or> i = NullHandle) \<and>
    (case i of
       LockI mx \<Rightarrow> mx \<in> {WMutex, DsMutex, HMutex d} \<and> wsafe d is h l n w
     | UnlockI mx \<Rightarrow> mx \<in> {WMutex, DsMutex, HMutex d} \<and> wsafe d is h l n w
     | SelectLoop \<Rightarrow> is = [] \<and> (h \<or> n = 0)
     | IfNoHandle k use \<Rightarrow> k \<noteq> 0 \<and> (h \<or> n = 0) \<and> wsafe d is h l n w \<and> wsafe d is True True k True
     | IfOpen k use \<Rightarrow> k \<noteq> 0 \<and> \<not> h \<and> n = 0 \<and> wsafe d is h l n w \<and> wsafe d is True True k True
     | NewHandle \<Rightarrow> \<not> h \<and> wsafe d is True True n w
     | SetHid k \<Rightarrow> k \<noteq> 0 \<and> n = 0 \<and> \<not> w \<and> wsafe d is h l k w
     | MapInsert k \<Rightarrow> k \<noteq> 0 \<and> n = k \<and> \<not> w \<and> wsafe d is h l n True
     | EnterOp \<Rightarrow> h \<and> wsafe d is h l n w
     | Poll \<Rightarrow> h \<and> wsafe d is h l n w
     | IfOperation x \<Rightarrow> wsafe d is h l n w
     | IfHid \<Rightarrow> wsafe d is h l 0 False
     | MapErase k \<Rightarrow> n = k \<and> wsafe d is h l n False
     | ClearHid \<Rightarrow> \<not> w \<and> wsafe d is h l 0 w
     | IfOwnHandle \<Rightarrow> (\<exists>js. is = UnlockI (HMutex d) # js) \<and> wsafe d is False True n w
     | CancelHandle e \<Rightarrow> e = d \<and> h \<and> wsafe d is h l n w
     | DeleteHandle \<Rightarrow> h \<and> (\<exists>js. is = NullHandle # js) \<and> wsafe d is h False n w
     | NullHandle \<Rightarrow> (\<exists>js. is = UnlockI (HMutex d) # js) \<and> wsafe d is False True n w
     | TestInitialized \<Rightarrow> wsafe d is h l n w
     | OpenCluster \<Rightarrow> wsafe d is h l n w
     | OpenBucket \<Rightarrow> wsafe d is h l n w
     | AwaitOpen f \<Rightarrow> wsafe d is h l n w
     | AwaitBucket f \<Rightarrow> wsafe d is h l n w
     | SetInitialized \<Rightarrow> wsafe d is h l n w
     | TestGenerated \<Rightarrow> wsafe d is h l n w
     | SetGenerated \<Rightarrow> wsafe d is h l n w
     | CreateCollections \<Rightarrow> wsafe d is h l n w
     | FindDataset x \<Rightarrow> wsafe d is h l n w
     | _ \<Rightarrow> False)"

text \<open>Another worker may take over the number in the registry at any time.\<close>

lemma wsafe_lost: "wsafe d is h l n w \<Longrightarrow> wsafe d is h l n False"
proof (induction "is" arbitrary: h l n w)
  case (Cons i "is")
  then show ?case by (cases i) auto
qed simp

lemma wsafe_owner: "wsafe d is h l n w \<Longrightarrow> w' \<longrightarrow> w \<Longrightarrow> wsafe d is h l n w'"
  using wsafe_lost by (cases w'; cases w) auto

text \<open>A handle is out of memory only between its deletion and the end of the section it is in.\<close>

lemma wsafe_dead: "wsafe d is h False n w \<Longrightarrow> h \<Longrightarrow> held_by is = Some (HMutex d)"
  by (cases "is") auto

text \<open>The four facts in a memory, and the invariants of the registry and of the handles.\<close>

definition in_memory :: "worker_obj \<Rightarrow> 'j memory \<Rightarrow> bool" where
  "in_memory ob m = (case o_handle ob of None \<Rightarrow> True | Some a \<Rightarrow> handles m a \<noteq> None)"

definition named_by :: "nat \<Rightarrow> 'j memory \<Rightarrow> bool" where
  "named_by d m \<longleftrightarrow> (\<exists>k. owners (m_shared m) k = Some d)"

definition worker_ok :: "nat \<Rightarrow> instr list \<Rightarrow> 'j memory \<Rightarrow> bool" where
  "worker_ok d js m \<longleftrightarrow> (\<forall>ob. objs m d = Some ob \<longrightarrow>
     wsafe d js (o_handle ob \<noteq> None) (in_memory ob m) (o_hid ob) (named_by d m))"

definition named_ok :: "'j memory \<Rightarrow> bool" where
  "named_ok m \<longleftrightarrow> (\<forall>k d. owners (m_shared m) k = Some d \<longrightarrow> k \<noteq> 0 \<and>
     (\<exists>ob. objs m d = Some ob \<and> o_hid ob = k))"

definition handles_ok :: "'j memory \<Rightarrow> bool" where
  "handles_ok m \<longleftrightarrow> (\<forall>d ob a. objs m d = Some ob \<longrightarrow> o_handle ob = Some a \<longrightarrow>
     a < next_handle m \<and> (\<forall>d' ob'. objs m d' = Some ob' \<longrightarrow> o_handle ob' = Some a \<longrightarrow> d' = d))"

lemma in_memory_simps [simp]:
  "in_memory ob (m\<lparr>objs := f\<rparr>) = in_memory ob m" "in_memory (ob\<lparr>o_hid := k\<rparr>) m = in_memory ob m"
  "in_memory (ob\<lparr>o_handle := None\<rparr>) m" "o_handle ob = None \<Longrightarrow> in_memory ob m"
  by (simp_all add: in_memory_def split: option.split)

text \<open>What a worker's step leaves to the others.\<close>

definition others_kept :: "nat \<Rightarrow> 'j memory \<Rightarrow> 'j memory \<Rightarrow> bool" where
  "others_kept d m m' \<longleftrightarrow> kids m' = kids m \<and> next_obj m' = next_obj m \<and> (objs m' d = None \<longleftrightarrow> objs m d = None) \<and>
     (\<forall>e. e \<noteq> d \<longrightarrow> objs m' e = objs m e \<and> (named_by e m' \<longrightarrow> named_by e m) \<and>
        (\<forall>ob. objs m e = Some ob \<longrightarrow> in_memory ob m' = in_memory ob m))"

definition worker_step_ok :: "nat \<Rightarrow> instr list \<Rightarrow> 'j memory \<Rightarrow> 'j memory \<Rightarrow> bool" where
  "worker_step_ok d js m m' \<longleftrightarrow> worker_ok d js m' \<and> named_ok m' \<and> handles_ok m' \<and> others_kept d m m'"

lemmas worker_defs = worker_step_ok_def worker_ok_def named_ok_def handles_ok_def others_kept_def in_memory_def

lemma named_okD: "named_ok m \<Longrightarrow> owners (m_shared m) k = Some d \<Longrightarrow> objs m d = Some ob \<Longrightarrow> k \<noteq> 0 \<and> o_hid ob = k"
  unfolding named_ok_def by fastforce

lemma named_by_num: "named_ok m \<Longrightarrow> objs m d = Some ob \<Longrightarrow> named_by d m \<Longrightarrow> o_hid ob \<noteq> 0"
  using named_okD by (auto simp: named_by_def)

lemmas section_codes = ensureCluster_code_def open_handle_code_def registerWDHandle_code_def
  unregisterWDHandle_code_def getDatasetById_code_def run_end_code_def initializeHandle_code_def

lemma owners_initialized [simp]: "owners (sh\<lparr>cluster_initialized := b\<rparr>) = owners sh"
  by (simp add: owners_def fun_eq_iff)

text \<open>Steps that only choose the code that follows.\<close>

lemma worker_step_code:
  assumes "objs m d = Some ob" and "named_ok m" and "handles_ok m"
    and "wsafe d js (o_handle ob \<noteq> None) (in_memory ob m) (o_hid ob) (named_by d m)"
    and "objs m' = objs m" and "handles m' = handles m" and "next_handle m' = next_handle m" and "kids m' = kids m"
    and "next_obj m' = next_obj m" and "owners (m_shared m') = owners (m_shared m)"
  shows "worker_step_ok d js m m'"
proof -
  have mem: "in_memory ob' m' = in_memory ob' m" for ob' by (simp add: in_memory_def assms(6) split: option.split)
  have named: "named_by e m' = named_by e m" for e by (simp add: named_by_def assms(10))
  have "handles_ok m' = handles_ok m" by (simp add: handles_ok_def assms(5,7))
  moreover have "named_ok m' = named_ok m" by (simp add: named_ok_def assms(5,10))
  moreover have "worker_ok d js m'" using assms(1,4) by (simp add: worker_ok_def mem named assms(5))
  moreover have "others_kept d m m'" by (simp add: others_kept_def mem named assms(5,8,9))
  ultimately show ?thesis using assms(2,3) by (simp add: worker_step_ok_def)
qed

lemma worker_branches:
  assumes ob: "objs m d = Some ob" and ok: "named_ok m" "handles_ok m"
    and safe: "wsafe d (i # rest) (o_handle ob \<noteq> None) (in_memory ob m) (o_hid ob) (named_by d m)"
    and ch: "may_choose K p i c" "0 \<notin> K" and ex: "exec_worker c d i m = Inr (m', front)"
    and i: "i \<in> {SelectLoop, TestInitialized, OpenCluster, OpenBucket, SetInitialized, TestGenerated, SetGenerated,
      CreateCollections, IfHid, IfOwnHandle, Poll} \<or> (\<exists>k u. i = IfNoHandle k u) \<or> (\<exists>k u. i = IfOpen k u) \<or>
      (\<exists>x. i = IfOperation x) \<or> (\<exists>x. i = FindDataset x) \<or> (\<exists>f. i = AwaitOpen f) \<or> (\<exists>f. i = AwaitBucket f)"
  shows "worker_step_ok d (front @ rest) m m'"
proof (rule worker_step_code [OF ob ok])
  have num: "\<not> named_by d m" if "o_hid ob = 0" using named_by_num [OF ok(1) ob] that by blast
  have k: "c = CNewHandle k use \<Longrightarrow> k \<noteq> 0" for k use using ch by (auto simp: may_choose_def)
  have live: "in_memory ob m" if "o_handle ob = None" using that by (simp add: in_memory_def)
  show "wsafe d (front @ rest) (o_handle ob \<noteq> None) (in_memory ob m) (o_hid ob) (named_by d m)"
    using i safe ex ob num k live
    by (elim disjE insertE exE)
      (auto simp: section_codes obj_of_def handle_of_def rbind_eq_Inr wsafe_lost Let_def split: if_splits choice.splits option.splits)
qed (use i ex in \<open>elim disjE insertE exE; force simp: obj_of_def rbind_eq_Inr new_future_def Let_def split: if_splits choice.splits\<close>)+

text \<open>Steps that write the worker's object, the registry or the memory of its handle.\<close>

lemma worker_step_object:
  assumes ob: "objs m d = Some ob" and ok: "named_ok m" "handles_ok m"
    and m': "objs m' = (objs m)(d \<mapsto> ob')" "m_shared m' = m_shared m" "kids m' = kids m" "next_obj m' = next_obj m"
    and new: "o_handle ob' = o_handle ob \<or> o_handle ob' = None \<or>
      o_handle ob' = Some (next_handle m) \<and> next_handle m' = Suc (next_handle m)"
    and hs: "next_handle m \<le> next_handle m'" "\<And>a. a < next_handle m \<Longrightarrow> handles m' a = handles m a"
    and num: "o_hid ob' = o_hid ob \<or> \<not> named_by d m"
    and safe: "wsafe d js (o_handle ob' \<noteq> None) (in_memory ob' m') (o_hid ob') (named_by d m)"
  shows "worker_step_ok d js m m'"
proof -
  have named: "named_by e m' = named_by e m" for e by (simp add: named_by_def m')
  have below: "a < next_handle m" if "objs m e = Some oe" "o_handle oe = Some a" for a e oe
    using ok(2) that unfolding handles_ok_def by blast
  have one: "e' = e" if "objs m e = Some oe" "o_handle oe = Some a" "objs m e' = Some oe'" "o_handle oe' = Some a"
    for a e oe e' oe' using ok(2) that unfolding handles_ok_def by blast
  have other: "in_memory oe m' = in_memory oe m" if "objs m e = Some oe" for e oe
    using hs(2) below [OF that] by (auto simp: in_memory_def split: option.split)
  have "named_ok m'"
    unfolding named_ok_def
  proof (intro allI impI)
    fix k e
    assume "owners (m_shared m') k = Some e"
    then have e: "owners (m_shared m) k = Some e" by (simp add: m')
    then obtain oe where "objs m e = Some oe" "k \<noteq> 0" "o_hid oe = k" using ok(1) by (auto simp: named_ok_def)
    then show "k \<noteq> 0 \<and> (\<exists>oe. objs m' e = Some oe \<and> o_hid oe = k)"
      using e num ob by (auto simp: m' named_by_def)
  qed
  moreover have "handles_ok m'"
    unfolding handles_ok_def
  proof (intro allI impI)
    fix e oe a
    assume e: "objs m' e = Some oe" "o_handle oe = Some a"
    have old: "a = next_handle m \<and> e' = d \<and> next_handle m' = Suc (next_handle m) \<or> (\<exists>o2. objs m e' = Some o2 \<and> o_handle o2 = Some a)"
      if "objs m' e' = Some oe'" "o_handle oe' = Some a" for e' oe'
      using that new ob by (auto simp: m' split: if_splits)
    from old [OF e] show "a < next_handle m' \<and> (\<forall>e' oe'. objs m' e' = Some oe' \<longrightarrow> o_handle oe' = Some a \<longrightarrow> e' = e)"
    proof (elim disjE conjE exE)
      assume "a = next_handle m" "e = d" "next_handle m' = Suc (next_handle m)"
      then show ?thesis using old below by (metis lessI less_irrefl)
    next
      fix o2
      assume o2: "objs m e = Some o2" "o_handle o2 = Some a"
      from below [OF o2] hs(1) old one [OF o2] show ?thesis by (metis less_le_trans less_irrefl)
    qed
  qed
  ultimately show ?thesis
    using safe other named by (simp add: worker_step_ok_def worker_ok_def others_kept_def m' ob)
qed

lemma worker_object:
  assumes ob: "objs m d = Some ob" and ok: "named_ok m" "handles_ok m"
    and safe: "wsafe d (i # rest) (o_handle ob \<noteq> None) (in_memory ob m) (o_hid ob) (named_by d m)"
    and ex: "exec_worker c d i m = Inr (m', front)" and i: "i \<in> {NewHandle, ClearHid, NullHandle} \<or> (\<exists>k. i = SetHid k)"
  shows "worker_step_ok d (front @ rest) m m'"
  using i
proof (elim disjE insertE exE emptyE)
  assume [simp]: "i = NewHandle"
  from safe ex ob show ?thesis
    by (intro worker_step_object [OF ob ok, where ob' = "ob\<lparr>o_handle := Some (next_handle m)\<rparr>"])
      (auto simp: obj_of_def put_obj_def in_memory_def)
next
  assume [simp]: "i = ClearHid"
  from safe ex ob show ?thesis
    by (intro worker_step_object [OF ob ok, where ob' = "ob\<lparr>o_hid := 0\<rparr>"])
      (auto simp: obj_of_def put_obj_def)
next
  assume [simp]: "i = NullHandle"
  from safe ex ob show ?thesis
    by (intro worker_step_object [OF ob ok, where ob' = "ob\<lparr>o_handle := None\<rparr>"])
      (auto simp: obj_of_def put_obj_def)
next
  fix k
  assume [simp]: "i = SetHid k"
  from safe ex ob show ?thesis
    by (intro worker_step_object [OF ob ok, where ob' = "ob\<lparr>o_hid := k\<rparr>"])
      (auto simp: obj_of_def put_obj_def)
qed

lemma worker_registry:
  assumes ob: "objs m d = Some ob" and ok: "named_ok m" "handles_ok m"
    and safe: "wsafe d (i # rest) (o_handle ob \<noteq> None) (in_memory ob m) (o_hid ob) (named_by d m)"
    and ex: "exec_worker c d i m = Inr (m', front)" and i: "(\<exists>k. i = MapInsert k) \<or> (\<exists>k. i = MapErase k)"
  shows "worker_step_ok d (front @ rest) m m'"
proof -
  have same: "objs m' = objs m" "handles m' = handles m" "next_handle m' = next_handle m" "kids m' = kids m"
    "next_obj m' = next_obj m" "front = []" using i ex by auto
  have mem: "in_memory oe m' = in_memory oe m" for oe by (simp add: in_memory_def same split: option.split)
  have h: "handles_ok m' = handles_ok m" by (simp add: handles_ok_def same)
  from i show ?thesis
  proof (elim disjE exE)
    fix k
    assume i: "i = MapInsert k"
    with ex have o': "owners (m_shared m') = (owners (m_shared m))(k \<mapsto> d)" by auto
    have "named_by e m' \<longrightarrow> named_by e m" if "e \<noteq> d" for e using that by (auto simp: named_by_def o')
    moreover have "named_ok m'" using ok(1) safe ob by (auto simp: named_ok_def o' same i)
    moreover have "wsafe d rest (o_handle ob \<noteq> None) (in_memory ob m) (o_hid ob) (named_by d m')"
      using safe by (auto simp: i intro: wsafe_owner)
    ultimately show ?thesis
      using ok(2) h ob by (simp add: worker_step_ok_def worker_ok_def others_kept_def mem same)
  next
    fix k
    assume i: "i = MapErase k"
    with ex have o': "owners (m_shared m') = (owners (m_shared m))(k := None)" by auto
    have less: "named_by e m' \<longrightarrow> named_by e m" for e by (auto simp: named_by_def o' split: if_splits)
    moreover have "named_ok m'" using ok(1) by (auto simp: named_ok_def o' same split: if_splits)
    moreover have "\<not> named_by d m'"
      using named_okD [OF ok(1) _ ob] safe by (auto simp: named_by_def o' i split: if_splits)
    ultimately show ?thesis
      using ok(2) h ob safe by (auto simp: worker_step_ok_def worker_ok_def others_kept_def mem same i)
  qed
qed

lemma worker_handle:
  assumes ob: "objs m d = Some ob" and ok: "named_ok m" "handles_ok m"
    and safe: "wsafe d (i # rest) (o_handle ob \<noteq> None) (in_memory ob m) (o_hid ob) (named_by d m)"
    and ex: "exec_worker c d i m = Inr (m', front)" and i: "i \<in> {EnterOp, DeleteHandle} \<or> (\<exists>e. i = CancelHandle e)"
  shows "worker_step_ok d (front @ rest) m m'"
proof -
  obtain a where a: "o_handle ob = Some a" using i safe ob by auto
  define x where "x = (if i = DeleteHandle then None else Some (i \<noteq> EnterOp))"
  have m': "m' = m\<lparr>handles := (handles m)(a := x)\<rparr>" "front = []"
    using i safe ex ob a by (auto simp: obj_of_def handle_of_def rbind_eq_Inr x_def split: option.splits)
  have x: "x = None \<longleftrightarrow> i = DeleteHandle" by (simp add: x_def)
  have "in_memory oe m' = in_memory oe m" if "e \<noteq> d" "objs m e = Some oe" for e oe
  proof -
    have "o_handle oe \<noteq> Some a" using ok(2) that ob a unfolding handles_ok_def by blast
    then show ?thesis by (simp add: in_memory_def m' split: option.split)
  qed
  moreover have "in_memory ob m' \<longleftrightarrow> i \<noteq> DeleteHandle" using x by (simp add: in_memory_def a m')
  moreover have "named_by e m' = named_by e m" for e by (simp add: named_by_def m')
  moreover have "named_ok m' = named_ok m" "handles_ok m' = handles_ok m"
    by (simp_all add: named_ok_def handles_ok_def m')
  moreover have "objs m' = objs m" "kids m' = kids m" "next_obj m' = next_obj m" by (simp_all add: m')
  ultimately show ?thesis
    using safe i ok by (auto simp: worker_step_ok_def worker_ok_def others_kept_def m'(2) ob a)
qed

lemma worker_exec:
  assumes ob: "objs m d = Some ob" and ok: "named_ok m" "handles_ok m"
    and safe: "wsafe d (i # rest) (o_handle ob \<noteq> None) (in_memory ob m) (o_hid ob) (named_by d m)"
    and ch: "may_choose K p i c" "0 \<notin> K" and ex: "exec c (WorkerThread d) i m = Inr (m', front)"
  shows "worker_step_ok d (front @ rest) m m'"
proof (cases "\<exists>mx. i = LockI mx \<or> i = UnlockI mx")
  case True
  then have same: "objs m' = objs m" "handles m' = handles m" "next_handle m' = next_handle m" "kids m' = kids m"
    "next_obj m' = next_obj m" "owners (m_shared m') = owners (m_shared m)" "front = []"
    using ex by (auto simp: exec_def mutex_lock_def mutex_unlock_def split: if_splits)
  from True safe have "wsafe d rest (o_handle ob \<noteq> None) (in_memory ob m) (o_hid ob) (named_by d m)" by auto
  from worker_step_code [OF ob ok this same(1-6)] show ?thesis by (simp add: same)
next
  case False
  then have ex': "exec_worker c d i m = Inr (m', front)" using ex by (cases i) (auto simp: exec_def)
  note rules = worker_branches [OF ob ok safe ch ex'] worker_object [OF ob ok safe ex']
    worker_registry [OF ob ok safe ex'] worker_handle [OF ob ok safe ex']
  show ?thesis using rules safe False by (cases i) auto
qed

text \<open>Safe code does not stop the process.\<close>

lemma worker_runs:
  assumes "objs m d = Some ob"
    and "wsafe d (i # rest) (o_handle ob \<noteq> None) (in_memory ob m) (o_hid ob) (named_by d m)"
  shows "exec c (WorkerThread d) i m \<noteq> Inl h"
  using assms
  by (cases i) (auto simp: exec_def mutex_lock_def mutex_unlock_def mutex_ok_def Let_def obj_of_def handle_of_def in_memory_def
      split: option.splits choice.splits mutex.splits)

section \<open>The control thread\<close>

text \<open>
  The objects the control thread still refers to exist; a collected object is not referred to
  after it, and a handle is used only in the section in which it was tested.
\<close>

fun starts_cancel :: "instr list \<Rightarrow> bool" where
  "starts_cancel (CancelHandle d # is) = True"
| "starts_cancel is = False"

fun msafe :: "nat set \<Rightarrow> instr list \<Rightarrow> bool" where
  "msafe D [] = True"
| "msafe D (i # is) \<longleftrightarrow> \<not> starts_cancel is \<and>
    (case i of
       LockI mx \<Rightarrow> (\<exists>d \<in> D. mx = HMutex d) \<and> msafe D is
     | UnlockI mx \<Rightarrow> (\<exists>d \<in> D. mx = HMutex d) \<and> msafe D is
     | IfHandle d \<Rightarrow> d \<in> D \<and> (\<exists>js. is = UnlockI (HMutex d) # js) \<and> msafe D is
     | CancelHandle d \<Rightarrow> d \<in> D \<and> (\<exists>js. is = UnlockI (HMutex d) # js) \<and> msafe D is
     | CollectWorker d \<Rightarrow> d \<in> D \<and> msafe (D - {d}) is
     | FindWorker k \<Rightarrow> msafe D is
     | SpawnWorker \<Rightarrow> msafe D is
     | MainLoop \<Rightarrow> is = []
     | DestroyTest \<Rightarrow> is = []
     | _ \<Rightarrow> False)"

lemma msafe_mono: "msafe D is \<Longrightarrow> D \<subseteq> D' \<Longrightarrow> msafe D' is"
proof (induction "is" arbitrary: D D')
  case (Cons i "is")
  then show ?case by (cases i) (auto dest: Cons.IH [of "D - {_}" "D' - {_}"])
qed simp

section \<open>The invariant\<close>

definition objs_ok :: "'j threads \<Rightarrow> bool" where
  "objs_ok s \<longleftrightarrow> distinct (kids (mem s)) \<and> set (kids (mem s)) = dom (objs (mem s)) \<and>
     (\<forall>d. objs (mem s) d \<noteq> None \<longrightarrow> d < next_obj (mem s)) \<and>
     (\<forall>d. prog s (WorkerThread d) \<noteq> [] \<longrightarrow> objs (mem s) d \<noteq> None)"

definition main_ok :: "'j threads \<Rightarrow> bool" where
  "main_ok s \<longleftrightarrow> msafe (dom (objs (mem s))) (prog s MainThread) \<and>
     (\<forall>d js. prog s MainThread = CancelHandle d # js \<longrightarrow>
        (\<exists>ob. objs (mem s) d = Some ob \<and> o_handle ob \<noteq> None))"

definition threads_ok :: "'j threads \<Rightarrow> bool" where
  "threads_ok s \<longleftrightarrow> locks_ok s \<and> objs_ok s \<and> main_ok s \<and> named_ok (mem s) \<and> handles_ok (mem s) \<and>
     (\<forall>d. worker_ok d (prog s (WorkerThread d)) (mem s))"

lemma threads_ok_new: "threads_ok threads_new"
  by (simp add: threads_ok_def threads_new_def memory_new_def locks_ok_def objs_ok_def main_ok_def named_ok_def
      handles_ok_def worker_ok_def split: thread_id.split)

text \<open>The next instruction of a worker, with what the invariant says of it.\<close>

lemma worker_next:
  assumes "threads_ok \<lparr>mem = m, prog = p\<rparr>" and "p (WorkerThread d) = i # rest"
  obtains ob where "objs m d = Some ob"
    and "wsafe d (i # rest) (o_handle ob \<noteq> None) (in_memory ob m) (o_hid ob) (named_by d m)"
proof -
  from assms obtain ob where ob: "objs m d = Some ob" by (force simp: threads_ok_def objs_ok_def)
  moreover have "worker_ok d (i # rest) m" using assms by (metis threads_ok_def threads.select_convs)
  ultimately show thesis using that by (simp add: worker_ok_def)
qed

text \<open>In the section of its mutex the control thread finds the handle of a worker in memory.\<close>

lemma main_section:
  assumes "threads_ok \<lparr>mem = m, prog = p\<rparr>" and "held_by (p MainThread) = Some (HMutex d)" and "objs m d = Some ob"
  shows "held_by (p (WorkerThread d)) \<noteq> Some (HMutex d)" and "in_memory ob m"
proof -
  have l: "\<And>t. held m (HMutex d) = Some t \<longleftrightarrow> held_by (p t) = Some (HMutex d)"
    using assms(1) by (simp add: threads_ok_def locks_ok_def)
  with assms(2) have "held m (HMutex d) = Some MainThread" by simp
  with l [of "WorkerThread d"] show w: "held_by (p (WorkerThread d)) \<noteq> Some (HMutex d)" by simp
  have "wsafe d (p (WorkerThread d)) (o_handle ob \<noteq> None) (in_memory ob m) (o_hid ob) (named_by d m)"
    using assms(1,3) by (simp add: threads_ok_def worker_ok_def)
  with w show "in_memory ob m" using wsafe_dead by (cases "o_handle ob") fastforce+
qed

lemma main_next:
  assumes "threads_ok \<lparr>mem = m, prog = p\<rparr>" and "p MainThread = i # rest"
  shows "exec c MainThread i m \<noteq> Inl h"
proof -
  have safe: "msafe (dom (objs m)) (i # rest)" using assms by (simp add: threads_ok_def main_ok_def)
  have "exec c MainThread i m \<noteq> Inl h" if i: "i = CancelHandle d" for d
  proof -
    from assms i obtain ob a where ob: "objs m d = Some ob" "o_handle ob = Some a"
      by (force simp: threads_ok_def main_ok_def)
    have "held_by (p MainThread) = Some (HMutex d)" using safe i assms(2) by auto
    from main_section(2) [OF assms(1) this ob(1)] ob i show ?thesis
      by (auto simp: exec_def obj_of_def handle_of_def in_memory_def split: option.splits)
  qed
  with safe show ?thesis
    by (cases i) (auto simp: exec_def mutex_lock_def mutex_unlock_def mutex_ok_def obj_of_def Let_def split: choice.splits prod.splits if_splits)
qed

text \<open>Only the end of its thread takes a worker's handle away.\<close>

lemma handle_kept:
  assumes "exec c (WorkerThread d) i m = Inr (m', front)" and "objs m d = Some ob" and "o_handle ob \<noteq> None" and "i \<noteq> NullHandle"
  shows "\<exists>ob'. objs m' d = Some ob' \<and> o_handle ob' \<noteq> None"
  using assms
  by (cases i) (auto simp: exec_def mutex_lock_def mutex_unlock_def obj_of_def put_obj_def rbind_eq_Inr split: if_splits choice.splits)

lemma worker_step_threads_ok:
  assumes ok: "threads_ok \<lparr>mem = m, prog = p\<rparr>" and p: "p (WorkerThread d) = i # rest" and en: "enabled i m"
    and ch: "may_choose K p i c" "0 \<notin> K" and ex: "exec c (WorkerThread d) i m = Inr (m', front)"
  shows "threads_ok \<lparr>mem = m', prog = p(WorkerThread d := front @ rest)\<rparr>"
proof -
  obtain ob where ob: "objs m d = Some ob"
    and safe: "wsafe d (i # rest) (o_handle ob \<noteq> None) (in_memory ob m) (o_hid ob) (named_by d m)"
    by (rule worker_next [OF ok p])
  have "named_ok m" "handles_ok m" using ok by (simp_all add: threads_ok_def)
  from worker_exec [OF ob this safe ch ex] have st: "worker_step_ok d (front @ rest) m m'" .
  then have kept: "others_kept d m m'" by (simp add: worker_step_ok_def)
  have none: "objs m' e = None \<longleftrightarrow> objs m e = None" for e
    using kept by (cases "e = d") (simp_all add: others_kept_def)
  then have dom: "dom (objs m') = dom (objs m)" by (simp add: dom_def)
  have "worker_ok e (p (WorkerThread e)) m'" if "e \<noteq> d" for e
  proof -
    have "worker_ok e (p (WorkerThread e)) m" using ok by (simp add: threads_ok_def)
    then show ?thesis using kept that wsafe_owner by (auto simp: worker_ok_def others_kept_def)
  qed
  moreover have "locks_ok \<lparr>mem = m', prog = p(WorkerThread d := front @ rest)\<rparr>"
    using ok by (intro exec_locks_ok [where p = p, OF _ p en ex]) (simp add: threads_ok_def)
  moreover have "objs_ok \<lparr>mem = m', prog = p(WorkerThread d := front @ rest)\<rparr>"
    using ok kept ob by (simp add: threads_ok_def objs_ok_def others_kept_def none dom)
  moreover have "\<exists>ob'. objs m' e = Some ob' \<and> o_handle ob' \<noteq> None" if main: "p MainThread = CancelHandle e # js" for e js
  proof -
    obtain oe where oe: "objs m e = Some oe" "o_handle oe \<noteq> None"
      using ok main by (auto simp: threads_ok_def main_ok_def)
    have "msafe (dom (objs m)) (p MainThread)" using ok by (simp add: threads_ok_def main_ok_def)
    with main have "held_by (p MainThread) = Some (HMutex e)" by auto
    from main_section(1) [OF ok this oe(1)] p safe have "e = d \<Longrightarrow> i \<noteq> NullHandle" by auto
    then show ?thesis using handle_kept [OF ex ob] oe ob kept by (cases "e = d") (auto simp: others_kept_def)
  qed
  ultimately show ?thesis
    using ok st by (auto simp: threads_ok_def main_ok_def dom worker_step_ok_def)
qed

text \<open>
  A step of the control thread, apart from a new worker and a collected one, leaves the objects
  and the registry as they are.
\<close>

lemma main_quiet:
  assumes ok: "threads_ok \<lparr>mem = m, prog = p\<rparr>" and p: "p MainThread = i # rest"
    and ex: "exec c MainThread i m = Inr (m', front)"
    and i: "i \<noteq> SpawnWorker" "\<not> (\<exists>d. i = CollectWorker d \<and> c = Yes)"
  shows "objs m' = objs m \<and> kids m' = kids m \<and> next_obj m' = next_obj m \<and> next_handle m' = next_handle m \<and>
    owners (m_shared m') = owners (m_shared m) \<and> (\<forall>a. (handles m' a = None) = (handles m a = None))"
proof -
  have "msafe (dom (objs m)) (i # rest)" using ok p by (simp add: threads_ok_def main_ok_def)
  with i ex show ?thesis
    by (cases i) (auto simp: exec_def mutex_lock_def mutex_unlock_def obj_of_def handle_of_def rbind_eq_Inr prod_eq_iff Let_def
        split: if_splits option.splits choice.splits prod.splits)
qed

lemma no_cancel_codes [simp]:
  "\<not> starts_cancel is \<Longrightarrow> \<not> starts_cancel (cancelCurrentHandle_code d @ is)"
  "\<not> starts_cancel is \<Longrightarrow> \<not> starts_cancel (concat (map cancelCurrentHandle_code ds) @ is)"
  "\<not> starts_cancel is \<Longrightarrow> \<not> starts_cancel (collect_workers_code ds @ is)"
  "\<not> starts_cancel (destroy_code ds)"
  by (cases ds; simp add: cancelCurrentHandle_code_def collect_workers_code_def destroy_code_def)+

lemma msafe_cancels:
  assumes "set ds \<subseteq> D" and "msafe D is" and "\<not> starts_cancel is"
  shows "msafe D (concat (map cancelCurrentHandle_code ds) @ is)"
  using assms by (induction ds) (auto simp: cancelCurrentHandle_code_def)

lemma msafe_collects:
  assumes "set ds \<subseteq> D" and "distinct ds" and "\<And>D. msafe D is" and "\<not> starts_cancel is"
  shows "msafe D (collect_workers_code ds @ is)"
  using assms
proof (induction ds arbitrary: D)
  case (Cons d ds)
  then have "set ds \<subseteq> D - {d}" by auto
  with Cons no_cancel_codes(3) [of "is" ds] show ?case by (simp add: collect_workers_code_def)
qed (simp add: collect_workers_code_def)

text \<open>The code the control thread goes on with refers to existing objects only.\<close>

lemma main_msafe:
  assumes ok: "threads_ok \<lparr>mem = m, prog = p\<rparr>" and p: "p MainThread = i # rest"
    and ex: "exec c MainThread i m = Inr (m', front)"
  shows "msafe (dom (objs m')) (front @ rest)"
proof -
  have safe: "msafe (dom (objs m)) (i # rest)" using ok p by (simp add: threads_ok_def main_ok_def)
  have ds: "distinct (kids m)" "set (kids m) \<subseteq> dom (objs m)" using ok by (auto simp: threads_ok_def objs_ok_def)
  have loop: "msafe D [MainLoop]" "msafe D [DestroyTest]" for D by simp_all
  have find: "msafe (dom (objs m)) (cancelCurrentHandle_code d @ rest)" if "i = FindWorker k" "owners (m_shared m) k = Some d" for k d
  proof -
    have "d \<in> dom (objs m)" using ok that(2) unfolding threads_ok_def named_ok_def by fastforce
    with safe that(1) show ?thesis by (simp add: cancelCurrentHandle_code_def)
  qed
  show ?thesis
  proof (cases i)
    case (FindWorker k)
    obtain w sh where w: "h2wmap_at k (m_shared m) = (w, sh)" by (cases "h2wmap_at k (m_shared m)")
    then have "w = owners (m_shared m) k" using owners_updates(4) [of k "m_shared m"] by simp
    with w ex safe find [OF FindWorker] show ?thesis by (auto simp: FindWorker exec_def split: option.splits)
  next
    case SpawnWorker
    with safe ex show ?thesis by (auto simp: exec_def intro: msafe_mono)
  next
    case (CollectWorker d)
    with safe ex show ?thesis by (auto simp: exec_def rbind_eq_Inr obj_of_def split: if_splits intro: msafe_mono)
  next
    case MainLoop
    with safe ex loop ds show ?thesis
      by (auto simp: exec_def split: choice.splits intro!: msafe_collects)
  next
    case DestroyTest
    with safe ex loop ds show ?thesis
      by (auto simp: exec_def destroy_code_def split: if_splits intro!: msafe_cancels msafe_collects)
  qed (use safe ex in \<open>auto simp: exec_def mutex_lock_def mutex_unlock_def rbind_eq_Inr obj_of_def handle_of_def
      split: if_splits option.splits\<close>)
qed

text \<open>What the control thread has just tested still holds at its next instruction.\<close>

lemma main_tested:
  assumes ok: "threads_ok \<lparr>mem = m, prog = p\<rparr>" and p: "p MainThread = i # rest"
    and ex: "exec c MainThread i m = Inr (m', front)" and next': "front @ rest = CancelHandle d # js"
  shows "\<exists>ob. objs m' d = Some ob \<and> o_handle ob \<noteq> None"
proof -
  have safe: "msafe (dom (objs m)) (i # rest)" using ok p by (simp add: threads_ok_def main_ok_def)
  have c: "starts_cancel (front @ rest)" using next' by simp
  have "\<exists>e. i = IfHandle e"
  proof (cases i)
    case (FindWorker k)
    with safe c ex show ?thesis by (auto simp: exec_def Let_def split: option.splits prod.splits)
  qed (use safe c ex in \<open>auto simp: exec_def rbind_eq_Inr split: choice.splits if_splits\<close>)
  with safe next' ex show ?thesis by (auto simp: exec_def obj_of_def split: if_splits option.splits)
qed

lemma handles_ok_sub:
  assumes "handles_ok m" and "next_handle m' = next_handle m"
    and "\<And>d ob a. objs m' d = Some ob \<Longrightarrow> o_handle ob = Some a \<Longrightarrow> objs m d = Some ob"
  shows "handles_ok m'"
  using assms(1) assms(3) unfolding handles_ok_def assms(2) by meson

lemma main_ok_step:
  assumes ok: "threads_ok \<lparr>mem = m, prog = p\<rparr>" and p: "p MainThread = i # rest"
    and ex: "exec c MainThread i m = Inr (m', front)" and q: "q MainThread = front @ rest"
  shows "main_ok \<lparr>mem = m', prog = q\<rparr>"
  using main_msafe [OF ok p ex] main_tested [OF ok p ex] by (simp add: main_ok_def q)

lemma quiet_threads_ok:
  assumes ok: "threads_ok \<lparr>mem = m, prog = p\<rparr>"
    and same: "objs m' = objs m \<and> kids m' = kids m \<and> next_obj m' = next_obj m \<and> next_handle m' = next_handle m \<and>
      owners (m_shared m') = owners (m_shared m) \<and> (\<forall>a. (handles m' a = None) = (handles m a = None))"
    and q: "\<And>d. q (WorkerThread d) = p (WorkerThread d)"
    and rest: "locks_ok \<lparr>mem = m', prog = q\<rparr>" "main_ok \<lparr>mem = m', prog = q\<rparr>"
  shows "threads_ok \<lparr>mem = m', prog = q\<rparr>"
proof -
  have "in_memory ob m' = in_memory ob m" for ob using same by (simp add: in_memory_def split: option.split)
  moreover have "named_by d m' = named_by d m" for d using same by (simp add: named_by_def)
  ultimately have "worker_ok d js m' = worker_ok d js m" for d js using same by (simp add: worker_ok_def)
  moreover have "named_ok m' = named_ok m" using same by (simp add: named_ok_def)
  moreover have "handles_ok m' = handles_ok m" using same by (simp add: handles_ok_def)
  moreover have "objs_ok \<lparr>mem = m', prog = q\<rparr> = objs_ok \<lparr>mem = m, prog = p\<rparr>" using same by (simp add: objs_ok_def q)
  ultimately show ?thesis using ok rest by (simp add: threads_ok_def q)
qed

lemma spawn_threads_ok:
  assumes ok: "threads_ok \<lparr>mem = m, prog = p\<rparr>" and p: "p MainThread = SpawnWorker # rest"
    and ex: "exec c MainThread SpawnWorker m = Inr (m', front)"
    and q: "q = (start_worker SpawnWorker m p)(MainThread := front @ rest)"
    and rest: "locks_ok \<lparr>mem = m', prog = q\<rparr>" "main_ok \<lparr>mem = m', prog = q\<rparr>"
  shows "threads_ok \<lparr>mem = m', prog = q\<rparr>"
proof -
  let ?d = "next_obj m"
  from ex have m': "objs m' = (objs m)(?d \<mapsto> \<lparr>o_handle = None, o_hid = 0\<rparr>)" "kids m' = kids m @ [?d]"
    "next_obj m' = Suc ?d" "handles m' = handles m" "next_handle m' = next_handle m" "m_shared m' = m_shared m"
    by (auto simp: exec_def)
  have fresh: "objs m ?d = None" using ok by (force simp: threads_ok_def objs_ok_def)
  have qd: "q (WorkerThread d) = (if d = ?d then [SelectLoop] else p (WorkerThread d))" for d
    by (simp add: q start_worker_def)
  have mem: "in_memory ob m' = in_memory ob m" for ob by (simp add: in_memory_def m' split: option.split)
  have named: "named_by d m' = named_by d m" for d by (simp add: named_by_def m')
  have n: "named_ok m" "handles_ok m" using ok by (simp_all add: threads_ok_def)
  have "d \<noteq> ?d" if "owners (m_shared m) k = Some d" for k d using n(1) that fresh unfolding named_ok_def by fastforce
  then have "named_ok m'" using n(1) by (auto simp: named_ok_def m')
  moreover have "handles_ok m'" by (rule handles_ok_sub [OF n(2)]) (auto simp: m' split: if_splits)
  moreover have "objs_ok \<lparr>mem = m', prog = q\<rparr>"
    using ok fresh by (auto simp: threads_ok_def objs_ok_def m' qd less_Suc_eq split: if_splits)
  moreover have "worker_ok d (q (WorkerThread d)) m'" for d
    using ok by (cases "d = ?d") (simp_all add: threads_ok_def worker_ok_def m' mem named qd)
  ultimately show ?thesis using rest by (simp add: threads_ok_def)
qed

lemma collect_threads_ok:
  assumes ok: "threads_ok \<lparr>mem = m, prog = p\<rparr>" and p: "p MainThread = CollectWorker d # rest" "p (WorkerThread d) = []"
    and ex: "exec Yes MainThread (CollectWorker d) m = Inr (m', front)"
    and q: "\<And>e. q (WorkerThread e) = p (WorkerThread e)"
    and rest: "locks_ok \<lparr>mem = m', prog = q\<rparr>" "main_ok \<lparr>mem = m', prog = q\<rparr>"
  shows "threads_ok \<lparr>mem = m', prog = q\<rparr>"
proof -
  obtain ob where ob: "objs m d = Some ob" using ex by (auto simp: exec_def obj_of_def split: option.splits)
  moreover have "worker_ok d [] m" using ok p(2) by (metis threads_ok_def threads.select_convs)
  ultimately have none: "o_handle ob = None" "o_hid ob = 0" by (simp_all add: worker_ok_def)
  from ex ob none have m': "objs m' = (objs m)(d := None)" "kids m' = filter (\<lambda>d'. d' \<noteq> d) (kids m)"
    "next_obj m' = next_obj m" "handles m' = handles m" "next_handle m' = next_handle m" "m_shared m' = m_shared m"
    by (auto simp: exec_def obj_of_def)
  have mem: "in_memory ob m' = in_memory ob m" for ob by (simp add: in_memory_def m' split: option.split)
  have named: "named_by e m' = named_by e m" for e by (simp add: named_by_def m')
  have n: "named_ok m" using ok by (simp add: threads_ok_def)
  have "\<not> named_by d m" using named_by_num [OF n ob] none by blast
  then have "named_ok m'" using n unfolding named_ok_def named_by_def m' by (auto split: if_splits)
  moreover have "handles_ok m" using ok by (simp add: threads_ok_def)
  then have "handles_ok m'" by (rule handles_ok_sub) (auto simp: m' split: if_splits)
  moreover have "objs_ok \<lparr>mem = m', prog = q\<rparr>"
    using ok p(2) by (auto simp: threads_ok_def objs_ok_def m' q)
  moreover have "worker_ok e (q (WorkerThread e)) m'" for e
    using ok by (simp add: threads_ok_def worker_ok_def m' mem named q)
  ultimately show ?thesis using rest by (simp add: threads_ok_def)
qed

lemma main_step_threads_ok:
  assumes ok: "threads_ok \<lparr>mem = m, prog = p\<rparr>" and p: "p MainThread = i # rest" and en: "enabled i m"
    and ch: "may_choose K p i c" and ex: "exec c MainThread i m = Inr (m', front)"
  shows "threads_ok \<lparr>mem = m', prog = (start_worker i m p)(MainThread := front @ rest)\<rparr>"
proof -
  let ?q = "(start_worker i m p)(MainThread := front @ rest)"
  have "p (WorkerThread (next_obj m)) = []" using ok by (force simp: threads_ok_def objs_ok_def)
  then have "locks_ok \<lparr>mem = m, prog = start_worker i m p\<rparr>"
    using ok by (intro start_worker_ok) (simp_all add: threads_ok_def)
  then have l: "locks_ok \<lparr>mem = m', prog = ?q\<rparr>"
    using p by (intro exec_locks_ok [where p = "start_worker i m p", OF _ _ en ex]) (simp_all add: start_worker_def)
  have main: "main_ok \<lparr>mem = m', prog = ?q\<rparr>" by (rule main_ok_step [OF ok p ex]) simp
  show ?thesis
  proof (cases "i = SpawnWorker \<or> (\<exists>d. i = CollectWorker d \<and> c = Yes)")
    case True
    then show ?thesis
    proof (elim disjE exE conjE)
      assume i: "i = SpawnWorker"
      show ?thesis using spawn_threads_ok [OF ok p [unfolded i] ex [unfolded i] refl] l main by (simp add: i)
    next
      fix d
      assume i: "i = CollectWorker d" "c = Yes"
      have "p (WorkerThread d) = []" using ch i by (simp add: may_choose_def)
      from collect_threads_ok [OF ok p [unfolded i] this ex [unfolded i] _ l [unfolded i] main [unfolded i]] i
      show ?thesis by (simp add: start_worker_def)
    qed
  next
    case False
    from False show ?thesis
      by (intro quiet_threads_ok [OF ok main_quiet [OF ok p ex] _ l main]) (simp_all add: start_worker_def)
  qed
qed

lemma answer_threads_ok:
  assumes "threads_ok \<lparr>mem = m, prog = p\<rparr>"
  shows "threads_ok \<lparr>mem = answer_future f ok m, prog = p\<rparr>"
  using assms by (intro quiet_threads_ok [OF assms]) (simp_all add: threads_ok_def locks_ok_def main_ok_def)

text \<open>Every reachable state of the threads has the invariant, when no client uses the number zero.\<close>

lemma tstep_threads_ok:
  assumes "tstep K s s'" and "0 \<notin> K" and "threads_ok s"
  shows "threads_ok s'"
  using assms
proof (induction rule: tstep.induct)
  case (thread_step p t i rest m c m' front)
  show ?case
  proof (cases t)
    case MainThread
    with thread_step main_step_threads_ok show ?thesis by blast
  next
    case (WorkerThread d)
    have "i \<noteq> SpawnWorker"
      using thread_step.prems worker_next [OF thread_step.prems(2)] thread_step.hyps(1) unfolding WorkerThread by force
    with thread_step worker_step_threads_ok show ?thesis unfolding WorkerThread start_worker_def by auto
  qed
qed (rule answer_threads_ok)

lemma treach_ok: "treach K s \<Longrightarrow> 0 \<notin> K \<Longrightarrow> threads_ok s"
  by (induction rule: treach.induct) (auto intro: threads_ok_new tstep_threads_ok)

end
