(* ===== verification/ThreadProps.thy ===== *)
theory ThreadProps
  imports ThreadInv
begin

text \<open>
  What the locking of the daemon achieves and what it does not: memory safety and mutual
  exclusion in every interleaving, what a waiting thread waits for, how the cluster is opened, the registry of
  \<open>Registration\<close> again at this grain; and the accesses that no lock orders.
\<close>

section \<open>A step of a thread\<close>

text \<open>The next instruction of a thread does not stop the process.\<close>

lemma thread_runs:
  assumes ok: "threads_ok \<lparr>mem = m, prog = p\<rparr>" and p: "p t = i # rest"
  shows "\<exists>m' front. exec c t i m = Inr (m', front)"
proof (cases t)
  case MainThread
  then show ?thesis using main_next [OF ok, of i rest c] p by (cases "exec c t i m") auto
next
  case (WorkerThread d)
  then show ?thesis using worker_next [OF ok, of d i rest] worker_runs [of m d _ i rest c] p
    by (cases "exec c t i m") auto
qed

section \<open>Refinement of the registry\<close>

definition thread_registry :: "'j threads \<Rightarrow> registry_spec" where
  "thread_registry s = \<lparr>live = dom (objs (mem s)), owner = owners (m_shared (mem s))\<rparr>"

lemma threads_ok_registry: "threads_ok s \<Longrightarrow> registry_ok (thread_registry s)"
proof -
  assume "threads_ok s"
  then have n: "named_ok (mem s)" by (simp add: threads_ok_def)
  then have "ran (owners (m_shared (mem s))) \<subseteq> dom (objs (mem s))"
    unfolding named_ok_def ran_def by fastforce
  moreover have "owners (m_shared (mem s)) 0 = None"
    using n unfolding named_ok_def by (cases "owners (m_shared (mem s)) 0") blast+
  moreover have "k = k'" if "owners (m_shared (mem s)) k = Some d" "owners (m_shared (mem s)) k' = Some d" for k k' d
  proof -
    have "\<exists>ob. objs (mem s) d = Some ob" using n that(1) unfolding named_ok_def by blast
    then obtain ob where "objs (mem s) d = Some ob" ..
    with named_okD [OF n that(1)] named_okD [OF n that(2)] show ?thesis by blast
  qed
  ultimately show ?thesis by (auto simp: registry_ok_def thread_registry_def)
qed

lemma worker_registry_step:
  assumes ok: "threads_ok \<lparr>mem = m, prog = p\<rparr>" and p: "p (WorkerThread d) = i # rest"
    and ch: "may_choose K p i c" "0 \<notin> K" and ex: "exec c (WorkerThread d) i m = Inr (m', front)"
  shows "astep\<^sup>*\<^sup>* (thread_registry \<lparr>mem = m, prog = p\<rparr>) (thread_registry \<lparr>mem = m', prog = q\<rparr>)"
proof -
  obtain ob where ob: "objs m d = Some ob"
    and safe: "wsafe d (i # rest) (o_handle ob \<noteq> None) (in_memory ob m) (o_hid ob) (named_by d m)"
    by (rule worker_next [OF ok p])
  have n: "named_ok m" "handles_ok m" using ok by (simp_all add: threads_ok_def)
  have "others_kept d m m'" using worker_exec [OF ob n safe ch ex] by (simp add: worker_step_ok_def)
  then have "objs m' e = None \<longleftrightarrow> objs m e = None" for e by (cases "e = d") (simp_all add: others_kept_def)
  then have dom: "dom (objs m') = dom (objs m)" by (simp add: dom_def)
  let ?a = "thread_registry \<lparr>mem = m, prog = p\<rparr>"
  have "astep ?a (?a\<lparr>owner := (owner ?a)(k \<mapsto> d)\<rparr>)" if "i = MapInsert k" for k
    using that safe ob by (intro own) (auto simp: thread_registry_def named_by_def ran_def)
  moreover have "astep ?a (?a\<lparr>owner := (owner ?a)(k := None)\<rparr>)" if "i = MapErase k" for k
    using that safe ob named_okD [OF n(1) _ ob] by (intro disown [where d = d]) (auto simp: thread_registry_def)
  moreover have "owners (m_shared m') = owners (m_shared m)" if "\<not> (\<exists>k. i = MapInsert k \<or> i = MapErase k)"
    using that ex safe by (cases i) (auto simp: exec_def mutex_lock_def mutex_unlock_def obj_of_def handle_of_def put_obj_def
      rbind_eq_Inr split: if_splits option.splits choice.splits)
  ultimately show ?thesis
    using ex dom by (cases i) (auto simp: thread_registry_def exec_def intro!: r_into_rtranclp)
qed

lemma main_registry_step:
  assumes ok: "threads_ok \<lparr>mem = m, prog = p\<rparr>" and p: "p MainThread = i # rest"
    and ch: "may_choose K p i c" and ex: "exec c MainThread i m = Inr (m', front)"
  shows "astep\<^sup>*\<^sup>* (thread_registry \<lparr>mem = m, prog = p\<rparr>) (thread_registry \<lparr>mem = m', prog = q\<rparr>)"
proof -
  let ?a = "thread_registry \<lparr>mem = m, prog = p\<rparr>"
  consider "i = SpawnWorker" | d where "i = CollectWorker d" "c = Yes"
    | "i \<noteq> SpawnWorker" "\<not> (\<exists>d. i = CollectWorker d \<and> c = Yes)" by blast
  then show ?thesis
  proof cases
    case 1
    have "objs m (next_obj m) = None" using ok by (force simp: threads_ok_def objs_ok_def)
    then have "astep ?a (?a\<lparr>live := insert (next_obj m) (live ?a)\<rparr>)" by (intro spawn) (auto simp: thread_registry_def)
    with 1 ex show ?thesis by (auto simp: thread_registry_def exec_def)
  next
    case (2 d)
    then have e: "p (WorkerThread d) = []" using ch by (simp add: may_choose_def)
    obtain ob where ob: "objs m d = Some ob" using ex 2 by (auto simp: exec_def obj_of_def split: option.splits)
    have "worker_ok d [] m" using ok e by (metis threads_ok_def threads.select_convs)
    with ob have num: "o_hid ob = 0" by (simp add: worker_ok_def)
    have "named_ok m" using ok by (simp add: threads_ok_def)
    from named_okD [OF this _ ob] num have "\<And>k. owners (m_shared m) k \<noteq> Some d" by blast
    then have "astep ?a (?a\<lparr>live := live ?a - {d}\<rparr>)" by (intro reap) (auto simp: thread_registry_def ran_def)
    moreover have "objs m' = (objs m)(d := None)" "m_shared m' = m_shared m"
      using 2 ex ob by (auto simp: exec_def obj_of_def)
    ultimately show ?thesis by (simp add: thread_registry_def)
  next
    case 3
    with main_quiet [OF ok p ex] show ?thesis by (simp add: thread_registry_def)
  qed
qed

lemma tstep_refines:
  assumes "tstep K s s'" and "threads_ok s" and "0 \<notin> K"
  shows "astep\<^sup>*\<^sup>* (thread_registry s) (thread_registry s')"
  using assms
proof (induction rule: tstep.induct)
  case (thread_step p t i rest m c m' front)
  then show ?case using worker_registry_step main_registry_step by (cases t) blast+
qed (simp add: thread_registry_def)

section \<open>Opening the cluster\<close>

text \<open>
  The instructions of \<open>ensureCluster\<close> are run in the section of its mutex, and those after its test
  are never waiting further down in the code of a thread.
\<close>

fun before_bucket :: "instr \<Rightarrow> bool" where
  "before_bucket OpenCluster = True"
| "before_bucket (AwaitOpen f) = True"
| "before_bucket OpenBucket = True"
| "before_bucket (AwaitBucket f) = True"
| "before_bucket _ = False"

fun opens_cluster :: "instr \<Rightarrow> bool" where
  "opens_cluster OpenCluster = True"
| "opens_cluster (AwaitOpen f) = True"
| "opens_cluster OpenBucket = True"
| "opens_cluster (AwaitBucket f) = True"
| "opens_cluster SetInitialized = True"
| "opens_cluster _ = False"

lemma opens_cluster_iff: "opens_cluster i \<longleftrightarrow> before_bucket i \<or> i = SetInitialized"
  by (cases i) simp_all

fun opening_guarded :: "instr list \<Rightarrow> bool" where
  "opening_guarded [] = True"
| "opening_guarded (i # is) \<longleftrightarrow> (opens_cluster i \<or> i = TestInitialized \<longrightarrow> held_by is = Some WMutex) \<and>
     (is \<noteq> [] \<longrightarrow> \<not> opens_cluster (hd is)) \<and> opening_guarded is"

lemma held_by_append: "held_by xs' = Some mx \<Longrightarrow> held_by (xs' @ is) = Some mx"
  by (induction xs' rule: held_by.induct) auto

lemma opening_guarded_append:
  "opening_guarded xs' \<Longrightarrow> opening_guarded is \<Longrightarrow> (is \<noteq> [] \<longrightarrow> \<not> opens_cluster (hd is)) \<Longrightarrow> opening_guarded (xs' @ is)"
  by (induction xs') (auto simp: held_by_append hd_append)

lemma opening_guarded_codes [simp]:
  "opening_guarded (cancelCurrentHandle_code d)" "opening_guarded (collect_workers_code ds)"
  "opening_guarded (destroy_code ds)" "opening_guarded ensureCluster_code" "opening_guarded (registerWDHandle_code k)"
  "opening_guarded (unregisterWDHandle_code k)" "opening_guarded (open_handle_code k use)"
  "opening_guarded (initializeHandle_code k use)" "opening_guarded (getDatasetById_code i)" "opening_guarded (run_end_code d)"
proof -
  show c: "opening_guarded (cancelCurrentHandle_code d)" for d by (simp add: cancelCurrentHandle_code_def)
  show k: "opening_guarded (collect_workers_code ds)" for ds
    by (induction ds) (simp_all add: collect_workers_code_def hd_map)
  have h: "collect_workers_code ds @ [DestroyTest] \<noteq> [] \<longrightarrow> \<not> opens_cluster (hd (collect_workers_code ds @ [DestroyTest]))" for ds
    by (cases ds) (simp_all add: collect_workers_code_def)
  have "opening_guarded (concat (map cancelCurrentHandle_code es) @ collect_workers_code ds @ [DestroyTest])" for es ds
  proof (induction es)
    case Nil
    show ?case by (simp add: opening_guarded_append k)
  next
    case (Cons e es)
    have "\<not> opens_cluster (hd (concat (map cancelCurrentHandle_code es) @ collect_workers_code ds @ [DestroyTest]))"
      using h by (cases es) (auto simp: cancelCurrentHandle_code_def)
    then have "opening_guarded (cancelCurrentHandle_code e @ concat (map cancelCurrentHandle_code es) @ collect_workers_code ds @ [DestroyTest])"
      by (intro opening_guarded_append [OF c Cons]) simp
    then show ?case by simp
  qed
  then show "opening_guarded (destroy_code ds)" by (simp add: destroy_code_def)
qed (simp_all add: ensureCluster_code_def registerWDHandle_code_def unregisterWDHandle_code_def open_handle_code_def
    initializeHandle_code_def getDatasetById_code_def run_end_code_def)

lemma exec_opening_guarded:
  assumes "exec c t i m = Inr (m', front)" and "opening_guarded (i # rest)"
  shows "opening_guarded (front @ rest)"
proof -
  have r: "opening_guarded rest" "rest \<noteq> [] \<longrightarrow> \<not> opens_cluster (hd rest)" using assms(2) by auto
  have codes: "opening_guarded (xs' @ rest)" if "opening_guarded xs'" for xs' using opening_guarded_append [OF that r] .
  show ?thesis
  proof (cases "i = TestInitialized \<or> opens_cluster i")
    case True
    with assms show ?thesis by (cases t; cases i) (auto simp: exec_def split: if_splits)
  next
    case False
    have "opening_guarded front"
      using assms(1) False
      by (cases t; cases i) (auto simp: exec_def rbind_eq_Inr Let_def intro!: opening_guarded_append
          split: if_splits choice.splits option.splits prod.splits)
    then show ?thesis by (rule codes)
  qed
qed


definition awaits :: "instr \<Rightarrow> nat \<Rightarrow> bool" where
  "awaits i f \<longleftrightarrow> i = AwaitOpen f \<or> i = AwaitBucket f"

definition opening_ok :: "'j threads \<Rightarrow> bool" where
  "opening_ok s \<longleftrightarrow> (\<forall>t. opening_guarded (prog s t)) \<and>
     bucket_opens (mem s) \<le> opens (mem s) \<and>
     (cluster_initialized (m_shared (mem s)) \<longrightarrow> bucket_opens (mem s) = 1) \<and>
     (\<forall>t i js. prog s t = i # js \<and> before_bucket i \<longrightarrow>
        bucket_opens (mem s) = 0 \<and> \<not> cluster_initialized (m_shared (mem s))) \<and>
     (\<forall>t i js f. prog s t = i # js \<and> (i = OpenBucket \<or> i = AwaitBucket f) \<longrightarrow> opens (mem s) \<noteq> 0) \<and>
     (\<forall>t js. prog s t = SetInitialized # js \<longrightarrow>
        bucket_opens (mem s) = 1 \<and> \<not> cluster_initialized (m_shared (mem s))) \<and>
     (bucket_opens (mem s) \<noteq> 0 \<longrightarrow>
        cluster_initialized (m_shared (mem s)) \<or> (\<exists>t js. prog s t = SetInitialized # js)) \<and>
     (\<forall>t i js f. prog s t = i # js \<and> awaits i f \<longrightarrow> f < next_future (mem s))"

lemma opening_okI:
  assumes "\<And>t. opening_guarded (prog s t)" and "bucket_opens (mem s) \<le> opens (mem s)"
    and "cluster_initialized (m_shared (mem s)) \<Longrightarrow> bucket_opens (mem s) = 1"
    and "\<And>t i js. prog s t = i # js \<Longrightarrow> before_bucket i \<Longrightarrow>
      bucket_opens (mem s) = 0 \<and> \<not> cluster_initialized (m_shared (mem s))"
    and "\<And>t i js f. prog s t = i # js \<Longrightarrow> i = OpenBucket \<or> i = AwaitBucket f \<Longrightarrow> opens (mem s) \<noteq> 0"
    and "\<And>t js. prog s t = SetInitialized # js \<Longrightarrow>
      bucket_opens (mem s) = 1 \<and> \<not> cluster_initialized (m_shared (mem s))"
    and "bucket_opens (mem s) \<noteq> 0 \<Longrightarrow>
      cluster_initialized (m_shared (mem s)) \<or> (\<exists>t js. prog s t = SetInitialized # js)"
    and "\<And>t i js f. prog s t = i # js \<Longrightarrow> awaits i f \<Longrightarrow> f < next_future (mem s)"
  shows "opening_ok s"
  using assms unfolding opening_ok_def by blast

lemma opening_ok_new: "opening_ok threads_new"
  by (auto simp: opening_ok_def threads_new_def memory_new_def shared_new_def awaits_def split: thread_id.splits)

lemma exec_opened:
  assumes "exec c t i m = Inr (m', front)"
  shows "bucket_opens m' = bucket_opens m + of_bool (\<exists>f. i = AwaitBucket f \<and> future_get f m)"
    and "opens m' = opens m + of_bool (\<exists>f. i = AwaitOpen f \<and> future_get f m)"
    and "next_future m \<le> next_future m'"
    and "cluster_initialized (m_shared m') \<longleftrightarrow> cluster_initialized (m_shared m) \<or> i = SetInitialized"
  using assms
  by (cases t; cases i; auto simp: exec_def mutex_lock_def mutex_unlock_def put_obj_def obj_of_def handle_of_def
      registry_defs rbind_eq_Inr Let_def split: if_splits choice.splits option.splits prod.splits)+

text \<open>An instruction of the opening is put in front by the one before it only.\<close>

lemma exec_starts_opening:
  assumes "exec c t i m = Inr (m', front)" and "opening_guarded (i # rest)" and "front @ rest = j # js" and "opens_cluster j"
  shows "j = OpenCluster \<and> i = TestInitialized \<and> \<not> cluster_initialized (m_shared m) \<or>
    j = AwaitOpen (next_future m) \<and> i = OpenCluster \<and> next_future m < next_future m' \<or>
    j = OpenBucket \<and> (\<exists>f. i = AwaitOpen f \<and> future_get f m) \<or>
    j = AwaitBucket (next_future m) \<and> i = OpenBucket \<and> next_future m < next_future m' \<or>
    j = SetInitialized \<and> (\<exists>f. i = AwaitBucket f \<and> future_get f m)"
proof -
  have "front \<noteq> []" using assms(2-4) by auto
  then obtain fs where "front = j # fs" using assms(3) by (cases front) auto
  then show ?thesis using assms(1,4)
    by (cases t; cases i; cases "kids m") (auto simp: exec_def rbind_eq_Inr Let_def cancelCurrentHandle_code_def
      collect_workers_code_def destroy_code_def section_codes Cons_eq_append_conv map_eq_Cons_conv
      split: if_splits choice.splits option.splits prod.splits)
qed

text \<open>Two threads are never in the section at once.\<close>

lemma one_owner:
  assumes "locks_ok s" and "held_by (prog s t) = Some mx" and "held_by (prog s u) = Some mx"
  shows "t = u"
proof -
  have "held (mem s) mx = Some t" "held (mem s) mx = Some u" using assms by (simp_all add: locks_ok_def)
  then show ?thesis by simp
qed

lemma opening_ok_guarded: "opening_ok s \<Longrightarrow> opening_guarded (prog s t)"
  by (simp add: opening_ok_def)

lemma opening_section:
  assumes "opening_ok s" and "prog s t = i # js" and "opens_cluster i \<or> i = TestInitialized"
  shows "held_by (prog s t) = Some WMutex"
proof -
  have "opening_guarded (i # js)" using opening_ok_guarded [OF assms(1), of t] assms(2) by simp
  with assms(2,3) show ?thesis by (cases i) auto
qed

text \<open>A step of a thread keeps the invariant, and so does a callback.\<close>

lemma opening_thread_step:
  assumes hd: "p t = i # rest" and ex: "exec c t i m = Inr (m', front)"
    and ok: "threads_ok \<lparr>mem = m, prog = p\<rparr>" and op: "opening_ok \<lparr>mem = m, prog = p\<rparr>"
  shows "opening_ok \<lparr>mem = m', prog = (start_worker i m p)(t := front @ rest)\<rparr>"
proof -
  let ?q = "(start_worker i m p)(t := front @ rest)"
  let ?ini = "cluster_initialized (m_shared m)" and ?ini' = "cluster_initialized (m_shared m')"
  have l: "locks_ok \<lparr>mem = m, prog = p\<rparr>" using ok by (simp add: threads_ok_def)
  have g: "opening_guarded (i # rest)" using opening_ok_guarded [OF op, of t] hd by simp
  have only: "u = t" if "p u = j # js" "opens_cluster j" "opens_cluster i \<or> i = TestInitialized" for u j js
    using one_owner [OF l, of u WMutex t] opening_section [OF op, of u j js] opening_section [OF op, of t i rest] that hd
    by simp
  have old: "p u = j # js" if "?q u = j # js" "u \<noteq> t" "opens_cluster j" for u j js
    using that by (auto simp: start_worker_def split: if_splits)
  note new = exec_starts_opening [OF ex g]
  note mem = exec_opened [OF ex]
  have kept: "?q u = p u" if "u \<noteq> t" "p u \<noteq> []" for u
    using that ok by (force simp: start_worker_def threads_ok_def objs_ok_def)
  have quiet: "\<not> opens_cluster i \<and> bucket_opens m' = bucket_opens m \<and> opens m' = opens m \<and> ?ini' = ?ini"
    if "p u = j # js" "opens_cluster j" "u \<noteq> t" for u j js
  proof -
    have "\<not> opens_cluster i" using only that by blast
    then show ?thesis by (cases i) (auto simp: mem)
  qed
  have cl: "bucket_opens m = 0 \<and> \<not> ?ini" if "p u = j # js" "before_bucket j" for u j js
    using op that unfolding opening_ok_def threads.select_convs by blast
  have si: "bucket_opens m = 1 \<and> \<not> ?ini" if "p u = SetInitialized # js" for u js
    using op that unfolding opening_ok_def threads.select_convs by blast
  have bo: "opens m \<noteq> 0" if "p u = j # js" "j = OpenBucket \<or> j = AwaitBucket f" for u j js f
    using op that unfolding opening_ok_def threads.select_convs by blast
  have nf: "f < next_future m" if "p u = j # js" "awaits j f" for u j js f
    using op that unfolding opening_ok_def threads.select_convs by blast
  have le: "bucket_opens m \<le> opens m" and ini: "?ini \<Longrightarrow> bucket_opens m = 1"
    and some: "bucket_opens m \<noteq> 0 \<Longrightarrow> ?ini \<or> (\<exists>u js. p u = SetInitialized # js)"
    using op unfolding opening_ok_def threads.select_convs by blast+
  have none: "bucket_opens m = 0" if "i = TestInitialized" "\<not> ?ini"
    using some only [of _ SetInitialized] that hd by fastforce
  have step: "(\<exists>f. i = AwaitBucket f) \<Longrightarrow> bucket_opens m = 0 \<and> \<not> ?ini \<and> opens m \<noteq> 0"
    using cl [OF hd] bo [OF hd] by auto
  have r1: "opening_guarded (?q u)" for u
    using op exec_opening_guarded [OF ex g] by (auto simp: opening_ok_def start_worker_def)
  have r2: "bucket_opens m' \<le> opens m'" using le step by (auto simp: mem)
  have r3: "bucket_opens m' = 1" if ?ini'
    using that ini step si [of t rest] hd by (auto simp: mem)
  have r4: "bucket_opens m' = 0 \<and> \<not> ?ini'" if u: "?q u = j # js" and j: "before_bucket j" for u j js
  proof (cases "u = t")
    case True
    with new [of j js] u j none cl [OF hd] show ?thesis by (auto simp: mem opens_cluster_iff)
  next
    case False
    with old [OF u] quiet [of u j js] cl [of u j js] j show ?thesis by (simp add: opens_cluster_iff)
  qed
  have r5: "opens m' \<noteq> 0" if u: "?q u = j # js" and j: "j = OpenBucket \<or> j = AwaitBucket f" for u j js f
  proof (cases "u = t")
    case True
    with new [of j js] u j bo [OF hd] show ?thesis by (auto simp: mem)
  next
    case False
    with old [OF u] quiet [of u j js] bo [of u j js] j show ?thesis by auto
  qed
  have r6: "bucket_opens m' = 1 \<and> \<not> ?ini'" if u: "?q u = SetInitialized # js" for u js
  proof (cases "u = t")
    case True
    with new [of SetInitialized js] u step show ?thesis by (auto simp: mem)
  next
    case False
    with old [OF u] quiet [of u SetInitialized js] si [of u js] show ?thesis by simp
  qed
  have r7: "?ini' \<or> (\<exists>u js. ?q u = SetInitialized # js)" if b: "bucket_opens m' \<noteq> 0"
  proof (cases "\<exists>f. i = AwaitBucket f \<and> future_get f m")
    case True
    then have "front = [SetInitialized]" using ex by (cases t) (auto simp: exec_def)
    then have "?q t = SetInitialized # rest" by simp
    then show ?thesis by blast
  next
    case False
    then consider "?ini" | u js where "p u = SetInitialized # js" using b some by (auto simp: mem)
    then show ?thesis
    proof cases
      case (2 u js)
      show ?thesis
      proof (cases "u = t")
        case True
        with 2 hd have "i = SetInitialized" by simp
        then show ?thesis by (simp add: mem)
      next
        case False
        with kept [of u] 2 have "?q u = SetInitialized # js" by simp
        then show ?thesis by blast
      qed
    qed (simp add: mem)
  qed
  have r8: "f < next_future m'" if u: "?q u = j # js" and j: "awaits j f" for u j js f
  proof (cases "u = t")
    case True
    with new [of j js] u j mem(3) show ?thesis by (auto simp: awaits_def)
  next
    case False
    have "opens_cluster j" using j by (auto simp: awaits_def)
    with old [OF u False] nf [of u j js f] j mem(3) show ?thesis by auto
  qed
  show ?thesis
    by (rule opening_okI; unfold threads.select_convs)
      (rule r1, rule r2, erule r3, erule (1) r4, erule (1) r5, erule r6, erule r7, erule (1) r8)
qed

lemma answer_opening_ok: "opening_ok \<lparr>mem = answer_future f ok m, prog = p\<rparr> = opening_ok \<lparr>mem = m, prog = p\<rparr>"
  by (simp add: opening_ok_def)

lemma opening_ok_step:
  assumes "tstep K s s'" and "threads_ok s" and "opening_ok s"
  shows "opening_ok s'"
  using assms
proof (induction rule: tstep.induct)
  case (thread_step p t i rest m c m' front)
  from opening_thread_step [OF thread_step(1,4-6)] show ?case .
qed (simp add: answer_opening_ok)

lemma treach_opening_ok: "treach K s \<Longrightarrow> 0 \<notin> K \<Longrightarrow> opening_ok s"
  by (induction rule: treach.induct) (auto intro: opening_ok_new opening_ok_step treach_ok)

section \<open>Progress of the owner of a lock\<close>

text \<open>How many instructions a thread has before it unlocks, with the ones a test may put in front.\<close>

fun section_length :: "instr list \<Rightarrow> nat" where
  "section_length [] = 0"
| "section_length (UnlockI mx # is) = 1"
| "section_length (TestInitialized # is) = 6 + section_length is"
| "section_length (OpenCluster # is) = 5 + section_length is"
| "section_length (AwaitOpen f # is) = 4 + section_length is"
| "section_length (OpenBucket # is) = 3 + section_length is"
| "section_length (AwaitBucket f # is) = 2 + section_length is"
| "section_length (IfHandle d # is) = 2 + section_length is"
| "section_length (IfOwnHandle # is) = 4 + section_length is"
| "section_length (TestGenerated # is) = 3 + section_length is"
| "section_length (i # is) = 1 + section_length is"

lemma section_shorter:
  assumes "exec c t i m = Inr (m', front)" and "lock_free i"
  shows "section_length (front @ rest) < section_length (i # rest)"
  using assms
  by (cases t; cases i) (auto simp: exec_def rbind_eq_Inr obj_of_def split: if_splits option.splits)

text \<open>In its section a thread waits for nothing but a callback of the client, and that in the section of \<open>wmutex\<close>.\<close>

lemma owner_ready:
  assumes ok: "threads_ok \<lparr>mem = m, prog = p\<rparr>" and op: "opening_ok \<lparr>mem = m, prog = p\<rparr>"
    and p: "p t = i # rest" and h: "held_by (p t) = Some mx"
  shows "enabled i m \<or> mx = WMutex \<and> (\<exists>f. awaits i f \<and> may_answer f m)"
proof (cases "\<exists>f. awaits i f")
  case True
  then obtain f where f: "awaits i f" ..
  have "f < next_future m" using op p f unfolding opening_ok_def threads.select_convs by blast
  moreover have "mx = WMutex" using opening_section [OF op, of t i rest] p h f by (auto simp: awaits_def)
  moreover have "enabled i m \<longleftrightarrow> futures m f \<noteq> Pending" using f by (auto simp: awaits_def enabled_def)
  ultimately show ?thesis using f by (auto simp: may_answer_def)
next
  case False
  with p h show ?thesis by (cases i) (auto simp: enabled_def awaits_def)
qed

lemma owner_served:
  assumes ok: "threads_ok \<lparr>mem = m, prog = p\<rparr>" and op: "opening_ok \<lparr>mem = m, prog = p\<rparr>"
    and p: "p t = i # rest" and h: "held_by (p t) = Some mx"
  obtains m1 where "(tstep K)\<^sup>*\<^sup>* \<lparr>mem = m, prog = p\<rparr> \<lparr>mem = m1, prog = p\<rparr>" and "enabled i m1"
    and "threads_ok \<lparr>mem = m1, prog = p\<rparr>" and "opening_ok \<lparr>mem = m1, prog = p\<rparr>"
proof (cases "enabled i m")
  case True
  with ok op show thesis by (intro that [of m]) simp_all
next
  case False
  then obtain f where f: "awaits i f" "may_answer f m" using owner_ready [OF ok op p h] by blast
  then have "enabled i (answer_future f True m)" by (auto simp: awaits_def enabled_def answer_future_def)
  with client_step [OF f(2)] answer_threads_ok [OF ok] op show thesis
    by (intro that [of "answer_future f True m"]) (simp_all add: answer_opening_ok r_into_rtranclp)
qed

lemma owner_step:
  assumes ok: "threads_ok \<lparr>mem = m, prog = p\<rparr>" and p: "p t = i # rest" and h: "held_by (p t) = Some mx" and en: "enabled i m"
  obtains m' front where "tstep K \<lparr>mem = m, prog = p\<rparr> \<lparr>mem = m', prog = p(t := front @ rest)\<rparr>"
    and "exec No t i m = Inr (m', front)" and "i = UnlockI mx \<or> lock_free i \<and> held_by (front @ rest) = Some mx"
proof -
  obtain m' front where ex: "exec No t i m = Inr (m', front)" using thread_runs [OF ok p] by blast
  have b: "bracketed (Some mx) (i # rest)"
    using ok h p by (metis threads_ok_def locks_ok_def threads.select_convs(2))
  then have kind: "i = UnlockI mx \<or> lock_free i" by (cases i) auto
  have "i \<noteq> SpawnWorker" using kind by auto
  then have "tstep K \<lparr>mem = m, prog = p\<rparr> \<lparr>mem = m', prog = p(t := front @ rest)\<rparr>"
    using thread_step [of p t i rest m K No m' front] p ex en by (simp add: may_choose_def start_worker_def split: instr.split)
  moreover have "held_by (front @ rest) = Some mx" if "lock_free i"
    using bracketed_held_by [OF exec_bracketed [OF ex b]] that by (cases i) auto
  ultimately show thesis using that ex kind by blast
qed

lemma owner_releases:
  assumes "threads_ok s" and "opening_ok s" and "held_by (prog s t) = Some mx" and "0 \<notin> K"
  shows "\<exists>s'. (tstep K)\<^sup>*\<^sup>* s s' \<and> held (mem s') mx = None \<and> (\<forall>u. u \<noteq> t \<longrightarrow> prog s' u = prog s u)"
  using assms(1-3)
proof (induction "section_length (prog s t)" arbitrary: s rule: less_induct)
  case less
  obtain m0 p where s: "s = \<lparr>mem = m0, prog = p\<rparr>" by (cases s) auto
  from less.prems obtain i rest where p: "p t = i # rest" by (cases "p t") (auto simp: s)
  have h: "held_by (p t) = Some mx" using less.prems(3) by (simp add: s)
  obtain m where pre: "(tstep K)\<^sup>*\<^sup>* s \<lparr>mem = m, prog = p\<rparr>" "enabled i m"
    and ok: "threads_ok \<lparr>mem = m, prog = p\<rparr>" "opening_ok \<lparr>mem = m, prog = p\<rparr>"
    using owner_served [OF less.prems(1,2) [unfolded s] p h] unfolding s by blast
  obtain m' front where st: "tstep K \<lparr>mem = m, prog = p\<rparr> \<lparr>mem = m', prog = p(t := front @ rest)\<rparr>"
    and ex: "exec No t i m = Inr (m', front)" and i: "i = UnlockI mx \<or> lock_free i \<and> held_by (front @ rest) = Some mx"
    by (rule owner_step [OF ok(1) p h pre(2)])
  let ?s = "\<lparr>mem = m', prog = p(t := front @ rest)\<rparr>"
  have run: "(tstep K)\<^sup>*\<^sup>* s ?s" using pre(1) st by (rule rtranclp.rtrancl_into_rtrancl)
  show ?case
  proof (cases "i = UnlockI mx")
    case True
    with run exec_held [OF ex] show ?thesis by (intro exI [of _ ?s]) (simp add: held_after_def s)
  next
    case False
    have "section_length (prog ?s t) < section_length (prog s t)"
      using section_shorter [OF ex] False i p by (simp add: s)
    moreover have "threads_ok ?s" "opening_ok ?s"
      using tstep_threads_ok [OF st assms(4) ok(1)] opening_ok_step [OF st ok] by blast+
    moreover have "held_by (prog ?s t) = Some mx" using False i by simp
    ultimately obtain s' where "(tstep K)\<^sup>*\<^sup>* ?s s'" "held (mem s') mx = None" "\<forall>u. u \<noteq> t \<longrightarrow> prog s' u = prog ?s u"
      using less.hyps by blast
    with run show ?thesis by (intro exI [of _ s']) (auto simp: s)
  qed
qed

end
