(* ===== verification/Concurrency.thy ===== *)
theory Concurrency
  imports ThreadProps
begin

text \<open>
  The properties of the threads, and the runs that show what their locks leave open. A run is a
  list of moves: a thread with the choice it makes, or a callback with its outcome.
\<close>

section \<open>Runs\<close>

datatype move = Run thread_id choice | Answer nat bool

fun sched :: "64 word set \<Rightarrow> move list \<Rightarrow> 'j threads \<Rightarrow> 'j threads option" where
  "sched K [] s = Some s"
| "sched K (Run t c # mvs) s =
     (case prog s t of
        [] \<Rightarrow> None
      | i # rest \<Rightarrow>
          if enabled i (mem s) \<and> may_choose K (prog s) i c
          then (case exec c t i (mem s) of
                  Inl _ \<Rightarrow> None
                | Inr (m', front) \<Rightarrow>
                    sched K mvs \<lparr>mem = m', prog = (start_worker i (mem s) (prog s))(t := front @ rest)\<rparr>)
          else None)"
| "sched K (Answer f ok # mvs) s =
     (if may_answer f (mem s) then sched K mvs \<lparr>mem = answer_future f ok (mem s), prog = prog s\<rparr> else None)"

lemma tstep_of: "tstep K \<lparr>mem = mem s, prog = prog s\<rparr> s' \<Longrightarrow> tstep K s s'"
  by (cases s) simp

text \<open>One move is one step.\<close>

lemma sched_move:
  assumes "sched K (mv # mvs) s = Some s'"
  obtains s1 where "tstep K s s1" and "sched K mvs s1 = Some s'"
proof (cases mv)
  case (Run t c)
  obtain i rest where p: "prog s t = i # rest" using assms Run by (cases "prog s t") auto
  then have g: "enabled i (mem s)" "may_choose K (prog s) i c" using assms Run by (auto split: if_splits)
  obtain m' front where ex: "exec c t i (mem s) = Inr (m', front)"
    using assms Run p g by (cases "exec c t i (mem s)") auto
  from that [OF tstep_of [OF thread_step [of "prog s" t i rest "mem s" K c m' front]]] assms Run p g ex
  show thesis by simp
next
  case (Answer f ok)
  then have "may_answer f (mem s)" using assms by (auto split: if_splits)
  from that [OF tstep_of [OF client_step [OF this, of K "prog s" ok]]] assms Answer this show thesis by simp
qed

lemma sched_reach: "sched K mvs s = Some s' \<Longrightarrow> treach K s \<Longrightarrow> treach K s'"
proof (induction mvs arbitrary: s)
  case (Cons mv mvs)
  obtain s1 where "tstep K s s1" "sched K mvs s1 = Some s'" by (rule sched_move [OF Cons.prems(1)])
  with Cons.IH Cons.prems(2) show ?case by (blast intro: treach_step)
qed simp

lemma sched_append: "sched K (mvs @ mvs') s = (case sched K mvs s of None \<Rightarrow> None | Some s1 \<Rightarrow> sched K mvs' s1)"
  by (induction K mvs s rule: sched.induct) (auto split: list.split sum.split)

text \<open>The steps of one thread in a row, and the runs in which worker \<open>d\<close> is accepted and opens handle \<open>k\<close>.\<close>

definition by_thread :: "thread_id \<Rightarrow> choice list \<Rightarrow> move list" where
  "by_thread t cs = map (Run t) cs"

definition accept_run :: "move list" where
  "accept_run = by_thread MainThread [CAccept, No]"

text \<open>A first opening: the client answers both calls, the second with \<open>ok\<close>.\<close>

definition ask_run :: "nat \<Rightarrow> 64 word \<Rightarrow> bool \<Rightarrow> nat \<Rightarrow> bool \<Rightarrow> move list" where
  "ask_run d k use f ok = by_thread (WorkerThread d) (CNewHandle k use # replicate 4 Yes) @ [Answer f True] @
     by_thread (WorkerThread d) [Yes, Yes] @ [Answer (Suc f) ok, Run (WorkerThread d) Yes]"

definition open_run :: "nat \<Rightarrow> 64 word \<Rightarrow> bool \<Rightarrow> move list" where
  "open_run d k use = ask_run d k use 0 True @ by_thread (WorkerThread d) [Yes, Yes, Yes]"

definition register_run :: "nat \<Rightarrow> move list" where
  "register_run d = by_thread (WorkerThread d) (replicate 5 No)"

lemma sched_new: "sched K tcs (threads_new :: unit threads) = Some s \<Longrightarrow> treach K s"
  using sched_reach treach_start by blast

text \<open>A run that goes through and what its last state satisfies.\<close>

definition run_to :: "64 word set \<Rightarrow> move list \<Rightarrow> (unit threads \<Rightarrow> bool) \<Rightarrow> bool" where
  "run_to K tcs P = (case sched K tcs threads_new of None \<Rightarrow> False | Some s \<Rightarrow> P s)"

lemma run_toD: "run_to K tcs P \<Longrightarrow> \<exists>s. treach K s \<and> P s"
  using sched_new by (auto simp: run_to_def split: option.splits)

text \<open>Two workers open handles: one is in the section of \<open>ensureCluster\<close>, the other waits for it.\<close>

lemma contended:
  obtains s :: "unit threads" and rest where "treach {1, 2} s" and "prog s (WorkerThread 1) = LockI WMutex # rest"
    and "held (mem s) WMutex = Some (WorkerThread 0)"
proof -
  have "run_to {1, 2} (accept_run @ accept_run @ by_thread (WorkerThread 0) [CNewHandle 1 False, No, No] @
      by_thread (WorkerThread 1) [CNewHandle 2 False, No])
      (\<lambda>s. prog s (WorkerThread 1) = ensureCluster_code @ [IfOpen 2 False, SelectLoop] \<and>
        held (mem s) WMutex = Some (WorkerThread 0))"
    by code_simp
  then obtain s :: "unit threads" where "treach {1, 2} s"
    "prog s (WorkerThread 1) = LockI WMutex # [TestInitialized, UnlockI WMutex, IfOpen 2 False, SelectLoop]"
    "held (mem s) WMutex = Some (WorkerThread 0)"
    using run_toD [of "{1, 2}"] by (auto simp: ensureCluster_code_def)
  then show thesis by (rule that)
qed

section \<open>Cancelling\<close>

definition cancelled :: "nat \<Rightarrow> 'j threads \<Rightarrow> bool" where
  "cancelled d s \<longleftrightarrow> (case objs (mem s) d of None \<Rightarrow> False
     | Some ob \<Rightarrow> (case o_handle ob of None \<Rightarrow> False | Some a \<Rightarrow> handles (mem s) a = Some True))"

text \<open>Nobody but the worker itself takes back a cancellation.\<close>

lemma worker_keeps_flag:
  assumes ok: "threads_ok \<lparr>mem = m, prog = p\<rparr>" and p: "p (WorkerThread e) = i # rest"
    and ex: "exec c (WorkerThread e) i m = Inr (m', front)"
    and d: "objs m d = Some ob" "o_handle ob = Some a" "e \<noteq> d" and flag: "handles m a = Some True"
  shows "handles m' a = Some True"
proof -
  obtain oe where oe: "objs m e = Some oe"
    and safe: "wsafe e (i # rest) (o_handle oe \<noteq> None) (in_memory oe m) (o_hid oe) (named_by e m)"
    by (rule worker_next [OF ok p])
  have h: "handles_ok m" using ok by (simp add: threads_ok_def)
  have "o_handle oe \<noteq> Some a" "a \<noteq> next_handle m"
    using h d oe unfolding handles_ok_def by blast+
  with safe ex flag oe show ?thesis
    by (cases i) (auto simp: exec_def mutex_lock_def mutex_unlock_def put_obj_def obj_of_def handle_of_def rbind_eq_Inr
        split: if_splits option.splits choice.splits)
qed

lemma main_keeps_flag:
  assumes ok: "threads_ok \<lparr>mem = m, prog = p\<rparr>" and p: "p MainThread = i # rest"
    and ch: "may_choose K p i c" and ex: "exec c MainThread i m = Inr (m', front)"
    and d: "p (WorkerThread d) \<noteq> []" and flag: "cancelled d \<lparr>mem = m, prog = p\<rparr>"
  shows "cancelled d \<lparr>mem = m', prog = q\<rparr>"
proof -
  obtain ob a where ob: "objs m d = Some ob" "o_handle ob = Some a" "handles m a = Some True"
    using flag by (auto simp: cancelled_def split: option.splits)
  have fresh: "objs m (next_obj m) = None" using ok by (force simp: threads_ok_def objs_ok_def)
  have "o_handle oe = None" if "i = CollectWorker e" "c = Yes" "objs m e = Some oe" for e oe
  proof -
    have "p (WorkerThread e) = []" using ch that by (simp add: may_choose_def)
    then have "worker_ok e [] m" using ok by (metis threads_ok_def threads.select_convs)
    with that show ?thesis by (simp add: worker_ok_def)
  qed
  moreover have "i \<noteq> CollectWorker d \<or> c \<noteq> Yes" using ch d by (auto simp: may_choose_def)
  ultimately show ?thesis using ex ob fresh
    by (cases i) (auto simp: cancelled_def exec_def mutex_lock_def mutex_unlock_def obj_of_def handle_of_def rbind_eq_Inr Let_def
        split: if_splits option.splits choice.splits prod.splits)
qed

lemma poll_step:
  assumes st: "tstep K s s'" and ok: "threads_ok s" and p: "prog s (WorkerThread d) = Poll # rest" and flag: "cancelled d s"
  shows "prog s' (WorkerThread d) = rest \<or> prog s' (WorkerThread d) = Poll # rest \<and> cancelled d s'"
  using assms
proof (induction rule: tstep.induct)
  case (thread_step p t i js m c m' front)
  note ok = thread_step.prems(1) and pd = thread_step.prems(2) [simplified] and ex = thread_step.hyps(4)
  obtain ob a where ob: "objs m d = Some ob" "o_handle ob = Some a" "handles m a = Some True"
    using thread_step.prems(3) by (auto simp: cancelled_def split: option.splits)
  have kept: "start_worker i m p (WorkerThread d) = Poll # rest"
    using ok pd by (force simp: start_worker_def threads_ok_def objs_ok_def)
  show ?case
  proof (cases t)
    case MainThread
    with main_keeps_flag [OF ok _ thread_step.hyps(3), of js m' front d] thread_step.hyps(1) ex pd thread_step.prems(3) kept
    show ?thesis by simp
  next
    case (WorkerThread e)
    show ?thesis
    proof (cases "e = d")
      case True
      then have "i = Poll" "js = rest" using thread_step.hyps(1) pd WorkerThread by auto
      with ex ob True WorkerThread show ?thesis by (auto simp: exec_def obj_of_def handle_of_def)
    next
      case False
      have pe: "p (WorkerThread e) = i # js" and exe: "exec c (WorkerThread e) i m = Inr (m', front)"
        using thread_step.hyps(1) ex WorkerThread by simp_all
      obtain oe where oe: "objs m e = Some oe"
        "wsafe e (i # js) (o_handle oe \<noteq> None) (in_memory oe m) (o_hid oe) (named_by e m)"
        by (rule worker_next [OF ok pe])
      have "handles m' a = Some True" using worker_keeps_flag [OF ok pe exe ob(1,2) False ob(3)] .
      moreover have "objs m' d = objs m d"
        using exe oe False by (cases i) (auto simp: exec_def mutex_lock_def mutex_unlock_def put_obj_def obj_of_def
          handle_of_def rbind_eq_Inr split: if_splits option.splits choice.splits)
      ultimately show ?thesis using kept WorkerThread False ob by (simp add: cancelled_def)
    qed
  qed
qed (auto simp: cancelled_def split: option.splits)

text \<open>The test of a worker whose flag is set ends its operation, whatever the choice.\<close>

lemma poll_ends: "cancelled d s \<Longrightarrow> exec c (WorkerThread d) Poll (mem s) = Inr (mem s, [])"
  by (auto simp: cancelled_def exec_def obj_of_def handle_of_def split: option.splits)

lemma poll_run:
  assumes "(tstep K)\<^sup>*\<^sup>* s s'" and "treach K s" and "0 \<notin> K" and "prog s (WorkerThread d) = Poll # rest" and "cancelled d s"
  shows "prog s' (WorkerThread d) = Poll # rest \<and> cancelled d s' \<or>
    (\<exists>s1. (tstep K)\<^sup>*\<^sup>* s s1 \<and> prog s1 (WorkerThread d) = rest \<and> (tstep K)\<^sup>*\<^sup>* s1 s')"
  using assms(1)
proof (induction rule: rtranclp_induct)
  case base
  with assms(4,5) show ?case by simp
next
  case (step s1 s2)
  have "treach K s1" using step(1) assms(2) by (induction rule: rtranclp_induct) (auto intro: treach_step)
  note ok = treach_ok [OF this assms(3)]
  have run: "(tstep K)\<^sup>*\<^sup>* s s2" using step(1,2) by simp
  from step.IH show ?case
  proof
    assume "prog s1 (WorkerThread d) = Poll # rest \<and> cancelled d s1"
    with poll_step [OF step(2) ok] run show ?case by blast
  next
    assume "\<exists>s0. (tstep K)\<^sup>*\<^sup>* s s0 \<and> prog s0 (WorkerThread d) = rest \<and> (tstep K)\<^sup>*\<^sup>* s0 s1"
    then obtain s0 where "(tstep K)\<^sup>*\<^sup>* s s0" "prog s0 (WorkerThread d) = rest" "(tstep K)\<^sup>*\<^sup>* s0 s1" by blast
    moreover from this(3) step(2) have "(tstep K)\<^sup>*\<^sup>* s0 s2" by (rule rtranclp.rtrancl_into_rtrancl)
    ultimately show ?case by blast
  qed
qed

section \<open>Properties\<close>

text \<open>
  C5: in every interleaving of the statements of the control thread and any number of workers that
  touch shared memory, no thread uses a deleted worker or handle, and no two threads are in the
  section of one mutex; provided that no client uses the handle number zero.
\<close>

theorem threads_memory_safe:
  assumes "treach K s" and "0 \<notin> K"
  shows "\<not> crashes s \<and>
    (\<forall>t u mx. held_by (prog s t) = Some mx \<and> held_by (prog s u) = Some mx \<longrightarrow> t = u)"
proof -
  obtain m p where s: "s = \<lparr>mem = m, prog = p\<rparr>" by (cases s) auto
  have ok: "threads_ok \<lparr>mem = m, prog = p\<rparr>" using treach_ok [OF assms] by (simp add: s)
  have "exec c t i m \<noteq> Inl h" if "p t = i # rest" for t i rest c h
    using thread_runs [OF ok that, of c] by auto
  then have "\<not> crashes s" by (auto simp: crashes_def s)
  moreover have "locks_ok s" using ok by (simp add: threads_ok_def s)
  ultimately show ?thesis using one_owner by blast
qed

lemma threads_memory_safe_witness:
  "\<exists>s. treach {1} (s :: unit threads) \<and> held_by (prog s MainThread) = Some (HMutex 0) \<and>
     held_by (prog s (WorkerThread 0)) \<noteq> Some (HMutex 0) \<and> \<not> crashes s"
proof -
  have "run_to {1} (accept_run @ open_run 0 1 False @ register_run 0 @ by_thread MainThread [CCancel 1, No, No])
      (\<lambda>s. held_by (prog s MainThread) = Some (HMutex 0))"
    by code_simp
  then obtain s :: "unit threads" where s: "treach {1} s" "held_by (prog s MainThread) = Some (HMutex 0)"
    using run_toD by blast
  have "(0 :: 64 word) \<notin> {1}" by simp
  from threads_memory_safe [OF s(1) this] s show ?thesis by blast
qed

text \<open>
  The proviso is needed: after the worker with number zero has been collected, a CANCEL for zero
  locks the mutex of the deleted object.
\<close>

lemma zero_crashes: "\<exists>s. treach {0} (s :: unit threads) \<and> crashes s"
proof -
  have "run_to {0} (accept_run @ open_run 0 0 False @ register_run 0 @ by_thread (WorkerThread 0) (CClose # replicate 7 No) @
      by_thread MainThread [CCollect, Yes, CCancel 0, No])
      (\<lambda>s. prog s MainThread \<noteq> [] \<and> hd (prog s MainThread) = LockI (HMutex 0) \<and> objs (mem s) 0 = None \<and>
        held (mem s) (HMutex 0) = None)"
    by code_simp
  then obtain s :: "unit threads" where s: "treach {0} s" "prog s MainThread \<noteq> []"
    "hd (prog s MainThread) = LockI (HMutex 0)" "objs (mem s) 0 = None" "held (mem s) (HMutex 0) = None"
    using run_toD by blast
  then obtain rest where "prog s MainThread = LockI (HMutex 0) # rest" by (cases "prog s MainThread") auto
  with s have "crashes s"
    unfolding crashes_def
    by (intro exI [of _ MainThread] exI [of _ "LockI (HMutex 0)"] exI [of _ rest])
      (auto simp: enabled_def exec_def mutex_lock_def mutex_ok_def)
  with s(1) show ?thesis by blast
qed

text \<open>
  C19: provided that no client uses the handle number zero: a thread that waits for a mutex waits for
  another thread; that thread can go on, or is in \<open>ensureCluster\<close> and waits for a callback the client
  still owes it, and for nothing else; and once the client calls back, steps of that thread alone
  release the mutex.
\<close>

theorem no_deadlock:
  assumes "treach K s" and "0 \<notin> K" and "prog s t = LockI mx # rest" and "held (mem s) mx = Some u"
  shows "u \<noteq> t \<and>
    (\<exists>i js. prog s u = i # js \<and>
      (enabled i (mem s) \<or> mx = WMutex \<and> (\<exists>f. (i = AwaitOpen f \<or> i = AwaitBucket f) \<and> may_answer f (mem s)))) \<and>
    (\<exists>s'. (tstep K)\<^sup>*\<^sup>* s s' \<and> held (mem s') mx = None \<and> (\<forall>v. v \<noteq> u \<longrightarrow> prog s' v = prog s v))"
proof -
  obtain m p where s: "s = \<lparr>mem = m, prog = p\<rparr>" by (cases s) auto
  have ok: "threads_ok \<lparr>mem = m, prog = p\<rparr>" using treach_ok [OF assms(1,2)] by (simp add: s)
  have op: "opening_ok \<lparr>mem = m, prog = p\<rparr>" using treach_opening_ok [OF assms(1,2)] by (simp add: s)
  have h: "held_by (p u) = Some mx" using ok assms(4) by (simp add: threads_ok_def locks_ok_def s)
  then have "u \<noteq> t" using assms(3) by (auto simp: s)
  moreover obtain i js where i: "p u = i # js" using h by (cases "p u") auto
  moreover have "enabled i m \<or> mx = WMutex \<and> (\<exists>f. (i = AwaitOpen f \<or> i = AwaitBucket f) \<and> may_answer f m)"
    using owner_ready [OF ok op i h] by (auto simp: awaits_def)
  ultimately show ?thesis using owner_releases [OF ok op _ assms(2), of u mx] h by (simp add: s)
qed

lemma no_deadlock_witness:
  "\<exists>s s' rest. treach {1, 2} (s :: unit threads) \<and> prog s (WorkerThread 1) = LockI WMutex # rest \<and>
     held (mem s) WMutex = Some (WorkerThread 0) \<and> (tstep {1, 2})\<^sup>*\<^sup>* s s' \<and> held (mem s') WMutex = None \<and>
     prog s' (WorkerThread 1) = LockI WMutex # rest"
proof -
  obtain s :: "unit threads" and rest where s: "treach {1, 2} s" "prog s (WorkerThread 1) = LockI WMutex # rest"
    "held (mem s) WMutex = Some (WorkerThread 0)" by (rule contended)
  have "(0 :: 64 word) \<notin> {1, 2}" by simp
  from no_deadlock [OF s(1) this s(2,3)] obtain s' where "(tstep {1, 2})\<^sup>*\<^sup>* s s'" "held (mem s') WMutex = None"
    "prog s' (WorkerThread 1) = prog s (WorkerThread 1)"
    by auto
  with s show ?thesis by (intro exI [of _ s] exI [of _ s'] exI [of _ rest]) simp
qed

text \<open>
  The callback is needed: until it comes the thread stays where it is, whatever the others do, and
  keeps \<open>wmutex\<close>. There is no timeout.
\<close>

lemma callback_awaited:
  assumes "treach K s" and "0 \<notin> K" and "tstep K s s'" and "prog s u = i # js" and "awaits i f"
    and "futures (mem s) f = Pending" and "futures (mem s') f = Pending"
  shows "prog s' u = i # js \<and> held (mem s') WMutex = Some u"
proof -
  have ok: "threads_ok s" "opening_ok s" by (rule treach_ok [OF assms(1,2)], rule treach_opening_ok [OF assms(1,2)])
  have "opens_cluster i" using assms(5) by (auto simp: awaits_def)
  then have h: "held_by (prog s u) = Some WMutex" using opening_section [OF ok(2) assms(4)] by blast
  from assms(3,4) have "prog s' u = i # js"
  proof (cases rule: tstep.cases)
    case (thread_step p t j rest m c m' front)
    have "\<not> enabled i m" using assms(5,6) thread_step(1) by (auto simp: awaits_def enabled_def)
    then have "u \<noteq> t" using thread_step assms(4) by auto
    with thread_step assms(4) ok show ?thesis by (force simp: start_worker_def threads_ok_def objs_ok_def)
  qed (use assms(4) in simp)
  moreover have "threads_ok s'" by (rule tstep_threads_ok [OF assms(3,2) ok(1)])
  ultimately show ?thesis using h assms(4) by (simp add: threads_ok_def locks_ok_def)
qed

text \<open>
  C20: every step of any thread is none, one or more steps of the abstract registry, so that an owner
  of a number exists and owns no other; the rounds of \<open>System\<close> refine the same machine.
\<close>

theorem threads_refine_registry:
  assumes "treach K s" and "0 \<notin> K" and "tstep K s s'"
  shows "registry_ok (thread_registry s) \<and> astep\<^sup>*\<^sup>* (thread_registry s) (thread_registry s')"
  using threads_ok_registry [OF treach_ok [OF assms(1,2)]] tstep_refines [OF assms(3) treach_ok [OF assms(1,2)] assms(2)]
  by blast

text \<open>One more step of a run.\<close>

lemma run_step:
  assumes "run_to K (mvs @ [mv]) P"
  obtains s s' where "treach K s" and "sched K mvs threads_new = Some s" and "tstep K s s'" and "P s'"
proof -
  obtain s s' where s: "sched K mvs threads_new = Some s" "sched K [mv] s = Some s'" "P s'"
    using assms by (auto simp: run_to_def sched_append split: option.splits)
  obtain s1 where "tstep K s s1" "sched K [] s1 = Some s'" by (rule sched_move [OF s(2)])
  with that [OF sched_new [OF s(1)] s(1)] s(3) show thesis by simp
qed

lemma threads_refine_registry_witness:
  "\<exists>s s'. tstep {1} (s :: unit threads) s' \<and> owner (thread_registry s') 1 = Some 0 \<and>
     registry_ok (thread_registry s) \<and> astep\<^sup>*\<^sup>* (thread_registry s) (thread_registry s')"
proof -
  have "run_to {1} ((accept_run @ open_run 0 1 False @ by_thread (WorkerThread 0) [No, No, No]) @ [Run (WorkerThread 0) No])
      (\<lambda>s. owners (m_shared (mem s)) 1 = Some 0)"
    by code_simp
  then obtain s s' :: "unit threads" where s: "treach {1} s" "tstep {1} s s'" "owners (m_shared (mem s')) 1 = Some 0"
    by (rule run_step)
  from s(3) have o': "owner (thread_registry s') 1 = Some 0" by (simp add: thread_registry_def)
  have "(0 :: 64 word) \<notin> {1}" by simp
  from threads_refine_registry [OF s(1) this s(2)] s(2) o' show ?thesis by blast
qed

text \<open>
  C21: provided that no client uses the handle number zero: however many workers call \<open>ensureCluster\<close>
  at once, only one at a time is past its test; the bucket is opened at most once; and once
  \<open>cluster_initialized\<close> is set, the cluster has been opened, the bucket exactly once, and no thread
  opens either again.
\<close>

theorem cluster_opening_serialised:
  assumes "treach K s" and "0 \<notin> K"
  shows "(\<forall>t u i j is js. prog s t = i # is \<and> prog s u = j # js \<and> opens_cluster i \<and> opens_cluster j \<longrightarrow> t = u) \<and>
    bucket_opens (mem s) \<le> 1 \<and>
    (cluster_initialized (m_shared (mem s)) \<longrightarrow> 0 < opens (mem s) \<and> bucket_opens (mem s) = 1 \<and>
       (\<forall>t i is. prog s t = i # is \<longrightarrow> \<not> opens_cluster i))"
proof -
  have op: "opening_ok s" by (rule treach_opening_ok [OF assms])
  have l: "locks_ok s" using treach_ok [OF assms] by (simp add: threads_ok_def)
  have "t = u" if "prog s t = i # is" "prog s u = j # js" "opens_cluster i" "opens_cluster j" for t u i j "is" js
    using one_owner [OF l] opening_section [OF op] that by blast
  moreover have "bucket_opens (mem s) = 1 \<or> bucket_opens (mem s) = 0" and "bucket_opens (mem s) \<le> opens (mem s)"
    using op unfolding opening_ok_def by blast+
  moreover have "\<not> opens_cluster i" if "cluster_initialized (m_shared (mem s))" "prog s t = i # is" for t i "is"
    using op that unfolding opening_ok_def opens_cluster_iff by blast
  moreover have "cluster_initialized (m_shared (mem s)) \<Longrightarrow> bucket_opens (mem s) = 1" using op by (simp add: opening_ok_def)
  ultimately show ?thesis by (intro conjI allI impI) auto
qed

lemma cluster_opening_serialised_witness:
  "\<exists>s. treach {1, 2} (s :: unit threads) \<and> prog s (WorkerThread 0) = [SelectLoop] \<and> prog s (WorkerThread 1) = [SelectLoop] \<and>
     owners (m_shared (mem s)) 1 = Some 0 \<and> owners (m_shared (mem s)) 2 = Some 1 \<and> bucket_opens (mem s) = 1"
proof -
  have "run_to {1, 2} (accept_run @ accept_run @ open_run 0 1 False @ register_run 0 @
      by_thread (WorkerThread 1) (CNewHandle 2 False # replicate 5 No) @ register_run 1)
      (\<lambda>s. prog s (WorkerThread 0) = [SelectLoop] \<and> prog s (WorkerThread 1) = [SelectLoop] \<and>
        owners (m_shared (mem s)) 1 = Some 0 \<and> owners (m_shared (mem s)) 2 = Some 1 \<and>
        cluster_initialized (m_shared (mem s)))"
    by code_simp
  then obtain s :: "unit threads" where s: "treach {1, 2} s" "prog s (WorkerThread 0) = [SelectLoop]"
    "prog s (WorkerThread 1) = [SelectLoop]" "owners (m_shared (mem s)) 1 = Some 0" "owners (m_shared (mem s)) 2 = Some 1"
    "cluster_initialized (m_shared (mem s))"
    using run_toD [of "{1, 2}"] by blast
  have "(0 :: 64 word) \<notin> {1, 2}" by simp
  from cluster_opening_serialised [OF s(1) this] s show ?thesis by blast
qed

text \<open>
  The cluster itself may be opened again: when the bucket cannot be opened the flag stays clear, and
  the next NEWHANDLE opens the open cluster a second time.
\<close>

lemma cluster_reopened:
  "\<exists>s. treach {1, 2} (s :: unit threads) \<and> opens (mem s) = 2 \<and> open_calls (mem s) = 2 \<and> bucket_opens (mem s) = 1"
proof -
  have "run_to {1, 2} (accept_run @ accept_run @ ask_run 0 1 False 0 False @ by_thread (WorkerThread 0) [Yes, Yes] @
      ask_run 1 2 False 2 True)
      (\<lambda>s. opens (mem s) = 2 \<and> open_calls (mem s) = 2 \<and> bucket_opens (mem s) = 1)"
    by code_simp
  then show ?thesis using run_toD [of "{1, 2}"] by blast
qed

text \<open>
  C18: cancelling reaches a running operation, provided that no client uses the handle number zero.
  Once the flag of a worker that is at its test is set, the test ends the operation, however much of
  it is left; and in every continuation of the run, as long as the worker has not taken that step,
  it is at its test with the flag set.
\<close>

theorem cancel_stops_operation:
  assumes "treach K s" and "0 \<notin> K" and "prog s (WorkerThread d) = Poll # rest" and "cancelled d s"
  shows "(\<forall>c. exec c (WorkerThread d) Poll (mem s) = Inr (mem s, [])) \<and>
    (\<exists>s'. tstep K s s' \<and> prog s' (WorkerThread d) = rest) \<and>
    (\<forall>s'. (tstep K)\<^sup>*\<^sup>* s s' \<longrightarrow>
       (prog s' (WorkerThread d) = Poll # rest \<and> cancelled d s' \<and>
          (\<forall>c. exec c (WorkerThread d) Poll (mem s') = Inr (mem s', []))) \<or>
       (\<exists>s1. (tstep K)\<^sup>*\<^sup>* s s1 \<and> prog s1 (WorkerThread d) = rest \<and> (tstep K)\<^sup>*\<^sup>* s1 s'))"
proof -
  have tst: "exec c (WorkerThread d) Poll (mem s') = Inr (mem s', [])" if "cancelled d s'" for c and s' :: "'a threads"
    using that by (rule poll_ends)
  obtain m p where s: "s = \<lparr>mem = m, prog = p\<rparr>" by (cases s) auto
  have "tstep K s \<lparr>mem = m, prog = p(WorkerThread d := rest)\<rparr>"
    using thread_step [of p "WorkerThread d" Poll rest m K No m "[]"] assms(3) tst [OF assms(4), of No]
    by (simp add: enabled_def may_choose_def start_worker_def s)
  then have "\<exists>s'. tstep K s s' \<and> prog s' (WorkerThread d) = rest" by fastforce
  moreover have "prog s' (WorkerThread d) = Poll # rest \<and> cancelled d s' \<or>
      (\<exists>s1. (tstep K)\<^sup>*\<^sup>* s s1 \<and> prog s1 (WorkerThread d) = rest \<and> (tstep K)\<^sup>*\<^sup>* s1 s')" if "(tstep K)\<^sup>*\<^sup>* s s'" for s'
    by (rule poll_run [OF that assms])
  ultimately show ?thesis using tst assms(4) by blast
qed

lemma cancel_stops_operation_witness:
  "\<exists>s s'. treach {1} (s :: unit threads) \<and> prog s (WorkerThread 0) = [Poll, SelectLoop] \<and>
     exec Yes (WorkerThread 0) Poll (mem s) = Inr (mem s, []) \<and>
     tstep {1} s s' \<and> prog s' (WorkerThread 0) = [SelectLoop]"
proof -
  have "run_to {1} (accept_run @ open_run 0 1 False @ register_run 0 @ by_thread (WorkerThread 0) [COperation [], Yes, No, Yes] @
      by_thread MainThread [CCancel 1, No, No, No, No])
      (\<lambda>s. prog s (WorkerThread 0) = [Poll, SelectLoop] \<and> cancelled 0 s)"
    by code_simp
  then obtain s :: "unit threads" where s: "treach {1} s" "prog s (WorkerThread 0) = [Poll, SelectLoop]" "cancelled 0 s"
    using run_toD by blast
  have "(0 :: 64 word) \<notin> {1}" by simp
  from cancel_stops_operation [OF s(1) this s(2,3)] s show ?thesis by blast
qed

text \<open>
  A CANCEL that comes after its operation was read and before \<open>do_cancel\<close> is reset is lost: it sets
  the flag and is answered, and the operation polls a flag that is not set.
\<close>

lemma cancel_lost:
  "\<exists>s s'. treach {1} (s :: unit threads) \<and> cancelled 0 s \<and> prog s MainThread = [UnlockI (HMutex 0), MainLoop] \<and>
     prog s (WorkerThread 0) = [EnterOp, Poll, SelectLoop] \<and>
     tstep {1} s s' \<and> prog s' (WorkerThread 0) = [Poll, SelectLoop] \<and> \<not> cancelled 0 s'"
proof -
  let ?run = "accept_run @ open_run 0 1 False @ register_run 0 @ by_thread (WorkerThread 0) [COperation [], Yes] @
    by_thread MainThread [CCancel 1, No, No, No, No]"
  have "run_to {1} ?run (\<lambda>s. cancelled 0 s \<and> prog s MainThread = [UnlockI (HMutex 0), MainLoop] \<and>
      prog s (WorkerThread 0) = [EnterOp, Poll, SelectLoop])"
    by code_simp
  moreover have "run_to {1} (?run @ [Run (WorkerThread 0) No])
      (\<lambda>s. prog s (WorkerThread 0) = [Poll, SelectLoop] \<and> \<not> cancelled 0 s)"
    by code_simp
  then obtain s s' :: "unit threads" where s: "treach {1} s" "sched {1} ?run threads_new = Some s" "tstep {1} s s'"
    "prog s' (WorkerThread 0) = [Poll, SelectLoop] \<and> \<not> cancelled 0 s'"
    by (rule run_step)
  ultimately have "cancelled 0 s \<and> prog s MainThread = [UnlockI (HMutex 0), MainLoop] \<and>
      prog s (WorkerThread 0) = [EnterOp, Poll, SelectLoop]"
    by (simp add: run_to_def)
  with s(1,3,4) show ?thesis by blast
qed

text \<open>
  The test and the setting of \<open>collectionsGenerated\<close> are two accesses: two workers can both go on to
  create the collections.
\<close>

lemma collections_created_twice:
  "\<exists>s. treach {1, 2} (s :: unit threads) \<and> makers (mem s) = [WorkerThread 0, WorkerThread 1]"
proof -
  have "run_to {1, 2} (accept_run @ accept_run @ open_run 0 1 True @ register_run 0 @
      by_thread (WorkerThread 1) (CNewHandle 2 True # replicate 5 No) @ register_run 1 @
      [Run (WorkerThread 0) No, Run (WorkerThread 1) No] @ by_thread (WorkerThread 0) [No, No] @ by_thread (WorkerThread 1) [No, No])
      (\<lambda>s. makers (mem s) = [WorkerThread 0, WorkerThread 1])"
    by code_simp
  then show ?thesis using run_toD [of "{1, 2}"] by blast
qed

text \<open>
  CANCEL reads, and inserts into, the map of handles without its mutex, while a worker that holds the
  mutex is about to insert.
\<close>

lemma registry_race:
  "\<exists>s. treach {1} (s :: unit threads) \<and> prog s MainThread = [FindWorker 1, MainLoop] \<and>
     prog s (WorkerThread 0) = [MapInsert 1, UnlockI WMutex, SelectLoop] \<and> held_by (prog s MainThread) = None"
proof -
  have "run_to {1} (accept_run @ open_run 0 1 False @ by_thread (WorkerThread 0) [No, No, No] @ by_thread MainThread [CCancel 1])
      (\<lambda>s. prog s MainThread = [FindWorker 1, MainLoop] \<and>
        prog s (WorkerThread 0) = [MapInsert 1, UnlockI WMutex, SelectLoop] \<and> held_by (prog s MainThread) = None)"
    by code_simp
  then show ?thesis using run_toD by blast
qed

end
