(* ===== verification/OsThreads.thy ===== *)
theory OsThreads
  imports Concurrency
begin

text \<open>
  The thread and mutex classes of \<open>src/Thread.h\<close> over the two operating systems
  (\<open>src/ThreadUnix.cpp\<close>, \<open>src/ThreadWin32.cpp\<close>): what \<open>isAlive\<close> reports and that a thread it reports
  as gone is joined without waiting; and what a mutex has to do for the lock table of \<open>Threads\<close> to
  describe it. The systems are not part of the program: their calls are arguments, over a state of
  the system of any type, and what is documented of them are the assumptions of locales. What the
  Windows class prints is left out.
\<close>

section \<open>Threads\<close>

text \<open>
  The calls of POSIX threads: \<open>pthread_create\<close> gives the number of the new thread, or none when it
  fails; a call that waits is \<open>Running\<close>. A function to start is a value of the type \<open>'f\<close>.
\<close>

record 's pthread_calls =
  pthread_create :: "'s \<Rightarrow> nat option \<times> 's"
  pthread_cancel :: "nat \<Rightarrow> 's \<Rightarrow> 's"
  pthread_kill_0 :: "nat \<Rightarrow> 's \<Rightarrow> int"
  pthread_join :: "nat \<Rightarrow> 's \<Rightarrow> 's run"

record 'f PosixThread =
  pt_thr :: nat
  pt_start :: "'f option"

text \<open>
  \<open>assert(fn)\<close> in the constructor, which leaves \<open>thr\<close> as it was; the result of \<open>pthread_create\<close> is
  not looked at.
\<close>

definition PosixThread_new :: "nat \<Rightarrow> 'f option \<Rightarrow> 'f PosixThread run" where
  "PosixThread_new u fn = rbind (require (fn \<noteq> None) AssertFailed) (\<lambda>_. Inr \<lparr>pt_thr = u, pt_start = fn\<rparr>)"

definition PosixThread_start :: "'s pthread_calls \<Rightarrow> 'f PosixThread \<times> 's \<Rightarrow> ('f PosixThread \<times> 's) run" where
  "PosixThread_start calls s =
     (let (t, os) = s in
      rbind (require (pt_start t \<noteq> None) AssertFailed) (\<lambda>_.
      let (created, os') = pthread_create calls os
      in Inr (case created of None \<Rightarrow> t | Some n \<Rightarrow> t\<lparr>pt_thr := n\<rparr>, os')))"

definition PosixThread_abort :: "'s pthread_calls \<Rightarrow> 'f PosixThread \<Rightarrow> 's \<Rightarrow> 's" where
  "PosixThread_abort calls t os = pthread_cancel calls (pt_thr t) os"

definition PosixThread_isAlive :: "'s pthread_calls \<Rightarrow> 'f PosixThread \<Rightarrow> 's \<Rightarrow> bool" where
  "PosixThread_isAlive calls t os = (pthread_kill_0 calls (pt_thr t) os = 0)"

definition PosixThread_join :: "'s pthread_calls \<Rightarrow> 'f PosixThread \<Rightarrow> 's \<Rightarrow> 's run" where
  "PosixThread_join calls t os = pthread_join calls (pt_thr t) os"

text \<open>
  The calls of Windows: \<open>_beginthreadex\<close> gives the handle of the new thread, or 0; the two uses of
  \<open>WaitForSingleObject\<close>, with no time to wait and for ever, give its result.
\<close>

record 's windows_calls =
  begin_thread :: "'s \<Rightarrow> nat \<times> 's"
  terminate_thread :: "nat \<Rightarrow> 's \<Rightarrow> 's"
  wait_0 :: "nat \<Rightarrow> 's \<Rightarrow> 32 word"
  wait_infinite :: "nat \<Rightarrow> 's \<Rightarrow> (32 word \<times> 's) run"
  close_handle :: "nat \<Rightarrow> 's \<Rightarrow> 's"

record 'f WindowsThread =
  hThread :: nat
  wt_start :: "'f option"

definition WindowsThread_new :: "nat \<Rightarrow> 'f option \<Rightarrow> 'f WindowsThread" where
  "WindowsThread_new u fn = \<lparr>hThread = u, wt_start = fn\<rparr>"

definition WindowsThread_start :: "'s windows_calls \<Rightarrow> 'f WindowsThread \<times> 's \<Rightarrow> 'f WindowsThread \<times> 's" where
  "WindowsThread_start calls s =
     (let (t, os) = s; (h, os') = begin_thread calls os in (t\<lparr>hThread := h\<rparr>, os'))"

definition WindowsThread_abort :: "'s windows_calls \<Rightarrow> 'f WindowsThread \<Rightarrow> 's \<Rightarrow> 's" where
  "WindowsThread_abort calls t os = terminate_thread calls (hThread t) os"

definition WAIT_OBJECT_0 :: "32 word" where
  "WAIT_OBJECT_0 = 0"

definition WindowsThread_isAlive :: "'s windows_calls \<Rightarrow> 'f WindowsThread \<Rightarrow> 's \<Rightarrow> bool" where
  "WindowsThread_isAlive calls t os =
     (let result = wait_0 calls (hThread t) os in if result = WAIT_OBJECT_0 then False else True)"

definition WindowsThread_join :: "'s windows_calls \<Rightarrow> 'f WindowsThread \<Rightarrow> 's \<Rightarrow> 's run" where
  "WindowsThread_join calls t os = rbind (wait_infinite calls (hThread t) os) (\<lambda>(result, os'). Inr os')"

definition WindowsThread_delete :: "'s windows_calls \<Rightarrow> 'f WindowsThread \<times> 's \<Rightarrow> 'f WindowsThread \<times> 's" where
  "WindowsThread_delete calls s = (let (t, os) = s in (t\<lparr>hThread := 0\<rparr>, close_handle calls (hThread t) os))"

text \<open>
  The interface the control thread uses of both: \<open>runs\<close> and \<open>ended\<close> are the threads of a state of the
  system that run, and that have ended and are not joined; \<open>num\<close> is the member with the number.
\<close>

locale thread_class =
  fixes num :: "'t \<Rightarrow> nat"
    and start :: "'t \<times> 's \<Rightarrow> ('t \<times> 's) run"
    and alive :: "'t \<Rightarrow> 's \<Rightarrow> bool"
    and join :: "'t \<Rightarrow> 's \<Rightarrow> 's run"
    and runs :: "nat \<Rightarrow> 's \<Rightarrow> bool"
    and ended :: "nat \<Rightarrow> 's \<Rightarrow> bool"
    and fails :: "'s \<Rightarrow> bool"
  assumes start_runs: "start (t, os) = Inr (t', os') \<Longrightarrow> \<not> fails os \<Longrightarrow> runs (num t') os'"
    and runs_alive: "runs (num t) os \<Longrightarrow> alive t os"
    and join_runs: "runs (num t) os \<Longrightarrow> join t os = Inl Running"
    and join_ended: "ended (num t) os \<Longrightarrow> \<exists>os'. join t os = Inr os' \<and> (\<forall>n. n \<noteq> num t \<longrightarrow> runs n os' = runs n os)"
begin

text \<open>A worker that is reported gone is joined at once, and joining it touches no other thread.\<close>

lemma collecting_returns:
  assumes "runs (num t) os \<or> ended (num t) os" and "\<not> alive t os"
  obtains os' where "join t os = Inr os'" and "\<forall>n. n \<noteq> num t \<longrightarrow> runs n os' = runs n os"
  using assms runs_alive join_ended by blast

text \<open>A thread that was just started is waited for, and reported alive.\<close>

lemma started_waits:
  assumes "start (t, os) = Inr (t', os')" and "\<not> fails os"
  shows "join t' os' = Inl Running \<and> alive t' os'"
  using start_runs [OF assms] join_runs runs_alive by blast

text \<open>What the steps of the daemon assume of a collection: a worker that has not ended is reported alive.\<close>

lemma reports_truthful:
  assumes "\<And>d ch. c_heap c d = Some ch \<Longrightarrow> ch_phase ch \<noteq> Ended \<Longrightarrow> runs (num (thr d)) os"
  shows "truthful (\<lambda>d. alive (thr d) os) c"
  using assms runs_alive by (auto simp: truthful_def)

end

text \<open>
  What is documented of the calls: a created thread runs; signal 0 reaches a thread that has not
  ended, and waiting for it does not succeed; a join returns when the thread has ended.
\<close>

locale posix_system =
  fixes calls :: "'s pthread_calls"
    and runs :: "nat \<Rightarrow> 's \<Rightarrow> bool"
    and ended :: "nat \<Rightarrow> 's \<Rightarrow> bool"
  assumes create: "pthread_create calls os = (Some n, os') \<Longrightarrow> runs n os'"
    and kill: "runs n os \<Longrightarrow> pthread_kill_0 calls n os = 0"
    and join_waits: "runs n os \<Longrightarrow> pthread_join calls n os = Inl Running"
    and join: "ended n os \<Longrightarrow> \<exists>os'. pthread_join calls n os = Inr os' \<and> (\<forall>k. k \<noteq> n \<longrightarrow> runs k os' = runs k os)"

sublocale posix_system \<subseteq> posix_thread: thread_class pt_thr "PosixThread_start calls" "PosixThread_isAlive calls"
  "PosixThread_join calls" runs ended "\<lambda>os. fst (pthread_create calls os) = None"
  by unfold_locales
    (auto simp: PosixThread_start_def PosixThread_isAlive_def PosixThread_join_def kill join_waits join require_def
      split: prod.splits if_splits intro: create)

locale windows_system =
  fixes calls :: "'s windows_calls"
    and runs :: "nat \<Rightarrow> 's \<Rightarrow> bool"
    and ended :: "nat \<Rightarrow> 's \<Rightarrow> bool"
  assumes begin_thread: "begin_thread calls os = (h, os') \<Longrightarrow> h \<noteq> 0 \<Longrightarrow> runs h os'"
    and wait: "runs h os \<Longrightarrow> wait_0 calls h os \<noteq> WAIT_OBJECT_0"
    and wait_waits: "runs h os \<Longrightarrow> wait_infinite calls h os = Inl Running"
    and wait_ended: "ended h os \<Longrightarrow>
      \<exists>r os'. wait_infinite calls h os = Inr (r, os') \<and> (\<forall>k. k \<noteq> h \<longrightarrow> runs k os' = runs k os)"

sublocale windows_system \<subseteq> windows_thread: thread_class hThread "\<lambda>s. Inr (WindowsThread_start calls s)"
  "WindowsThread_isAlive calls" "WindowsThread_join calls" runs ended "\<lambda>os. fst (begin_thread calls os) = 0"
proof unfold_locales
  show "\<exists>os'. WindowsThread_join calls t os = Inr os' \<and> (\<forall>n. n \<noteq> hThread t \<longrightarrow> runs n os' = runs n os)"
    if "ended (hThread t) os" for t :: "'b WindowsThread" and os
    using wait_ended [OF that] by (auto simp: WindowsThread_join_def)
qed (auto simp: WindowsThread_start_def WindowsThread_isAlive_def WindowsThread_join_def wait wait_waits Let_def
    split: prod.splits intro: begin_thread)

text \<open>
  The documented behaviour as functions, so that the assumptions can hold: a table of the threads,
  which run or have ended, and the next free number.
\<close>

datatype thread_life = LifeRunning | LifeEnded

record thread_table =
  tt_next :: nat
  tt_life :: "nat \<Rightarrow> thread_life option"

definition table_add :: "thread_table \<Rightarrow> nat \<times> thread_table" where
  "table_add os = (Suc (tt_next os), \<lparr>tt_next = Suc (tt_next os), tt_life = (tt_life os)(Suc (tt_next os) \<mapsto> LifeRunning)\<rparr>)"

definition table_end :: "nat \<Rightarrow> thread_table \<Rightarrow> thread_table" where
  "table_end n os = os\<lparr>tt_life := (tt_life os)(n := map_option (\<lambda>_. LifeEnded) (tt_life os n))\<rparr>"

definition table_remove :: "nat \<Rightarrow> thread_table \<Rightarrow> thread_table" where
  "table_remove n os = os\<lparr>tt_life := (tt_life os)(n := None)\<rparr>"

definition table_posix :: "thread_table pthread_calls" where
  "table_posix = \<lparr>pthread_create = (\<lambda>os. (Some (fst (table_add os)), snd (table_add os))),
     pthread_cancel = table_end,
     pthread_kill_0 = (\<lambda>n os. if tt_life os n = Some LifeRunning then 0 else 3),
     pthread_join = (\<lambda>n os. case tt_life os n of None \<Rightarrow> Inl BadAccess | Some LifeRunning \<Rightarrow> Inl Running
       | Some LifeEnded \<Rightarrow> Inr (table_remove n os))\<rparr>"

definition table_windows :: "thread_table windows_calls" where
  "table_windows = \<lparr>begin_thread = table_add, terminate_thread = table_end,
     wait_0 = (\<lambda>n os. case tt_life os n of None \<Rightarrow> - 1 | Some LifeRunning \<Rightarrow> 258 | Some LifeEnded \<Rightarrow> WAIT_OBJECT_0),
     wait_infinite = (\<lambda>n os. case tt_life os n of None \<Rightarrow> Inr (- 1, os) | Some LifeRunning \<Rightarrow> Inl Running
       | Some LifeEnded \<Rightarrow> Inr (WAIT_OBJECT_0, os)),
     close_handle = table_remove\<rparr>"

lemmas table_defs = table_posix_def table_windows_def table_add_def table_end_def table_remove_def WAIT_OBJECT_0_def

interpretation posix_table: posix_system table_posix "\<lambda>n os. tt_life os n = Some LifeRunning" "\<lambda>n os. tt_life os n = Some LifeEnded"
  by unfold_locales (auto simp: table_defs)

interpretation windows_table: windows_system table_windows "\<lambda>n os. tt_life os n = Some LifeRunning"
    "\<lambda>n os. tt_life os n = Some LifeEnded"
  by unfold_locales (auto simp: table_defs)

text \<open>
  A system on which signal 0 also reaches a thread that has ended and is not joined never lets
  the control thread collect a worker.
\<close>

lemma posix_never_collected:
  assumes "\<And>n. pthread_kill_0 calls n os = 0"
  shows "c_children (collect_workers (\<lambda>d. PosixThread_isAlive calls (thr d) os) c) = c_children c"
  using assms by (simp add: collect_workers_def collect_eq PosixThread_isAlive_def)

text \<open>
  A thread that could not be created is not noticed: \<open>start\<close> returns, and joining uses the number
  the member happened to hold.
\<close>

lemma posix_start_failure_ignored:
  assumes "pthread_create calls os = (None, os')"
  shows "\<exists>t. PosixThread_new u (Some fn) = Inr t \<and> PosixThread_start calls (t, os) = Inr (t, os') \<and>
    PosixThread_join calls t os' = pthread_join calls u os'"
  using assms by (simp add: PosixThread_new_def PosixThread_start_def PosixThread_join_def)

section \<open>Mutexes\<close>

text \<open>
  The calls on a mutex of POSIX threads and on a critical section of Windows, over a state \<open>'m\<close> of the
  system's object. A call that has to wait, or is undefined, has no result.
\<close>

record 'm pthread_mutex_calls =
  pthread_mutex_init :: "int \<times> 'm"
  pthread_mutex_lock :: "thread_id \<Rightarrow> 'm \<Rightarrow> 'm option"
  pthread_mutex_unlock :: "thread_id \<Rightarrow> 'm \<Rightarrow> 'm option"

definition PosixMutex_new :: "'m pthread_mutex_calls \<Rightarrow> 'm run" where
  "PosixMutex_new calls =
     (let (rv, m) = pthread_mutex_init calls in rbind (require (rv = 0) AssertFailed) (\<lambda>_. Inr m))"

definition PosixMutex_lock :: "'m pthread_mutex_calls \<Rightarrow> thread_id \<Rightarrow> 'm \<Rightarrow> 'm option" where
  "PosixMutex_lock calls t m = pthread_mutex_lock calls t m"

definition PosixMutex_unlock :: "'m pthread_mutex_calls \<Rightarrow> thread_id \<Rightarrow> 'm \<Rightarrow> 'm option" where
  "PosixMutex_unlock calls t m = pthread_mutex_unlock calls t m"

record 'm critical_section_calls =
  InitializeCriticalSection :: 'm
  EnterCriticalSection :: "thread_id \<Rightarrow> 'm \<Rightarrow> 'm option"
  LeaveCriticalSection :: "thread_id \<Rightarrow> 'm \<Rightarrow> 'm option"

definition WindowsMutex_new :: "'m critical_section_calls \<Rightarrow> 'm run" where
  "WindowsMutex_new calls = Inr (InitializeCriticalSection calls)"

definition WindowsMutex_lock :: "'m critical_section_calls \<Rightarrow> thread_id \<Rightarrow> 'm \<Rightarrow> 'm option" where
  "WindowsMutex_lock calls t m = EnterCriticalSection calls t m"

definition WindowsMutex_unlock :: "'m critical_section_calls \<Rightarrow> thread_id \<Rightarrow> 'm \<Rightarrow> 'm option" where
  "WindowsMutex_unlock calls t m = LeaveCriticalSection calls t m"

text \<open>The mutexes of the daemon as one of the classes has them: what an instruction does to them.\<close>

definition class_step ::
    "(thread_id \<Rightarrow> 'm \<Rightarrow> 'm option) \<Rightarrow> (thread_id \<Rightarrow> 'm \<Rightarrow> 'm option) \<Rightarrow> thread_id \<Rightarrow> instr
      \<Rightarrow> (mutex \<Rightarrow> 'm) \<Rightarrow> (mutex \<Rightarrow> 'm) option" where
  "class_step lock unlock t i ls =
     (case i of
        LockI mx \<Rightarrow> map_option (\<lambda>m. ls(mx := m)) (lock t (ls mx))
      | UnlockI mx \<Rightarrow> map_option (\<lambda>m. ls(mx := m)) (unlock t (ls mx))
      | _ \<Rightarrow> Some ls)"

text \<open>
  What the model's lock table needs of \<open>Mutex\<close>, for threads that never lock what they hold and only
  unlock what they hold: \<open>plain\<close> are the states such threads reach, \<open>owner\<close> is who is inside. Nothing
  is assumed of a thread that locks again, which waits for itself on POSIX and not on Windows.
\<close>

locale mutex_class =
  fixes create :: "'m run"
    and lock :: "thread_id \<Rightarrow> 'm \<Rightarrow> 'm option"
    and unlock :: "thread_id \<Rightarrow> 'm \<Rightarrow> 'm option"
    and owner :: "'m \<Rightarrow> thread_id option"
    and plain :: "'m \<Rightarrow> bool"
  assumes create_ok: "create = Inr m0 \<Longrightarrow> plain m0 \<and> owner m0 = None"
    and lock_free: "plain m \<Longrightarrow> owner m = None \<Longrightarrow> \<exists>m'. lock t m = Some m' \<and> plain m' \<and> owner m' = Some t"
    and lock_waits: "plain m \<Longrightarrow> owner m = Some t' \<Longrightarrow> t' \<noteq> t \<Longrightarrow> lock t m = None"
    and unlock_own: "plain m \<Longrightarrow> owner m = Some t \<Longrightarrow> \<exists>m'. unlock t m = Some m' \<and> plain m' \<and> owner m' = None"
begin

definition table_of :: "(mutex \<Rightarrow> 'm) \<Rightarrow> 'j memory \<Rightarrow> bool" where
  "table_of ls m \<longleftrightarrow> (\<forall>mx. plain (ls mx) \<and> owner (ls mx) = held m mx)"

lemma table_of_new: "create = Inr m0 \<Longrightarrow> table_of (\<lambda>_. m0) memory_new"
  by (simp add: table_of_def memory_new_def create_ok)

text \<open>In a state with the invariant the calls return exactly when the model's step is enabled, and then do what it does.\<close>

lemma implements:
  assumes ok: "locks_ok \<lparr>mem = m, prog = p\<rparr>" and p: "p t = i # rest" and tab: "table_of ls m"
  shows "(\<exists>mx. i = LockI mx \<or> i = UnlockI mx) \<Longrightarrow> class_step lock unlock t i ls \<noteq> None \<longleftrightarrow> enabled i m"
    and "enabled i m \<Longrightarrow> exec c t i m = Inr (m', front) \<Longrightarrow>
      \<exists>ls'. class_step lock unlock t i ls = Some ls' \<and> table_of ls' m'"
proof -
  have b: "bracketed (held_by (i # rest)) (i # rest)" using ok by (simp add: locks_ok_def p [symmetric])
  have own: "held m mx = Some t \<longleftrightarrow> held_by (i # rest) = Some mx" for mx
    using ok by (simp add: locks_ok_def p [symmetric])
  have tab: "plain (ls mx)" "owner (ls mx) = held m mx" for mx using tab by (simp_all add: table_of_def)
  show "class_step lock unlock t i ls \<noteq> None \<longleftrightarrow> enabled i m" if "\<exists>mx. i = LockI mx \<or> i = UnlockI mx"
  proof -
    from that obtain mx where mx: "i = LockI mx \<or> i = UnlockI mx" by blast
    have "held m mx \<noteq> Some t" if "i = LockI mx" using own [of mx] b that by simp
    moreover have "held m mx = Some t" if "i = UnlockI mx" using own [of mx] b that by simp
    ultimately show ?thesis
      using mx tab [of mx] lock_free [of "ls mx" t] lock_waits [of "ls mx" _ t] unlock_own [of "ls mx" t]
      by (cases "held m mx") (auto simp: class_step_def enabled_def)
  qed
  assume en: "enabled i m" and ex: "exec c t i m = Inr (m', front)"
  show "\<exists>ls'. class_step lock unlock t i ls = Some ls' \<and> table_of ls' m'"
    proof (cases i)
      case (LockI mx)
      with en lock_free [of "ls mx" t] tab [of mx] obtain l where
        "lock t (ls mx) = Some l" "plain l" "owner l = Some t" by (auto simp: enabled_def)
      with LockI tab show ?thesis
        by (auto simp: class_step_def table_of_def exec_held [OF ex] held_after_def)
    next
      case (UnlockI mx)
      with own [of mx] b have "held m mx = Some t" by simp
      with unlock_own [of "ls mx" t] tab [of mx] obtain l where
        "unlock t (ls mx) = Some l" "plain l" "owner l = None" by auto
      with UnlockI tab show ?thesis
        by (auto simp: class_step_def table_of_def exec_held [OF ex] held_after_def)
    qed (use tab in \<open>auto simp: class_step_def table_of_def exec_held [OF ex] held_after_def\<close>)
qed

end

text \<open>
  The documented behaviour as functions: a mutex of POSIX threads, of the default kind, has an owner or
  none; a critical section of Windows counts how often its owner entered it.
\<close>

definition default_mutex :: "thread_id option pthread_mutex_calls" where
  "default_mutex = \<lparr>pthread_mutex_init = (0, None),
     pthread_mutex_lock = (\<lambda>t m. if m = None then Some (Some t) else None),
     pthread_mutex_unlock = (\<lambda>t m. if m = Some t then Some None else None)\<rparr>"

definition critical_section :: "(thread_id option \<times> nat) critical_section_calls" where
  "critical_section = \<lparr>InitializeCriticalSection = (None, 0),
     EnterCriticalSection = (\<lambda>t (ow, n). if ow = None then Some (Some t, 1)
       else if ow = Some t then Some (ow, n + 1) else None),
     LeaveCriticalSection = (\<lambda>t (ow, n). if ow \<noteq> Some t then None else if n \<le> 1 then Some (None, 0) else Some (ow, n - 1))\<rparr>"

definition entered_once :: "thread_id option \<times> nat \<Rightarrow> bool" where
  "entered_once m \<longleftrightarrow> snd m = (if fst m = None then 0 else 1)"

interpretation posix_mutex: mutex_class "PosixMutex_new default_mutex" "PosixMutex_lock default_mutex"
    "PosixMutex_unlock default_mutex" "\<lambda>m. m" "\<lambda>_. True"
  by unfold_locales (auto simp: PosixMutex_new_def PosixMutex_lock_def PosixMutex_unlock_def default_mutex_def)

interpretation windows_mutex: mutex_class "WindowsMutex_new critical_section" "WindowsMutex_lock critical_section"
    "WindowsMutex_unlock critical_section" fst entered_once
  by unfold_locales
    (auto simp: WindowsMutex_new_def WindowsMutex_lock_def WindowsMutex_unlock_def critical_section_def entered_once_def
      split: prod.splits if_splits)

text \<open>
  On both systems, in every interleaving: a call that locks returns exactly when the model lets the
  thread go on, and one that unlocks returns.
\<close>

lemma mutexes_block_alike:
  assumes "treach K s" and "0 \<notin> K" and "prog s t = i # rest" and "\<exists>mx. i = LockI mx \<or> i = UnlockI mx"
    and "posix_mutex.table_of ps (mem s)" and "windows_mutex.table_of ws (mem s)"
  shows "class_step (PosixMutex_lock default_mutex) (PosixMutex_unlock default_mutex) t i ps \<noteq> None \<longleftrightarrow> enabled i (mem s)"
    and "class_step (WindowsMutex_lock critical_section) (WindowsMutex_unlock critical_section) t i ws \<noteq> None \<longleftrightarrow>
      enabled i (mem s)"
proof -
  obtain m p where s: "s = \<lparr>mem = m, prog = p\<rparr>" by (cases s) auto
  have ok: "locks_ok \<lparr>mem = m, prog = p\<rparr>" using treach_ok [OF assms(1,2)] by (simp add: threads_ok_def s)
  have p: "p t = i # rest" using assms(3) by (simp add: s)
  show "class_step (PosixMutex_lock default_mutex) (PosixMutex_unlock default_mutex) t i ps \<noteq> None \<longleftrightarrow> enabled i (mem s)"
    using posix_mutex.implements(1) [OF ok p _ assms(4)] assms(5) by (simp add: s)
  show "class_step (WindowsMutex_lock critical_section) (WindowsMutex_unlock critical_section) t i ws \<noteq> None \<longleftrightarrow>
      enabled i (mem s)"
    using windows_mutex.implements(1) [OF ok p _ assms(4)] assms(6) by (simp add: s)
qed

text \<open>
  The two differ for a thread that locks what it holds: it waits for itself on POSIX and goes on on
  Windows. No thread of the daemon does that.
\<close>

lemma relock_differs:
  "PosixMutex_lock default_mutex t (Some t) = None"
  "WindowsMutex_lock critical_section t (Some t, n) = Some (Some t, n + 1)"
  by (simp_all add: PosixMutex_lock_def WindowsMutex_lock_def default_mutex_def critical_section_def)

end
