(* ===== verification/DSTest.thy ===== *)
theory DSTest
  imports DatasetItems
begin

text \<open>
  The test program of the seeded iterator (\<open>src/DSTest.cpp\<close>): its loop, its two assertions and what
  it prints, with the proof that it runs to its end.
\<close>

definition dstest_spec :: DatasetSeedSpecification where
  "dstest_spec = \<lparr>seed_count = 10000, seed_ksize = 32, seed_vsize = 128, seed_continuous = False,
     seed_repeat = ''_REP_'', seed_kseed = ''SimpleKey'', seed_vseed = ''SimpleValue''\<rparr>"

definition dstest_line :: "string \<Rightarrow> string \<Rightarrow> string" where
  "dstest_line key val = ''Key: '' @ key @ '', Val: '' @ val @ [CHR 0x0A]"

text \<open>The loop, with the number of rounds left; a step of the iterator ends each round.\<close>

fun dstest_loop :: "nat \<Rightarrow> dsiter \<Rightarrow> string list run" where
  "dstest_loop 0 it = Inr []"
| "dstest_loop (Suc n) it =
     rbind (require (length (curk it) < 50) AssertFailed) (\<lambda>_.
     rbind (require (length (curv it) < 200) AssertFailed) (\<lambda>_.
     rbind (let i = wrap_index (seed_continuous dstest_spec) (seed_count dstest_spec) (curidx it + 1)
            in DatasetSeededIterator_init_data dstest_spec i (it\<lparr>curidx := i\<rparr>)) (\<lambda>it'.
     rbind (dstest_loop n it') (\<lambda>out. Inr (dstest_line (curk it) (curv it) # out)))))"

definition DSTest_main :: "string list run" where
  "DSTest_main =
     rbind (DatasetSeededIterator_init_data dstest_spec 0
              \<lparr>curk = [], curv = [], curp = [], curc = [], curidx = 0\<rparr>)
       (dstest_loop (unat (seed_count dstest_spec)))"

definition dstest_item :: "nat \<Rightarrow> string" where
  "dstest_item i = dstest_line (fill_repeat ''SimpleKey'' 32 ''_REP_'' (word_of_nat i))
     (fill_repeat ''SimpleValue'' 128 ''_REP_'' (word_of_nat i))"

lemma dstest_loop_runs:
  assumes "i + n \<le> 10000" and "curidx it = word_of_nat i"
    and "curk it = fill_repeat ''SimpleKey'' 32 ''_REP_'' (word_of_nat i)"
    and "curv it = fill_repeat ''SimpleValue'' 128 ''_REP_'' (word_of_nat i)"
  shows "dstest_loop n it = Inr (map dstest_item [i ..< i + n])"
  using assms
proof (induction n arbitrary: i it)
  case (Suc n)
  have "unat (word_of_nat i :: 32 word) < 10000" using Suc.prems(1) by (simp add: unat_of_small)
  from dstest_assertions [OF this] have l: "length (curk it) < 50" "length (curv it) < 200"
    using Suc.prems by simp_all
  let ?it = "it\<lparr>curidx := word_of_nat (Suc i), curk := fill_repeat ''SimpleKey'' 32 ''_REP_'' (word_of_nat (Suc i)),
    curv := fill_repeat ''SimpleValue'' 128 ''_REP_'' (word_of_nat (Suc i))\<rparr>"
  have "dstest_loop n ?it = Inr (map dstest_item [Suc i ..< Suc i + n])" using Suc.prems(1) by (intro Suc.IH) simp_all
  then show ?case
    using l Suc.prems(2-4)
    by (simp add: Let_def wrap_index_def dstest_spec_def DatasetSeededIterator_init_data_def dstest_item_def
        upt_rec [of i] add.commute)
qed simp

theorem dstest_runs: "DSTest_main = Inr (map dstest_item [0 ..< 10000])"
proof -
  have "dstest_loop 10000 it = Inr (map dstest_item [0 ..< 0 + 10000])"
    if "curidx it = word_of_nat 0" "curk it = fill_repeat ''SimpleKey'' 32 ''_REP_'' (word_of_nat 0)"
      "curv it = fill_repeat ''SimpleValue'' 128 ''_REP_'' (word_of_nat 0)" for it
    by (rule dstest_loop_runs [OF _ that]) simp
  then show ?thesis
    by (simp add: DSTest_main_def DatasetSeededIterator_init_data_def dstest_spec_def)
qed

end
