(* ===== verification/InlineItems.thy ===== *)
theory InlineItems
  imports DatasetItems
begin

text \<open>
  The items of an inline dataset (\<open>DatasetInlineIterator\<close> in \<open>src/Dataset.cpp\<close>): each entry of the
  JSON array is a pair of a key and a value, or a key alone, which leaves the value of the
  iterator as it was.
\<close>

text \<open>An entry as the iterator reads it.\<close>

type_synonym inline_entry = "string \<times> string option"

definition reads_entry :: "'j json_api \<Rightarrow> 'j \<Rightarrow> inline_entry \<Rightarrow> bool" where
  "reads_entry J j e \<longleftrightarrow>
     (case snd e of
        None \<Rightarrow> \<not> j_isArray J j \<and> j_asString J j = Some (fst e)
      | Some v \<Rightarrow> j_isArray J j \<and> (\<exists>a b. j_at J j 0 = Some a \<and> j_asString J a = Some (fst e) \<and>
          j_at J j 1 = Some b \<and> j_asString J b = Some v))"

definition entry_value :: "string \<Rightarrow> inline_entry \<Rightarrow> string" where
  "entry_value v e = (case snd e of None \<Rightarrow> v | Some w \<Rightarrow> w)"

text \<open>The item at a position: the value is the one of the last entry so far that has one.\<close>

definition inline_item :: "inline_entry list \<Rightarrow> nat \<Rightarrow> item" where
  "inline_item es i = (fst (es ! i), foldl entry_value [] (take (Suc i) es), [], [])"

lemma init_inline_entry:
  assumes "j_at J items (sint i) = Some j" and "reads_entry J j e"
  shows "DatasetInlineIterator_init_data J items i it = Inr (it\<lparr>curk := fst e, curv := entry_value (curv it) e\<rparr>)"
  using assms
  by (auto simp: DatasetInlineIterator_init_data_def reads_entry_def entry_value_def json_read_defs split: option.splits)

lemma foldl_take_Suc: "i < length es \<Longrightarrow> foldl f v (take (Suc i) es) = f (foldl f v (take i es)) (es ! i)"
  by (simp add: take_Suc_conv_app_nth)

lemma sint_small: "i < 2 ^ 31 \<Longrightarrow> sint (word_of_nat i :: 32 word) = int i"
  by (simp add: signed_of_nat signed_take_bit_int_eq_self)

lemma nth_iter_inline:
  assumes body: "ds_body ds = Inline items" and len: "length es < 2 ^ 31"
    and entries: "\<And>i. i < length es \<Longrightarrow> \<exists>j. j_at J items (int i) = Some j \<and> reads_entry J j (es ! i)"
  shows "i < length es \<Longrightarrow> nth_iter J u ds i = Inr (iter_of (inline_item es i) (word_of_nat i))"
proof (induction i)
  case 0
  obtain j where j: "j_at J items 0 = Some j" "reads_entry J j (es ! 0)" using entries [OF 0] by auto
  then have "DatasetInlineIterator_init_data J items 0 it = Inr (it\<lparr>curk := fst (es ! 0), curv := entry_value (curv it) (es ! 0)\<rparr>)" for it
    by (intro init_inline_entry [of J items 0 j]) simp_all
  with 0 show ?case
    by (simp add: DatasetIterator_start_def init_data_def body getIter_def iter_of_def inline_item_def foldl_take_Suc)
next
  case (Suc i)
  obtain j where j: "j_at J items (int (Suc i)) = Some j" "reads_entry J j (es ! Suc i)" using entries [OF Suc.prems] by auto
  have "sint (word_of_nat i + 1 :: 32 word) = int (Suc i)"
    using sint_small [of "Suc i"] Suc.prems len by (simp add: add.commute)
  with j have "DatasetInlineIterator_init_data J items (word_of_nat i + 1) it =
      Inr (it\<lparr>curk := fst (es ! Suc i), curv := entry_value (curv it) (es ! Suc i)\<rparr>)" for it
    by (intro init_inline_entry [of J items _ j]) simp_all
  then show ?case
    using Suc by (simp add: iter_advance_eq ds_continuous_def body wrap_index_def init_data_def iter_of_def
        inline_item_def foldl_take_Suc [of "Suc i"] add.commute)
qed

lemma inline_loop:
  assumes "ds_body ds = Inline items" and "j_size J items = word_of_nat (length es)" and "length es < 2 ^ 31 - 1"
    and "\<forall>i < length es. \<exists>j. j_at J items (int i) = Some j \<and> reads_entry J j (es ! i)"
    and "\<exists>j. j_at J items (int (length es)) = Some j \<and> reads_entry J j ([], None)"
    and "length es < fuel"
  shows "rbind (DatasetIterator_start J ds (getIter u ds))
      (\<lambda>it. for_each (iter_done J ds) (iter_advance J ds) stop (\<lambda>it. act (iter_item it)) fuel it s)
    = each_item stop act (map (inline_item es) [0..<length es]) s"
proof -
  define es1 where "es1 = es @ [([], None)]"
  have load: "ds_load J u ds i = Inr (inline_item es1 i)" if "i \<le> length es" for i
  proof -
    have "nth_iter J u ds i = Inr (iter_of (inline_item es1 i) (word_of_nat i))"
    proof (rule nth_iter_inline [OF assms(1)])
      fix k
      assume "k < length es1"
      then show "\<exists>j. j_at J items (int k) = Some j \<and> reads_entry J j (es1 ! k)"
        using assms(4,5) by (cases "k = length es") (auto simp: es1_def nth_append)
    qed (use that assms(3) in \<open>simp_all add: es1_def\<close>)
    then show ?thesis by (simp add: ds_load_def)
  qed
  have total: "ds_total J ds = enat (length es)"
    using assms(1-3) by (simp add: ds_total_def ds_continuous_def getCount_def unat_of_small)
  have same: "map (inline_item es1) [0..<length es] = map (inline_item es) [0..<length es]"
    by (simp add: inline_item_def es1_def nth_append)
  show ?thesis
    unfolding same [symmetric] by (rule ds.for_each_finite [OF total load assms(6)])
qed

text \<open>
  C14: the loop over an inline dataset visits the entries of its array in order, each once; the
  key is the one of the entry, and the value is the one of the last entry so far that has one,
  so that a key alone is used with the value of an earlier entry.
\<close>

theorem inline_traversal:
  assumes "ds_body ds = Inline items" and "j_size J items = word_of_nat (length es)" and "length es < 2 ^ 31 - 1"
    and "\<forall>i < length es. \<exists>j. j_at J items (int i) = Some j \<and> reads_entry J j (es ! i)"
    and "\<exists>j. j_at J items (int (length es)) = Some j \<and> reads_entry J j ([], None)"
    and "length es < fuel"
  shows "rbind (DatasetIterator_start J ds (getIter u ds))
      (\<lambda>it. for_each (iter_done J ds) (iter_advance J ds) stop (\<lambda>it. act (iter_item it)) fuel it s)
    = each_item stop act (map (inline_item es) [0..<length es]) s"
  using assms by (rule inline_loop)

text \<open>Two keys without a value after a pair.\<close>

definition example_inline :: "jval Dataset" where
  "example_inline = Dataset_new DSTYPE_INLINE (Inline (JArr [JStr ''a'', JArr [JStr ''b'', JStr ''1''], JStr ''c'']))"

lemma inline_traversal_witness:
  "rbind (DatasetIterator_start Jref example_inline (getIter 9 example_inline))
      (\<lambda>it. for_each (iter_done Jref example_inline) (iter_advance Jref example_inline)
         (\<lambda>s. (False, s)) (\<lambda>it s. Inr (True, s @ [iter_item it])) 4 it [])
    = Inr (Exhausted, [(''a'', [], [], []), (''b'', ''1'', [], []), (''c'', ''1'', [], [])])"
proof -
  define items where "items = JArr [JStr ''a'', JArr [JStr ''b'', JStr ''1''], JStr ''c'']"
  define es where "es = [(''a'', None), (''b'', Some ''1''), (''c'', None :: string option)]"
  have body: "ds_body example_inline = Inline items" by (simp add: example_inline_def Dataset_new_def items_def)
  have reads: "\<forall>i < length es. \<exists>j. j_at Jref items (int i) = Some j \<and> reads_entry Jref j (es ! i)"
    by (simp add: es_def items_def reads_entry_def Jref_def Jref_with_def nth_Cons numeral_2_eq_2 less_Suc_eq
        split: nat.splits)
  have rest: "j_size Jref items = word_of_nat (length es)" "length es < 2 ^ 31 - 1" "length es < 4"
    "\<exists>j. j_at Jref items (int (length es)) = Some j \<and> reads_entry Jref j ([], None)"
    by (simp_all add: es_def items_def Jref_def Jref_with_def reads_entry_def)
  have "map (inline_item es) [0..<length es] = [(''a'', [], [], []), (''b'', ''1'', [], []), (''c'', ''1'', [], [])]"
    by (simp add: es_def upt_rec inline_item_def entry_value_def)
  then show ?thesis
    using inline_traversal [OF body rest(1,2) reads rest(4,3), where u = 9 and s = "[]"
        and stop = "\<lambda>s. (False, s)" and act = "\<lambda>x s. Inr (True, s @ [x])"]
    by simp
qed

end
