(* ===== verification/Demo.thy ===== *)
theory Demo
  imports InlineItems Protocol
begin

text \<open>
  The first three tests of the demonstration program (\<open>src/demo.cpp\<close>): each is the function as
  it is written, with its assertions, and gives what it prints. The theorems show that the
  model passes the repository's own tests.
\<close>

section \<open>The message\<close>

definition KVCOUNT :: nat where
  "KVCOUNT = 5"

definition demo_request :: string where
  "demo_request = ''{\"Command\":\"NEWHANDLE\", \"ReqID\":42 , \"CommandData\" : {} }''"

text \<open>\<open>u\<close> is what the memory of the request holds before it is read.\<close>

definition testMessage :: "'j json_api \<Rightarrow> 'j Message \<Rightarrow> string list run" where
  "testMessage J u =
     (let out1 = ''Attempting to create simple request..'' @ [CHR 0x0A] in
      rbind (Request_decode J u demo_request (Some Error_new) False) (\<lambda>(msgp, errp).
      case msgp of
        None \<Rightarrow> Inl Aborted
      | Some msg \<Rightarrow>
          rbind (require (cmd_code (command msg) = NEWHANDLE) AssertFailed) (\<lambda>_.
          rbind (require (reqid msg = 42) AssertFailed) (\<lambda>_.
          rbind (require (Request_isValid msg) AssertFailed) (\<lambda>_.
          let r = Response_new J msg Error_new in
          rbind (require (cmd_code (command (resp_msg r)) = cmd_code (command msg)) AssertFailed) (\<lambda>_.
          rbind (require (handle_id (resp_msg r) = handle_id msg) AssertFailed) (\<lambda>_.
          rbind (encode J r) (\<lambda>e.
          Inr [out1, ''Encoded Response: '' @ e @ [CHR 0x0A]]))))))))"

section \<open>The iterators\<close>

text \<open>The loop both iterator tests run: \<open>printf\<close> of the key and the value of each item.\<close>

definition print_items :: "'j json_api \<Rightarrow> (string \<Rightarrow> string \<Rightarrow> string) \<Rightarrow> nat \<Rightarrow> 'j Dataset \<Rightarrow> dsiter \<Rightarrow> string list run" where
  "print_items J line fuel ds it0 =
     rbind (DatasetIterator_start J ds it0) (\<lambda>it.
     rbind (for_each (iter_done J ds) (iter_advance J ds) (\<lambda>s. (False, s))
       (\<lambda>it s. Inr (True, s @ [line (c_string (curk it)) (c_string (curv it))])) fuel it []) (\<lambda>(_, ls). Inr ls))"

text \<open>The test does not set \<open>spec.continuous\<close>; \<open>cont\<close> is what the memory holds there.\<close>

definition demo_spec :: "bool \<Rightarrow> DatasetSeedSpecification" where
  "demo_spec cont = \<lparr>seed_count = word_of_nat KVCOUNT, seed_ksize = 12, seed_vsize = 24, seed_continuous = cont,
     seed_repeat = ''!-'', seed_kseed = ''The_Key'', seed_vseed = ''The_Value''\<rparr>"

definition seeded_line :: "string \<Rightarrow> string \<Rightarrow> string" where
  "seeded_line k v = ''Key: '' @ k @ '' => '' @ v @ [CHR 0x0A]"

definition testSeededIterator :: "'j json_api \<Rightarrow> 32 word \<Rightarrow> bool \<Rightarrow> nat \<Rightarrow> string list run" where
  "testSeededIterator J u cont fuel =
     (let seeded = DatasetSeeded_of_spec (demo_spec cont) in
      rbind (require (isValid seeded) AssertFailed) (\<lambda>_.
      rbind (print_items J seeded_line fuel seeded (getIter u seeded)) (\<lambda>ls.
      Inr ((''Performing Seeded tests'' @ [CHR 0x0A]) # ls @ [[CHR 0x0A]]))))"

text \<open>
  The inline test assigns to array members: \<open>set_at\<close> is \<open>v[i] = x\<close> of the JSON library, which gives
  \<open>None\<close> when it throws.
\<close>

definition jset_at :: "('j \<Rightarrow> int \<Rightarrow> 'j \<Rightarrow> 'j option) \<Rightarrow> 'j \<Rightarrow> int \<Rightarrow> 'j \<Rightarrow> 'j run" where
  "jset_at set_at v i x = throws ''Json'' (set_at v i x)"

definition inline_pair :: "'j json_api \<Rightarrow> ('j \<Rightarrow> int \<Rightarrow> 'j \<Rightarrow> 'j option) \<Rightarrow> nat \<Rightarrow> 'j run" where
  "inline_pair J set_at i =
     rbind (jset_at set_at (j_null J) 0 (j_str J (''Key_'' @ nat_to_string i))) (\<lambda>jl.
     jset_at set_at jl 1 (j_str J (''Value_'' @ nat_to_string i)))"

text \<open>The loop from \<open>i\<close> on, with the number of rounds left.\<close>

fun inline_pairs :: "'j json_api \<Rightarrow> ('j \<Rightarrow> int \<Rightarrow> 'j \<Rightarrow> 'j option) \<Rightarrow> nat \<Rightarrow> nat \<Rightarrow> 'j \<Rightarrow> 'j run" where
  "inline_pairs J set_at 0 i newv = Inr newv"
| "inline_pairs J set_at (Suc n) i newv =
     rbind (inline_pair J set_at i) (\<lambda>jl.
     rbind (jset_at set_at newv (int i) jl) (\<lambda>newv'. inline_pairs J set_at n (Suc i) newv'))"

definition inline_line :: "string \<Rightarrow> string \<Rightarrow> string" where
  "inline_line k v = k @ '' => '' @ v @ [CHR 0x0A]"

definition testInlineIterator ::
    "'j json_api \<Rightarrow> ('j \<Rightarrow> int \<Rightarrow> 'j \<Rightarrow> 'j option) \<Rightarrow> 32 word \<Rightarrow> nat \<Rightarrow> string list run" where
  "testInlineIterator J set_at u fuel =
     rbind (inline_pairs J set_at KVCOUNT 0 (j_null J)) (\<lambda>newv.
     rbind (jset J (j_null J) ''Items'' newv) (\<lambda>newcontainer.
     rbind (DatasetInline_new J newcontainer) (\<lambda>inl.
     rbind (require (isValid inl) AssertFailed) (\<lambda>_.
     rbind (print_items J inline_line fuel inl (getIter u inl)) (\<lambda>ls.
     Inr ((''Will perform Inline tests'' @ [CHR 0x0A]) # ls @ [[CHR 0x0A]]))))))"

section \<open>Arrays by index\<close>

text \<open>
  The documented behaviour of array members: assigning behind the last member of an array, or to
  member 0 of a null value, appends; a member past the end reads as null.
\<close>

locale json_index = json_array J for J :: "'j json_api" +
  fixes set_at :: "'j \<Rightarrow> int \<Rightarrow> 'j \<Rightarrow> 'j option"
  assumes set_at_null: "\<exists>v. set_at (j_null J) 0 x = Some v \<and> j_isArray J v \<and> j_elems J v = [x]"
    and set_at_end: "j_isArray J v \<Longrightarrow>
      \<exists>v'. set_at v (int (length (j_elems J v))) x = Some v' \<and> j_isArray J v' \<and> j_elems J v' = j_elems J v @ [x]"
    and at_array: "j_isArray J v \<Longrightarrow> 0 \<le> i \<Longrightarrow>
      j_at J v i = Some (if nat i < length (j_elems J v) then j_elems J v ! nat i else j_null J)"
    and size_array: "j_isArray J v \<Longrightarrow> j_size J v = word_of_nat (length (j_elems J v))"
    and truth_array: "j_isArray J v \<Longrightarrow> j_elems J v \<noteq> [] \<Longrightarrow> j_truth J v"
    and null_no_array: "\<not> j_isArray J (j_null J)"
    and asString_null: "j_asString J (j_null J) = Some []"
begin

text \<open>A pair as the test builds it is an entry as the iterator reads it.\<close>

lemma inline_pair_reads:
  "\<exists>jl. inline_pair J set_at i = Inr jl \<and>
     reads_entry J jl (''Key_'' @ nat_to_string i, Some (''Value_'' @ nat_to_string i))"
proof -
  obtain v where v: "set_at (j_null J) 0 (j_str J (''Key_'' @ nat_to_string i)) = Some v" "j_isArray J v"
    "j_elems J v = [j_str J (''Key_'' @ nat_to_string i)]"
    using set_at_null by blast
  obtain w where w: "set_at v 1 (j_str J (''Value_'' @ nat_to_string i)) = Some w" "j_isArray J w"
    "j_elems J w = [j_str J (''Key_'' @ nat_to_string i), j_str J (''Value_'' @ nat_to_string i)]"
    using set_at_end [OF v(2), of "j_str J (''Value_'' @ nat_to_string i)"] v(3) by auto
  then show ?thesis
    using v by (simp add: inline_pair_def jset_at_def reads_entry_def at_array asString_str)
qed

lemma inline_pairs_ok:
  assumes "v = j_null J \<and> i = 0 \<or> j_isArray J v \<and> length (j_elems J v) = i" and "n \<noteq> 0"
    and "j_isArray J v \<Longrightarrow> \<forall>k < i. reads_entry J (j_elems J v ! k) (''Key_'' @ nat_to_string k, Some (''Value_'' @ nat_to_string k))"
  shows "\<exists>w. inline_pairs J set_at n i v = Inr w \<and> j_isArray J w \<and> length (j_elems J w) = i + n \<and>
    (\<forall>k < i + n. reads_entry J (j_elems J w ! k) (''Key_'' @ nat_to_string k, Some (''Value_'' @ nat_to_string k)))"
  using assms
proof (induction n arbitrary: i v)
  case (Suc n)
  obtain jl where jl: "inline_pair J set_at i = Inr jl"
    "reads_entry J jl (''Key_'' @ nat_to_string i, Some (''Value_'' @ nat_to_string i))"
    using inline_pair_reads by blast
  obtain v' where v': "set_at v (int i) jl = Some v'" "j_isArray J v'" "length (j_elems J v') = Suc i"
    "\<forall>k < Suc i. reads_entry J (j_elems J v' ! k) (''Key_'' @ nat_to_string k, Some (''Value_'' @ nat_to_string k))"
  proof (cases "j_isArray J v")
    case True
    with Suc.prems(1) null_no_array have "length (j_elems J v) = i" by auto
    with set_at_end [OF True, of jl] Suc.prems(3) [OF True] jl(2) that show thesis
      by (auto simp: nth_append less_Suc_eq)
  next
    case False
    with Suc.prems(1) have "v = j_null J" "i = 0" by auto
    with set_at_null [of jl] jl(2) that show thesis by auto
  qed
  show ?case
  proof (cases n)
    case 0
    with jl v' show ?thesis by (auto simp: jset_at_def)
  next
    case (Suc m)
    with Suc.IH [of v' "Suc i"] jl v' show ?thesis by (auto simp: jset_at_def)
  qed
qed simp

end

definition jv_set_at :: "jval \<Rightarrow> int \<Rightarrow> jval \<Rightarrow> jval option" where
  "jv_set_at v i x =
     (case v of
        JNull \<Rightarrow> if i = 0 then Some (JArr [x]) else None
      | JArr xs \<Rightarrow> if i = int (length xs) then Some (JArr (xs @ [x])) else None
      | _ \<Rightarrow> None)"

interpretation Jref_index: json_index "Jref_with parse" jv_set_at for parse
proof unfold_locales
  fix v x
  assume "j_isArray (Jref_with parse) v"
  then show "\<exists>v'. jv_set_at v (int (length (j_elems (Jref_with parse) v))) x = Some v' \<and>
      j_isArray (Jref_with parse) v' \<and> j_elems (Jref_with parse) v' = j_elems (Jref_with parse) v @ [x]"
    by (cases v) (simp_all add: Jref_with_def jv_set_at_def)
next
  fix v and i :: int
  assume "j_isArray (Jref_with parse) v" "0 \<le> i"
  then show "j_at (Jref_with parse) v i =
      Some (if nat i < length (j_elems (Jref_with parse) v) then j_elems (Jref_with parse) v ! nat i else j_null (Jref_with parse))"
    by (cases v) (simp_all add: Jref_with_def)
next
  fix v
  assume "j_isArray (Jref_with parse) v"
  then show "j_size (Jref_with parse) v = word_of_nat (length (j_elems (Jref_with parse) v))"
    by (cases v) (simp_all add: Jref_with_def)
next
  fix v
  assume "j_isArray (Jref_with parse) v" "j_elems (Jref_with parse) v \<noteq> []"
  then show "j_truth (Jref_with parse) v" by (cases v) (simp_all add: Jref_with_def)
qed (simp_all add: Jref_with_def jv_set_at_def)

section \<open>The tests pass\<close>

definition print_item :: "(string \<Rightarrow> string \<Rightarrow> string) \<Rightarrow> item \<Rightarrow> string list \<Rightarrow> (bool \<times> string list) run" where
  "print_item line x s = Inr (True, s @ [line (c_string (fst x)) (c_string (fst (snd x)))])"

lemma each_item_print:
  "each_item (\<lambda>s. (False, s)) (print_item line) xs s =
     Inr (Exhausted, s @ map (\<lambda>x. line (c_string (fst x)) (c_string (fst (snd x)))) xs)"
  by (induction xs arbitrary: s) (simp_all add: print_item_def)

lemma print_items_eq:
  "print_items J line fuel ds it0 =
     rbind (rbind (DatasetIterator_start J ds it0) (\<lambda>it. for_each (iter_done J ds) (iter_advance J ds) (\<lambda>s. (False, s))
       (\<lambda>it. print_item line (iter_item it)) fuel it []))
     (\<lambda>(_, ls). Inr ls)"
proof -
  have "print_item line (iter_item it) = (\<lambda>s. Inr (True, s @ [line (c_string (curk it)) (c_string (curv it))]))" for it
    by (rule ext) (simp add: print_item_def iter_item_def)
  then show ?thesis by (simp add: print_items_def rbind_assoc)
qed

lemma print_items_finite:
  assumes "ds_total J ds = enat N" and "\<And>i. i \<le> N \<Longrightarrow> ds_load J u ds i = Inr (x i)" and "N < fuel"
  shows "print_items J line fuel ds (getIter u ds) =
    Inr (map (\<lambda>i. line (c_string (fst (x i))) (c_string (fst (snd (x i))))) [0..<N])"
  using ds.for_each_finite [OF assms, where stop = "\<lambda>s. (False, s)" and act = "print_item line" and s = "[]"]
  by (simp add: print_items_eq each_item_print comp_def)

lemma print_items_endless:
  assumes "\<And>i. ds_load J u ds i = Inr (x i)" and "ds_total J ds = \<infinity>"
  shows "print_items J line fuel ds (getIter u ds) = Inl Running"
  using ds.for_each_prefix [OF assms(1), of fuel "\<lambda>s. (False, s)" "print_item line" "[]"] assms(2)
  by (simp add: print_items_eq each_item_print)

lemma demo_seeded_items:
  "map (\<lambda>i. seeded_line (c_string (fill_repeat ''The_Key'' 12 ''!-'' (word_of_nat i)))
     (c_string (fill_repeat ''The_Value'' 24 ''!-'' (word_of_nat i)))) [0..<5] =
   [''Key: The_Key!-0!-0 => The_Value!-0!-0!-0!-0!-0'' @ [CHR 0x0A],
    ''Key: The_Key!-1!-1 => The_Value!-1!-1!-1!-1!-1'' @ [CHR 0x0A],
    ''Key: The_Key!-2!-2 => The_Value!-2!-2!-2!-2!-2'' @ [CHR 0x0A],
    ''Key: The_Key!-3!-3 => The_Value!-3!-3!-3!-3!-3'' @ [CHR 0x0A],
    ''Key: The_Key!-4!-4 => The_Value!-4!-4!-4!-4!-4'' @ [CHR 0x0A]]"
  by code_simp

lemma demo_seeded:
  "5 < fuel \<Longrightarrow> testSeededIterator J u False fuel = Inr (
    [''Performing Seeded tests'' @ [CHR 0x0A],
     ''Key: The_Key!-0!-0 => The_Value!-0!-0!-0!-0!-0'' @ [CHR 0x0A],
     ''Key: The_Key!-1!-1 => The_Value!-1!-1!-1!-1!-1'' @ [CHR 0x0A],
     ''Key: The_Key!-2!-2 => The_Value!-2!-2!-2!-2!-2'' @ [CHR 0x0A],
     ''Key: The_Key!-3!-3 => The_Value!-3!-3!-3!-3!-3'' @ [CHR 0x0A],
     ''Key: The_Key!-4!-4 => The_Value!-4!-4!-4!-4!-4'' @ [CHR 0x0A], [CHR 0x0A]])"
  "testSeededIterator J u True fuel = Inl Running"
proof -
  define ds where "ds c = (DatasetSeeded_of_spec (demo_spec c) :: 'a Dataset)" for c
  have ds: "ds_body (ds c) = Seeded (demo_spec c)" "isValid (ds c)" for c
    by (simp_all add: ds_def DatasetSeeded_of_spec_def Dataset_new_def isValid_def Error_of_code_def)
  have total: "ds_total J (ds False) = enat 5" "ds_total J (ds True) = \<infinity>"
    by (simp_all add: ds_total_def ds_continuous_def getCount_def ds demo_spec_def KVCOUNT_def)
  show "5 < fuel \<Longrightarrow> testSeededIterator J u False fuel = Inr (
    [''Performing Seeded tests'' @ [CHR 0x0A],
     ''Key: The_Key!-0!-0 => The_Value!-0!-0!-0!-0!-0'' @ [CHR 0x0A],
     ''Key: The_Key!-1!-1 => The_Value!-1!-1!-1!-1!-1'' @ [CHR 0x0A],
     ''Key: The_Key!-2!-2 => The_Value!-2!-2!-2!-2!-2'' @ [CHR 0x0A],
     ''Key: The_Key!-3!-3 => The_Value!-3!-3!-3!-3!-3'' @ [CHR 0x0A],
     ''Key: The_Key!-4!-4 => The_Value!-4!-4!-4!-4!-4'' @ [CHR 0x0A], [CHR 0x0A]])"
  proof -
    assume fuel: "5 < fuel"
    have "ds_load J u (ds False) i = Inr (seeded_item (demo_spec False) (word_of_nat i))" if "i \<le> 5" for i
      using ds_load_seeded [OF ds(1), of i J False u] total(1) that by (simp add: position_def demo_spec_def)
    from print_items_finite [OF total(1) this fuel, of seeded_line] demo_seeded_items ds(2) [of False]
    show ?thesis by (simp add: testSeededIterator_def ds_def seeded_item_def demo_spec_def)
  qed
  have "ds_load J u (ds True) i = Inr (seeded_item (demo_spec True) (word_of_nat (position True 5 i)))" for i
    using ds_load_seeded [OF ds(1), of i J True u] total(2) by (simp add: demo_spec_def KVCOUNT_def)
  from print_items_endless [OF this total(2), of seeded_line fuel] ds(2) [of True]
  show "testSeededIterator J u True fuel = Inl Running" by (simp add: testSeededIterator_def ds_def)
qed

lemma c_string_id: "CHR 0x00 \<notin> set s \<Longrightarrow> c_string s = s"
  by (induction s) (auto simp: c_string_def)

lemma nat_to_string_c: "CHR 0x00 \<notin> set (nat_to_string n)"
proof -
  have "\<not> is_digit (CHR 0x00)" by (simp add: is_digit_def)
  then show ?thesis using nat_to_string_digits by blast
qed

definition demo_entries :: "(string \<times> string option) list" where
  "demo_entries = map (\<lambda>k. (''Key_'' @ nat_to_string k, Some (''Value_'' @ nat_to_string k))) [0..<KVCOUNT]"

lemma demo_entry_item:
  "i < KVCOUNT \<Longrightarrow> inline_item demo_entries i = (''Key_'' @ nat_to_string i, ''Value_'' @ nat_to_string i, [], [])"
  by (simp add: inline_item_def demo_entries_def foldl_take_Suc entry_value_def)

definition inline_output :: "string list" where
  "inline_output = (''Will perform Inline tests'' @ [CHR 0x0A]) #
     map (\<lambda>i. inline_line (''Key_'' @ nat_to_string i) (''Value_'' @ nat_to_string i)) [0..<KVCOUNT] @ [[CHR 0x0A]]"

context json_index begin

lemma demo_dataset:
  obtains items where "inline_pairs J set_at KVCOUNT 0 (j_null J) = Inr items" and "j_truth J items"
    and "j_size J items = word_of_nat (length demo_entries)"
    and "\<forall>i < length demo_entries. \<exists>j. j_at J items (int i) = Some j \<and> reads_entry J j (demo_entries ! i)"
    and "\<exists>j. j_at J items (int (length demo_entries)) = Some j \<and> reads_entry J j ([], None)"
proof -
  obtain items where items: "inline_pairs J set_at KVCOUNT 0 (j_null J) = Inr items" "j_isArray J items"
    "length (j_elems J items) = KVCOUNT"
    "\<forall>k < KVCOUNT. reads_entry J (j_elems J items ! k) (''Key_'' @ nat_to_string k, Some (''Value_'' @ nat_to_string k))"
    using inline_pairs_ok [of "j_null J" 0 KVCOUNT] null_no_array by (auto simp: KVCOUNT_def)
  moreover have "j_elems J items \<noteq> []" using items(3) by (auto simp: KVCOUNT_def)
  then have "j_truth J items" by (rule truth_array [OF items(2)])
  moreover have "reads_entry J (j_null J) ([], None)" by (simp add: reads_entry_def null_no_array asString_null)
  ultimately show thesis
    by (intro that [of items]) (simp_all add: demo_entries_def at_array size_array)
qed

lemma demo_inline:
  assumes "KVCOUNT < fuel"
  shows "testInlineIterator J set_at u fuel = Inr inline_output"
proof -
  obtain items where items: "inline_pairs J set_at KVCOUNT 0 (j_null J) = Inr items" "j_truth J items"
    "j_size J items = word_of_nat (length demo_entries)"
    "\<forall>i < length demo_entries. \<exists>j. j_at J items (int i) = Some j \<and> reads_entry J j (demo_entries ! i)"
    "\<exists>j. j_at J items (int (length demo_entries)) = Some j \<and> reads_entry J j ([], None)"
    by (rule demo_dataset)
  obtain box where box: "jset J (j_null J) ''Items'' items = Inr box" "j_get J box ''Items'' = Some items"
    by (rule jset_ok [OF settable_null, of "''Items''" items]) auto
  define ds where "ds = Dataset_new DSTYPE_INLINE (Inline items)"
  have ds: "DatasetInline_new J box = Inr ds" "ds_body ds = Inline items" "isValid ds"
    using box(2) items(2)
    by (simp_all add: ds_def DatasetInline_new_def jfield_def Dataset_new_def isValid_def Error_of_code_def)
  have len: "length demo_entries = KVCOUNT" by (simp add: demo_entries_def)
  then have "rbind (DatasetIterator_start J ds (getIter u ds))
      (\<lambda>it. for_each (iter_done J ds) (iter_advance J ds) (\<lambda>s. (False, s)) (\<lambda>it. print_item inline_line (iter_item it)) fuel it [])
    = each_item (\<lambda>s. (False, s)) (print_item inline_line) (map (inline_item demo_entries) [0..<length demo_entries]) []"
    using assms by (intro inline_loop [OF ds(2) items(3) _ items(4,5)]) (simp_all add: KVCOUNT_def)
  then have "print_items J inline_line fuel ds (getIter u ds) =
      Inr (map (\<lambda>i. inline_line (''Key_'' @ nat_to_string i) (''Value_'' @ nat_to_string i)) [0..<KVCOUNT])"
    by (simp add: print_items_eq each_item_print demo_entry_item c_string_id nat_to_string_c len)
  with items(1) box(1) ds show ?thesis by (simp add: testInlineIterator_def inline_output_def)
qed

end

lemma inline_output_lines:
  "inline_output = [''Will perform Inline tests'' @ [CHR 0x0A], ''Key_0 => Value_0'' @ [CHR 0x0A],
     ''Key_1 => Value_1'' @ [CHR 0x0A], ''Key_2 => Value_2'' @ [CHR 0x0A], ''Key_3 => Value_3'' @ [CHR 0x0A],
     ''Key_4 => Value_4'' @ [CHR 0x0A], [CHR 0x0A]]"
  by code_simp

lemma demo_message:
  assumes "json_object J" and "request_text J demo_request 42 0 ''NEWHANDLE'' d" and "\<not> j_isNull J d"
  shows "\<exists>e. testMessage J u = Inr [''Attempting to create simple request..'' @ [CHR 0x0A], ''Encoded Response: '' @ e @ [CHR 0x0A]]"
proof -
  define m where "m = request_of 42 0 ''NEWHANDLE'' d Error_new"
  have dec: "Request_decode J u demo_request (Some Error_new) False = Inr (Some m, Some Error_new)"
    using Request_of_string_text [OF assms(2), of u] assms(3)
    by (simp add: Request_decode_def Request_isValid_def request_of_def m_def is_error_def Error_new_def)
  obtain root where "response_root J (Response_new J m Error_new) = Inr root"
    by (rule json_object.response_root_ok [OF assms(1)])
  then have enc: "encode J (Response_new J m Error_new) = Inr (j_write J root)" by (simp add: encode_def)
  have "Command_of_string ''NEWHANDLE'' = Command_of_code NEWHANDLE" by code_simp
  then have m: "cmd_code (command m) = NEWHANDLE" "reqid m = 42" "Request_isValid m"
    by (simp_all add: m_def request_of_def Command_of_code_def Request_isValid_def is_error_def Error_new_def)
  have r: "resp_msg (Response_new J m Error_new) = m" by (simp add: Response_new_def is_error_def Error_new_def)
  have "testMessage J u = Inr [''Attempting to create simple request..'' @ [CHR 0x0A], ''Encoded Response: '' @ j_write J root @ [CHR 0x0A]]"
    by (simp add: testMessage_def dec enc r m)
  then show ?thesis by blast
qed

text \<open>
  The model passes the tests of the repository's demonstration program. With any JSON library
  that keeps its documented behaviour, the three tests below run to their end without a failed
  assertion, print the five items in order, and the seeded test ends only because its
  dataset is not continuous: the test does not set that member, and when it holds true the
  test never ends.
\<close>

theorem demo_tests_pass:
  assumes "json_index J set_at" and "request_text J demo_request 42 0 ''NEWHANDLE'' d" and "\<not> j_isNull J d"
    and "5 < fuel"
  shows "(\<exists>e. testMessage J u = Inr [''Attempting to create simple request..'' @ [CHR 0x0A], ''Encoded Response: '' @ e @ [CHR 0x0A]]) \<and>
    testSeededIterator J i False fuel = Inr (
      [''Performing Seeded tests'' @ [CHR 0x0A],
       ''Key: The_Key!-0!-0 => The_Value!-0!-0!-0!-0!-0'' @ [CHR 0x0A],
       ''Key: The_Key!-1!-1 => The_Value!-1!-1!-1!-1!-1'' @ [CHR 0x0A],
       ''Key: The_Key!-2!-2 => The_Value!-2!-2!-2!-2!-2'' @ [CHR 0x0A],
       ''Key: The_Key!-3!-3 => The_Value!-3!-3!-3!-3!-3'' @ [CHR 0x0A],
       ''Key: The_Key!-4!-4 => The_Value!-4!-4!-4!-4!-4'' @ [CHR 0x0A], [CHR 0x0A]]) \<and>
    testSeededIterator J i True fuel = Inl Running \<and>
    testInlineIterator J set_at i fuel = Inr (
      [''Will perform Inline tests'' @ [CHR 0x0A], ''Key_0 => Value_0'' @ [CHR 0x0A],
       ''Key_1 => Value_1'' @ [CHR 0x0A], ''Key_2 => Value_2'' @ [CHR 0x0A], ''Key_3 => Value_3'' @ [CHR 0x0A],
       ''Key_4 => Value_4'' @ [CHR 0x0A], [CHR 0x0A]])"
proof -
  have obj: "json_object J" using assms(1) by (simp add: json_index_def json_array_def)
  have "testInlineIterator J set_at i fuel = Inr inline_output"
    using assms(4) by (intro json_index.demo_inline [OF assms(1)]) (simp add: KVCOUNT_def)
  then show ?thesis
    unfolding inline_output_lines
    by (intro conjI demo_message [OF obj assms(2,3)] demo_seeded(1) [OF assms(4)] demo_seeded(2))
qed

definition demo_json :: "jval json_api" where
  "demo_json = Jref_with (\<lambda>s. if s = demo_request
     then Inr (JObj [(''Command'', JStr ''NEWHANDLE''), (''CommandData'', JObj []), (''ReqID'', JInt 42)]) else Inl ''bad'')"

lemma demo_tests_pass_witness:
  "(\<forall>u. \<exists>ls. testMessage demo_json u = Inr ls \<and> length ls = 2) \<and>
   (\<exists>ls. testInlineIterator demo_json jv_set_at 3 6 = Inr ls \<and> length ls = 7)"
proof -
  have idx: "json_index demo_json jv_set_at"
    unfolding demo_json_def by (rule Jref_index.json_index_axioms)
  have req: "request_text demo_json demo_request 42 0 ''NEWHANDLE'' (JObj [])"
    by (simp add: request_text_def demo_json_def Jref_with_def json_read_defs jv_member_def)
  have obj: "\<not> j_isNull demo_json (JObj [])" by (simp add: demo_json_def Jref_with_def)
  have "(\<exists>ls. testMessage demo_json u = Inr ls \<and> length ls = 2) \<and>
      (\<exists>ls. testInlineIterator demo_json jv_set_at 3 6 = Inr ls \<and> length ls = 7)" for u
    using demo_tests_pass [OF idx req obj, of 6 u 3] by auto
  then show ?thesis by blast
qed

end
