(* ===== verification/Dialogue.thy ===== *)
theory Dialogue
  imports SystemProps
begin

text \<open>
  What a client sees of the daemon: a dialogue, in which every line it sends is a request and
  every request is answered before the next one is read. The specification knows neither
  buffers nor rounds nor other threads; the theorems show that every connection of the daemon
  keeps to it, however the bytes are cut into chunks, whatever the other threads do between two
  rounds, and also when the connection fails.
\<close>

section \<open>The specification\<close>

text \<open>The request a line stands for; members that the text leaves open have any value.\<close>

definition decodes :: "'j json_api \<Rightarrow> string \<Rightarrow> 'j Message \<Rightarrow> bool" where
  "decodes J l req \<longleftrightarrow> (\<exists>u e. Request_decode J u l None True = Inr (Some req, e))"

text \<open>\<open>t\<close> is the text of a response that carries the command and the numbers of \<open>req\<close>.\<close>

definition answer_text :: "'j json_api \<Rightarrow> 'j Message \<Rightarrow> string \<Rightarrow> bool" where
  "answer_text J req t \<longleftrightarrow>
     (\<exists>res e. answers_to req res \<and> encode J res = Inr e \<and> e \<noteq> [] \<and> t = terminated e)"

text \<open>
  One turn: the lines read, the texts written, and whether the connection goes on. It may end
  at any time; an invalid request is answered and ends it, \<open>CLOSEHANDLE\<close> ends it without an answer.
\<close>

inductive turn :: "'j json_api \<Rightarrow> string list \<Rightarrow> string list \<Rightarrow> bool \<Rightarrow> bool" for J :: "'j json_api" where
  idle: "turn J [] [] True"
| hang_up: "turn J [] [] False"
| answer: "decodes J l req \<Longrightarrow> Request_isValid req \<Longrightarrow> cmd_code (command req) \<noteq> CLOSEHANDLE \<Longrightarrow>
    answer_text J req t \<Longrightarrow> turn J [l] [t] True"
| refuse: "decodes J l req \<Longrightarrow> \<not> Request_isValid req \<Longrightarrow> answer_text J req t \<Longrightarrow> turn J [l] [t] False"
| close: "decodes J l req \<Longrightarrow> Request_isValid req \<Longrightarrow> cmd_code (command req) = CLOSEHANDLE \<Longrightarrow>
    turn J [l] [] False"

inductive dialogue :: "'j json_api \<Rightarrow> string list \<Rightarrow> string list \<Rightarrow> bool \<Rightarrow> bool" for J :: "'j json_api" where
  start: "dialogue J [] [] True"
| turn: "dialogue J ls es True \<Longrightarrow> turn J l e b \<Longrightarrow> dialogue J (ls @ l) (es @ e) b"

lemma turn_nothing: "turn J [] [] b"
  by (cases b) (simp_all add: turn.idle turn.hang_up)

lemma dialogue_turn: "turn J l e b \<Longrightarrow> dialogue J l e b"
  using dialogue.turn [OF dialogue.start] by simp

lemma dialogue_append:
  assumes "dialogue J ls es True" and "dialogue J ls' es' b"
  shows "dialogue J (ls @ ls') (es @ es') b"
  using assms(2,1)
proof (induction rule: dialogue.induct)
  case (turn ls' es' l e b)
  then show ?case using dialogue.turn [of J "ls @ ls'" "es @ es'" l e b] by simp
qed simp

text \<open>In a dialogue the answers match the requests one by one.\<close>

definition answered_in_order :: "'j json_api \<Rightarrow> string list \<Rightarrow> string list \<Rightarrow> bool" where
  "answered_in_order J ls es \<longleftrightarrow> length es \<le> length ls \<and>
     (\<forall>i < length es. \<exists>req. decodes J (ls ! i) req \<and> answer_text J req (es ! i))"

lemma answered_in_order_append:
  assumes "answered_in_order J ls es" and "length es = length ls" and "answered_in_order J ls' es'"
  shows "answered_in_order J (ls @ ls') (es @ es')"
  unfolding answered_in_order_def
proof (intro conjI allI impI)
  fix i
  assume i: "i < length (es @ es')"
  show "\<exists>req. decodes J ((ls @ ls') ! i) req \<and> answer_text J req ((es @ es') ! i)"
  proof (cases "i < length es")
    case False
    then have "i - length es < length es'" using i by auto
    with assms False show ?thesis by (simp add: answered_in_order_def nth_append)
  qed (use assms in \<open>simp add: answered_in_order_def nth_append\<close>)
qed (use assms in \<open>simp add: answered_in_order_def\<close>)

lemma turn_in_order:
  "turn J l e b \<Longrightarrow> answered_in_order J l e \<and> (b \<longrightarrow> length e = length l) \<and> length l \<le> Suc (length e)"
  by (induction rule: turn.induct) (auto simp: answered_in_order_def)

lemma dialogue_in_order:
  "dialogue J ls es b \<Longrightarrow>
    answered_in_order J ls es \<and> (b \<longrightarrow> length es = length ls) \<and> length ls \<le> Suc (length es)"
proof (induction rule: dialogue.induct)
  case (turn ls es l e b)
  then show ?case using turn_in_order [OF turn(2)] answered_in_order_append [of J ls es l e] by simp
qed (simp add: answered_in_order_def)

section \<open>One round of a worker\<close>

definition all_output :: "conn \<Rightarrow> string" where
  "all_output c = wire c @ outbuf c"

text \<open>What passes over a connection: the lines taken from it and the texts added to its output.\<close>

definition passes :: "string list \<Rightarrow> string list \<Rightarrow> conn \<Rightarrow> conn \<Rightarrow> bool" where
  "passes ls es c c' \<longleftrightarrow> (one_line (inbuf c) \<longrightarrow>
     one_line (inbuf c') \<and> pending c = ls @ pending c' \<and> all_output c' = all_output c @ concat es)"

lemma passes_refl [simp]: "passes [] [] c c"
  by (simp add: passes_def)

lemma passes_trans: "passes ls es c c' \<Longrightarrow> passes ls' es' c' c'' \<Longrightarrow> passes (ls @ ls') (es @ es') c c''"
  by (simp add: passes_def)

lemma passes_answer: "passes [] [t] c (c\<lparr>outbuf := outbuf c @ t\<rparr>)"
  by (simp add: passes_def all_output_def pending_def todo_def)

lemma flush_passes: "flushBuffer c = (r, c') \<Longrightarrow> passes [] [] c c'"
  using flushBuffer_conserves [of c r c']
  by (auto simp: passes_def all_output_def pending_def todo_def flushBuffer_def split: prod.splits if_splits)

lemma selects_passes: "passes [] [] c (c'\<lparr>selects := x\<rparr>) = passes [] [] c c'"
  by (simp add: passes_def all_output_def pending_def todo_def)

lemma flush_block_passes: "flush_block sels c = Inr (r, c') \<Longrightarrow> passes [] [] c c'"
proof (induction sels c rule: flush_block.induct)
  case (1 sels c)
  consider "outbuf c = []" | "outbuf c \<noteq> []" "\<not> sock_open c \<or> sels = []"
    | (err) e rest where "outbuf c \<noteq> []" "sock_open c" "sels = SelectError e # rest"
    | (wr) rest r1 c1 where "outbuf c \<noteq> []" "sock_open c" "sels = Writable # rest" "flushBuffer c = (r1, c1)"
    by (metis list.exhaust select_result.exhaust surj_pair)
  then show ?case
  proof cases
    case err
    have eq: "flush_block sels c = (if e = Interrupted then flush_block rest c else Inr (-1, c\<lparr>selects := rest\<rparr>))"
      using err by (simp add: flush_block.simps [of "SelectError e # rest" c])
    show ?thesis
    proof (cases "e = Interrupted")
      case True
      with eq "1.prems" have "flush_block rest c = Inr (r, c')" by simp
      with "1.IH"(2) err True show ?thesis by simp
    qed (use eq "1.prems" in \<open>auto simp: selects_passes\<close>)
  next
    case wr
    note fl = flush_passes [OF wr(4)]
    show ?thesis
    proof (cases "r1 = -1")
      case False
      with wr "1.prems" have "flush_block rest c1 = Inr (r, c')" by (simp add: flush_block.simps [of "Writable # rest" c])
      with "1.IH"(1) wr False have "passes [] [] c1 c'" by simp
      from passes_trans [OF fl this] show ?thesis by simp
    qed (use wr fl "1.prems" in \<open>auto simp: flush_block.simps [of "Writable # rest" c] selects_passes\<close>)
  qed (use "1.prems" in \<open>auto simp: flush_block.simps [of sels c] selects_passes split: if_splits\<close>)
qed

lemma getRawMessage_passes:
  assumes "getRawMessage c = (st, msg, c')"
  shows "passes (if st = IO_OK then [msg] else []) [] c c'"
  using get_raw_takes [of c True] assms
  by (auto simp: passes_def takes_message_def getRawMessage_def same_output_def all_output_def)

lemma writeResponse_passes:
  assumes "writeResponse J res c = Inr c'" and "answers_to req res"
  obtains t where "answer_text J req t" and "passes [] [t] c c'"
proof -
  obtain e where w: "encode J res = Inr e" using assms(1) by (auto simp: writeResponse_def rbind_eq_Inr)
  with assms(1) have "e \<noteq> []" by (auto simp: writeResponse_def)
  with w assms(1) have e: "encode J res = Inr e" "e \<noteq> []" "c' = c\<lparr>outbuf := outbuf c @ terminated e\<rparr>"
    by (auto simp: writeResponse_def terminated_def)
  show thesis
  proof (rule that [of "terminated e"])
    show "answer_text J req (terminated e)" using e(1,2) assms(2) unfolding answer_text_def by blast
    show "passes [] [terminated e] c c'" using passes_answer e(3) by simp
  qed
qed

text \<open>What reading a request means for the dialogue: \<open>rv\<close> and the pointer tell what was read.\<close>

lemma readRequest_turn:
  assumes "readRequest J u c = Inr (rv, reqp, c')"
  obtains (none) "reqp = NullPtr" and "rv \<in> {0, -1}" and "passes [] [] c c'"
    | (bad) l req t where "reqp = Dangling" and "rv = -1" and "decodes J l req" and "\<not> Request_isValid req"
        and "answer_text J req t" and "passes [l] [t] c c'"
    | (good) l req where "reqp = Live req" and "rv = 1" and "decodes J l req" and "Request_isValid req"
        and "passes [l] [] c c'"
proof -
  obtain st l c1 where r: "getRawMessage c = (st, l, c1)" by (cases "getRawMessage c")
  note p = getRawMessage_passes [OF r]
  show thesis
  proof (cases st)
    case IO_OK
    then obtain req e where d: "Request_decode J u l None True = Inr (Some req, e)"
      and rest: "(if \<not> Request_isValid req
          then rbind (writeResponse J (Response_new J req (msg_err req)) c1) (\<lambda>c2. Inr (-1, Dangling, c2))
          else Inr (1, Live req, c1)) = Inr (rv, reqp, c')"
      using assms r by (auto simp: readRequest_def rbind_eq_Inr split: option.splits)
    have dec: "decodes J l req" using d unfolding decodes_def by blast
    show thesis
    proof (cases "Request_isValid req")
      case True
      with rest p IO_OK dec good show thesis by auto
    next
      case False
      then have w: "writeResponse J (Response_new J req (msg_err req)) c1 = Inr c'" "rv = -1" "reqp = Dangling"
        using rest by (auto simp: rbind_eq_Inr)
      obtain t where "answer_text J req t" "passes [] [t] c1 c'"
        by (rule writeResponse_passes [OF w(1) answers_to_new(1)])
      moreover have "passes [l] [t] c c'"
        using passes_trans [OF p \<open>passes [] [t] c1 c'\<close>] IO_OK by simp
      ultimately show thesis using bad w dec False by blast
    qed
  qed (use assms r p none in \<open>auto simp: readRequest_def\<close>)
qed

lemma served_turn:
  assumes "served J req b s s'" and "decodes J l req" and "Request_isValid req"
  obtains es where "turn J [l] es b" and "passes [] es (w_conn (fst s)) (w_conn (fst s'))"
proof (cases "cmd_code (command req) = CLOSEHANDLE")
  case True
  with assms have "\<not> b" "s' = s" by (simp_all add: served_def)
  with turn.close [OF assms(2,3) True] that [of "[]"] show thesis by simp
next
  case False
  with assms obtain res e where "b" "answers_to req res" "encode J res = Inr e" "e \<noteq> []"
    and c: "w_conn (fst s') = (w_conn (fst s))\<lparr>outbuf := outbuf (w_conn (fst s)) @ terminated e\<rparr>"
    by (auto simp: served_def answered_def)
  then have "answer_text J req (terminated e)" unfolding answer_text_def by blast
  with turn.answer [OF assms(2,3) False this] \<open>b\<close> passes_answer [of "terminated e" "w_conn (fst s)"] c
  show thesis by (intro that [of "[terminated e]"]) simp_all
qed

lemma worker_read_turn:
  assumes "worker_read E s = Inr (go, s')"
  obtains ls es where "turn (e_json E) ls es go" and "passes ls es (w_conn (fst s)) (w_conn (fst s'))"
proof -
  obtain rv reqp c where r: "readRequest (e_json E) (mem_msg (e_memory E)) (w_conn (fst s)) = Inr (rv, reqp, c)"
    using assms by (auto simp: worker_read_def rbind_eq_Inr)
  define s1 where "s1 = ((fst s)\<lparr>w_conn := c\<rparr>, snd s)"
  have c: "w_conn (fst s1) = c" by (simp add: s1_def)
  have w: "worker_read E s = (if rv = -1 then Inr (False, s1) else if rv = 0 then Inr (True, s1)
      else case reqp of Live req \<Rightarrow> processRequest E req s1 | _ \<Rightarrow> Inl BadAccess)"
    using r by (simp add: worker_read_def s1_def cong: reqptr.case_cong)
  from r show thesis
  proof (cases rule: readRequest_turn)
    case none
    then have "s' = s1" using assms w by (auto split: if_splits)
    with none c that [OF turn_nothing] show thesis by simp
  next
    case (bad l req t)
    with assms w c that [of "[l]" "[t]"] turn.refuse show thesis by auto
  next
    case (good l req)
    then have "served (e_json E) req go s1 s'" using assms w by (auto intro: processRequest_served)
    then obtain es where "turn (e_json E) [l] es go" "passes [] es c (w_conn (fst s'))"
      using good c served_turn by metis
    with passes_trans [OF good(5)] that [of "[l]" es] show thesis by simp
  qed
qed

lemma selectLoop_turn:
  assumes "selectLoop E ev s = Inr (go, s')"
  obtains ls es where "turn (e_json E) ls es go" and "passes ls es (w_conn (fst s)) (w_conn (fst s'))"
proof -
  note assm = that
  obtain ww where ww: "setupFdSets (w_conn (fst s)) = Inr ww"
    using assms by (auto simp: selectLoop_def rbind_eq_Inr)
  have still: thesis if "w_conn (fst s') = w_conn (fst s)"
    by (rule assm [OF turn_nothing]) (simp add: that)
  show thesis
  proof (cases ev)
    case (SelectReady exc wr rd)
    obtain r c where f: "(if wr \<and> ww then flushBuffer (w_conn (fst s)) else (0, w_conn (fst s))) = (r, c)"
      by (cases "if wr \<and> ww then flushBuffer (w_conn (fst s)) else (0, w_conn (fst s))")
    have p: "passes [] [] (w_conn (fst s)) c" using f flush_passes by (auto split: if_splits)
    define s1 where "s1 = ((fst s)\<lparr>w_conn := c\<rparr>, snd s)"
    have s1: "w_conn (fst s1) = c" by (simp add: s1_def)
    have "exc \<and> s' = s \<or> s' = s1 \<or> worker_read E s1 = Inr (go, s')"
      using assms ww f SelectReady by (auto simp: selectLoop_def s1_def Let_def split: if_splits)
    then consider "s' = s" | "s' = s1" | "worker_read E s1 = Inr (go, s')" by blast
    then show thesis
    proof cases
      case 2
      with p s1 assm [OF turn_nothing] show thesis by simp
    next
      case 3
      obtain ls es where "turn (e_json E) ls es go" "passes ls es c (w_conn (fst s'))"
        using worker_read_turn [OF 3] s1 by auto
      with passes_trans [OF p] assm [of ls es] show thesis by simp
    qed (use still in simp)
  qed (use assms ww still in \<open>auto simp: selectLoop_def\<close>)
qed

lemma worker_end_passes:
  assumes "worker_end s = Inr s'"
  shows "passes [] [] (w_conn (fst s)) (w_conn (fst s'))"
proof -
  obtain r c where f: "flushBufferBlock (w_conn (fst s)) = Inr (r, c)" and c: "w_conn (fst s') = c"
    using assms by (auto simp: worker_end_def rbind_eq_Inr cancelCurrentHandle_def Let_def
      split: prod.splits if_splits)
  then show ?thesis using flush_block_passes [of "selects (w_conn (fst s))"] by (simp add: flushBufferBlock_def)
qed

section \<open>One worker in the daemon\<close>

text \<open>
  What passes between two views of the same worker: a dialogue, which is still open when the
  worker still serves, and nothing once it has left its loop.
\<close>

definition continues :: "'j json_api \<Rightarrow> child_view \<Rightarrow> child_view \<Rightarrow> bool" where
  "continues J v v' \<longleftrightarrow> (\<exists>ls es b. dialogue J ls es b \<and> passes ls es (v_conn v) (v_conn v') \<and>
     (v_phase v' = Serving \<longrightarrow> b \<and> v_phase v = Serving) \<and> (v_phase v \<noteq> Serving \<longrightarrow> ls = [] \<and> es = []))"

lemma continues_refl [simp]: "continues J v v"
  unfolding continues_def using dialogue.start passes_refl by blast

lemma continues_trans:
  assumes "continues J v v1" and "continues J v1 v2"
  shows "continues J v v2"
proof -
  obtain ls es b where 1: "dialogue J ls es b" "passes ls es (v_conn v) (v_conn v1)"
    "v_phase v1 = Serving \<longrightarrow> b \<and> v_phase v = Serving" "v_phase v \<noteq> Serving \<longrightarrow> ls = [] \<and> es = []"
    using assms(1) unfolding continues_def by blast
  obtain ls' es' b' where 2: "dialogue J ls' es' b'" "passes ls' es' (v_conn v1) (v_conn v2)"
    "v_phase v2 = Serving \<longrightarrow> b' \<and> v_phase v1 = Serving" "v_phase v1 \<noteq> Serving \<longrightarrow> ls' = [] \<and> es' = []"
    using assms(2) unfolding continues_def by blast
  have p: "passes (ls @ ls') (es @ es') (v_conn v) (v_conn v2)" by (rule passes_trans [OF 1(2) 2(2)])
  show ?thesis
  proof (cases "v_phase v1 = Serving")
    case True
    with 1 2 have "dialogue J (ls @ ls') (es @ es') b'" by (intro dialogue_append) simp_all
    with True 1 2 p show ?thesis
      unfolding continues_def by (intro exI [of _ "ls @ ls'"] exI [of _ "es @ es'"] exI [of _ b']) simp
  next
    case False
    with 1 2 p show ?thesis unfolding continues_def by (intro exI [of _ ls] exI [of _ es] exI [of _ b]) simp
  qed
qed

lemma continues_turn:
  assumes "turn J ls es go" and "passes ls es (v_conn v) (v_conn v')" and "v_phase v = Serving"
    and "v_phase v' = Serving \<longrightarrow> go"
  shows "continues J v v'"
  unfolding continues_def using assms dialogue_turn by blast

text \<open>Every worker of a later state whose address was already given out is one that existed, and has gone on.\<close>

definition talks :: "'j json_api \<Rightarrow> 'j control \<Rightarrow> 'j control \<Rightarrow> bool" where
  "talks J c c' \<longleftrightarrow> c_next c \<le> c_next c' \<and>
     (\<forall>d < c_next c. \<forall>v'. heap_view (c_heap c') d = Some v' \<longrightarrow>
        (\<exists>v. heap_view (c_heap c) d = Some v \<and> continues J v v'))"

lemma talks_refl [simp]: "talks J c c"
  by (simp add: talks_def)

lemma talks_trans:
  assumes "talks J c c1" and "talks J c1 c2"
  shows "talks J c c2"
  unfolding talks_def
proof (intro conjI allI impI)
  fix d v'
  assume d: "d < c_next c" and v': "heap_view (c_heap c2) d = Some v'"
  with assms obtain v1 where "heap_view (c_heap c1) d = Some v1" "continues J v1 v'"
    unfolding talks_def by (meson order_less_le_trans)
  with assms(1) d show "\<exists>v. heap_view (c_heap c) d = Some v \<and> continues J v v'"
    unfolding talks_def using continues_trans by blast
qed (use assms in \<open>auto simp: talks_def\<close>)

lemma move_talks: "control_move c c' \<Longrightarrow> talks J c c'"
proof (induction rule: control_move.induct)
  case (collect alive c)
  then show ?case by (auto simp: talks_def collect_workers_def collect_eq heap_view_def)
qed (simp_all add: talks_def quiet_def new_worker_def Let_def)

lemma moves_talk: "control_move\<^sup>*\<^sup>* c c' \<Longrightarrow> talks J c c'"
proof (induction rule: rtranclp_induct)
  case (step c' c'')
  then show ?case using move_talks talks_trans by blast
qed simp

lemma put_worker_talks:
  assumes "c_heap c d = Some ch" and "continues J (child_view ch) (child_view \<lparr>ch_phase = p, ch_worker = fst s\<rparr>)"
  shows "talks J c (put_worker d p s c)"
  using assms by (auto simp: talks_def put_worker_parts heap_view_def)

lemma step_talks: "step J s s' \<Longrightarrow> talks J (sy_control s) (sy_control s')"
proof (induction rule: step_move_cases)
  case (moves c c' p p')
  then show ?case by (simp add: moves_talk)
next
  case (serve E c d ch ev go s' p)
  obtain ls es where "turn (e_json E) ls es go" "passes ls es (w_conn (ch_worker ch)) (w_conn (fst s'))"
    using selectLoop_turn [OF serve(4)] by auto
  then have "continues J (child_view ch) (child_view \<lparr>ch_phase = if go then Serving else Leaving, ch_worker = fst s'\<rparr>)"
    using serve(1,3) by (intro continues_turn [of J ls es go]) (simp_all add: child_view_def)
  with serve(2) show ?case by (simp add: put_worker_talks)
next
  case (leave c d ch s' p)
  have "continues J (child_view ch) (child_view \<lparr>ch_phase = Ended, ch_worker = fst s'\<rparr>)"
    unfolding continues_def
    using dialogue.start [of J] worker_end_passes [OF leave(3)] leave(2)
    by (intro exI [of _ "[]"] exI [of _ True]) (simp add: child_view_def)
  with leave(1) show ?case by (simp add: put_worker_talks)
qed

lemma steps_talk: "(step J)\<^sup>*\<^sup>* s s' \<Longrightarrow> talks J (sy_control s) (sy_control s')"
proof (induction rule: rtranclp_induct)
  case (step s' s'')
  then show ?case using step_talks talks_trans by blast
qed simp

lemma session_talk:
  assumes "reachable J s" and "(step J)\<^sup>*\<^sup>* s s'" and "c_heap (sy_control s) d = Some ch"
    and "c_heap (sy_control s') d = Some ch'"
  shows "continues J (child_view ch) (child_view ch')"
proof -
  have "d < c_next (sy_control s)"
    using reachable_ok [OF assms(1)] assms(3) by (auto simp: system_ok_def children_ok_def heap_view_def)
  with steps_talk [OF assms(2)] assms(3,4) show ?thesis by (auto simp: talks_def heap_view_def)
qed

section \<open>What the peer reads back\<close>

text \<open>The writer of the JSON library puts a value on one line, with or without the end of the line.\<close>

definition line_writer :: "'j json_api \<Rightarrow> bool" where
  "line_writer J \<longleftrightarrow> (\<forall>v. \<exists>l. l \<noteq> [] \<and> one_line l \<and> j_write J v \<in> {l, l @ [newline]})"

text \<open>\<open>t\<close> is the line of a response to \<open>req\<close>.\<close>

definition answer_line :: "'j json_api \<Rightarrow> 'j Message \<Rightarrow> string \<Rightarrow> bool" where
  "answer_line J req t \<longleftrightarrow> (\<exists>res root. answers_to req res \<and> response_root J res = Inr root \<and>
     j_write J root \<in> {t, t @ [newline]} \<and> t \<noteq> [] \<and> one_line t)"

lemma one_line_last: "one_line l \<Longrightarrow> l \<noteq> [] \<Longrightarrow> last l \<noteq> newline"
  by (metis last_in_set one_line_def)

lemma answer_text_line:
  assumes "line_writer J" and "answer_text J req e"
  shows "e = butlast e @ [newline] \<and> answer_line J req (butlast e)"
proof -
  obtain res w where res: "answers_to req res" "encode J res = Inr w" "e = terminated w"
    using assms(2) unfolding answer_text_def by blast
  then obtain root where root: "response_root J res = Inr root" "w = j_write J root"
    by (auto simp: encode_def rbind_eq_Inr)
  obtain l where l: "l \<noteq> []" "one_line l" "j_write J root \<in> {l, l @ [newline]}"
    using assms(1) unfolding line_writer_def by blast
  then have "e = l @ [newline]" using res(3) root(2) by (auto simp: terminated_def one_line_last)
  with l res(1) root(1) show ?thesis unfolding answer_line_def by auto
qed

text \<open>The complete lines of a beginning of a text are a beginning of its lines.\<close>

lemma split_lines_append:
  "fst (split_lines (a @ b)) = fst (split_lines a) @ fst (split_lines (snd (split_lines a) @ b))"
  by (induction a) (auto split: prod.splits list.splits)

lemma take_messages_answers:
  assumes "line_writer J" and "answered_in_order J ls es" and "concat es = got @ waiting"
    and "conn_live p" and "inbuf p = []" and "newlines p = []" and "script_data (incoming p) = got"
    and "length es < n"
  obtains ts p' where "take_messages n p = (ts, p')" and "length ts \<le> length es"
    and "waiting = [] \<Longrightarrow> length ts = length es"
    and "\<forall>i < length ts. \<exists>req. decodes J (ls ! i) req \<and> answer_line J req (ts ! i)"
proof -
  define ts0 where "ts0 = map butlast es"
  have es: "\<exists>req. decodes J (ls ! i) req \<and> es ! i = ts0 ! i @ [newline] \<and> answer_line J req (ts0 ! i)"
    if "i < length es" for i
    using assms(2) that answer_text_line [OF assms(1)] unfolding answered_in_order_def ts0_def by fastforce
  then have "one_line (ts0 ! i) \<and> ts0 ! i \<noteq> []" if "i < length es" for i
    using that unfolding answer_line_def by blast
  then have lines: "\<forall>l \<in> set ts0. one_line l \<and> l \<noteq> []"
    by (simp add: all_set_conv_all_nth ts0_def)
  have "es = map (\<lambda>l. l @ [newline]) ts0"
    by (rule nth_equalityI) (use es in \<open>auto simp: ts0_def\<close>)
  then have "split_lines (got @ waiting) = (ts0, [])"
    using split_lines_unlines [of ts0 "[]"] lines assms(3) by (simp add: unlines_def)
  then obtain rest where rest: "ts0 = fst (split_lines got) @ rest" "rest = fst (split_lines (snd (split_lines got) @ waiting))"
    using split_lines_append [of got waiting] by auto
  define ts where "ts = fst (split_lines got)"
  have todo: "filter (\<lambda>l. l \<noteq> []) (todo p) = ts"
    using lines rest(1) by (simp add: todo_def assms ts_def filter_id_conv)
  have len: "length ts \<le> length es" using rest(1) by (simp add: ts_def ts0_def flip: length_map [of butlast es])
  then obtain p' where p': "take_messages n p = (ts, p')"
    using take_messages_live [OF assms(4), of n] assms(8) todo by auto
  have "rest = []" if "waiting = []"
    using one_line_rest [of got] rest(2) that by simp
  then have "length ts = length es" if "waiting = []"
    using that rest(1) length_map [of butlast es] by (simp add: ts_def ts0_def)
  moreover have "\<forall>i < length ts. \<exists>req. decodes J (ls ! i) req \<and> answer_line J req (ts ! i)"
    using es len rest(1) by (metis nth_append order_less_le_trans ts_def)
  ultimately show thesis using that p' len by blast
qed

section \<open>Properties\<close>

text \<open>
  C2: a session. Between any two states of the daemon, in whatever order its threads took their
  steps and whatever the sockets and the cluster did, what passed over the connection of a
  worker is a dialogue: a first part \<open>ls\<close> of the nonempty lines the peer was sending was read, the
  output grew by the texts \<open>es\<close>, and the \<open>i\<close>-th text answers the \<open>i\<close>-th request. While the worker
  serves, every request read is answered; in the end at most the last one is not.
\<close>

theorem session_dialogue:
  assumes "reachable J s" and "(step J)\<^sup>*\<^sup>* s s'" and "c_heap (sy_control s) d = Some ch"
    and "c_heap (sy_control s') d = Some ch'" and "one_line (inbuf (w_conn (ch_worker ch)))"
  shows "\<exists>ls es b. dialogue J ls es b \<and> answered_in_order J ls es \<and>
    length ls \<le> Suc (length es) \<and> (ch_phase ch' = Serving \<longrightarrow> b \<and> length es = length ls) \<and>
    pending (w_conn (ch_worker ch)) = ls @ pending (w_conn (ch_worker ch')) \<and>
    wire (w_conn (ch_worker ch')) @ outbuf (w_conn (ch_worker ch')) =
      wire (w_conn (ch_worker ch)) @ outbuf (w_conn (ch_worker ch)) @ concat es"
proof -
  obtain ls es b where d: "dialogue J ls es b" "passes ls es (w_conn (ch_worker ch)) (w_conn (ch_worker ch'))"
    "ch_phase ch' = Serving \<longrightarrow> b"
    using session_talk [OF assms(1-4)] unfolding continues_def by (auto simp: child_view_def)
  with assms(5) dialogue_in_order [OF d(1)] show ?thesis
    unfolding passes_def all_output_def by (intro exI [of _ ls] exI [of _ es] exI [of _ b]) simp
qed

lemma client_pending: "pending client_conn = [''x'']"
  by (simp add: client_conn_def new_conn_def pending_def todo_def newline_def)

text \<open>The worker of an accepted connection reads its one line, a request for a handle, and answers it.\<close>

lemma session_dialogue_witness:
  "\<exists>s' ch' t. (step (handle_json 7))\<^sup>*\<^sup>* \<lparr>sy_control = accepted, sy_phase = Dispatching\<rparr> s' \<and>
     c_heap (sy_control s') 0 = Some ch' \<and> dialogue (handle_json 7) [''x''] [t] True \<and>
     outbuf (w_conn (ch_worker ch')) = t"
proof -
  obtain w e where w: "step (handle_json 7) \<lparr>sy_control = accepted, sy_phase = Dispatching\<rparr>
      \<lparr>sy_control = put_worker 0 Serving w accepted, sy_phase = Dispatching\<rparr>"
    and out: "w_conn (fst w) = client_conn\<lparr>incoming := [], outbuf := terminated e\<rparr>" "e \<noteq> []"
    by (rule opened_step [of 7]) simp_all
  define s' where "s' = \<lparr>sy_control = put_worker 0 Serving w accepted, sy_phase = Dispatching\<rparr>"
  define ch' where "ch' = \<lparr>ch_phase = Serving, ch_worker = fst w\<rparr>"
  have ch': "c_heap (sy_control s') 0 = Some ch'" by (simp add: s'_def ch'_def put_worker_def)
  have run: "(step (handle_json 7))\<^sup>*\<^sup>* \<lparr>sy_control = accepted, sy_phase = Dispatching\<rparr> s'"
    using w by (simp add: s'_def r_into_rtranclp)
  define ch where "ch = \<lparr>ch_phase = Serving, ch_worker = WorkerDispatch_new 0 client_conn\<rparr>"
  have ch: "c_heap (sy_control \<lparr>sy_control = accepted, sy_phase = Dispatching\<rparr>) 0 = Some ch"
    "w_conn (ch_worker ch) = client_conn" "w_conn (ch_worker ch') = w_conn (fst w)" "ch_phase ch' = Serving"
    by (simp_all add: accepted_fields ch_def ch'_def WorkerDispatch_new_def)
  have one: "one_line (inbuf (w_conn (ch_worker ch)))" by (simp add: ch)
  obtain ls es b where "dialogue (handle_json 7) ls es b" "ch_phase ch' = Serving \<longrightarrow> b \<and> length es = length ls"
    "pending (w_conn (ch_worker ch)) = ls @ pending (w_conn (ch_worker ch'))"
    "wire (w_conn (ch_worker ch')) @ outbuf (w_conn (ch_worker ch')) =
      wire (w_conn (ch_worker ch)) @ outbuf (w_conn (ch_worker ch)) @ concat es"
    using session_dialogue [OF accepted_reachable run ch(1) ch' one] by blast
  then have d: "dialogue (handle_json 7) ls es True" "length es = length ls"
    "[''x''] = ls @ pending (w_conn (fst w))" "wire (w_conn (fst w)) @ outbuf (w_conn (fst w)) = concat es"
    by (simp_all add: ch client_pending)
  moreover have "ls \<noteq> []" using d(2,4) out by (auto simp: terminated_def split: if_splits)
  ultimately have ls: "ls = [''x'']" by (cases ls) auto
  then obtain t where t: "es = [t]" using d(2) by (cases es) auto
  then have "outbuf (w_conn (ch_worker ch')) = t" using d(4) out by (simp add: ch'_def)
  with d(1) ls t run ch' show ?thesis by blast
qed

text \<open>
  C8: what a client gets. A client whose requests are the lines \<open>qs\<close> reads the bytes the daemon has
  sent so far, in chunks of any size: it gets one line per answer, the \<open>i\<close>-th line is the encoded
  response to the \<open>i\<close>-th request, and once everything is sent there is an answer to every request
  the worker has read.
\<close>

theorem client_reads_answers:
  assumes "reachable J s" and "(step J)\<^sup>*\<^sup>* s s'" and "c_heap (sy_control s) d = Some ch"
    and "c_heap (sy_control s') d = Some ch'" and "line_writer J"
    and "inbuf (w_conn (ch_worker ch)) = []" and "outbuf (w_conn (ch_worker ch)) = []"
    and "wire (w_conn (ch_worker ch)) = []" and "pending (w_conn (ch_worker ch)) = qs"
    and "conn_live p" and "inbuf p = []" and "newlines p = []"
    and "script_data (incoming p) = wire (w_conn (ch_worker ch'))" and "length qs < n"
  shows "\<exists>ts p'. take_messages n p = (ts, p') \<and> length ts \<le> length qs \<and>
    (\<forall>i < length ts. \<exists>req. decodes J (qs ! i) req \<and> answer_line J req (ts ! i)) \<and>
    (outbuf (w_conn (ch_worker ch')) = [] \<and> ch_phase ch' = Serving \<longrightarrow>
       length ts + length (pending (w_conn (ch_worker ch'))) = length qs)"
proof -
  obtain ls es b where d: "dialogue J ls es b" "passes ls es (w_conn (ch_worker ch)) (w_conn (ch_worker ch'))"
    "ch_phase ch' = Serving \<longrightarrow> b"
    using session_talk [OF assms(1-4)] unfolding continues_def by (auto simp: child_view_def)
  note order = dialogue_in_order [OF d(1)]
  have p: "qs = ls @ pending (w_conn (ch_worker ch'))"
    "concat es = wire (w_conn (ch_worker ch')) @ outbuf (w_conn (ch_worker ch'))"
    using d(2) assms(6-9) by (simp_all add: passes_def all_output_def)
  have len: "length es \<le> length ls" "length ls \<le> length qs" using order p(1) by (simp_all add: answered_in_order_def)
  obtain ts p' where ts: "take_messages n p = (ts, p')" "length ts \<le> length es"
    "outbuf (w_conn (ch_worker ch')) = [] \<Longrightarrow> length ts = length es"
    "\<forall>i < length ts. \<exists>req. decodes J (ls ! i) req \<and> answer_line J req (ts ! i)"
    using take_messages_answers [OF assms(5) _ p(2) assms(10-13), of ls n] order len assms(14) by auto
  have "\<exists>req. decodes J (qs ! i) req \<and> answer_line J req (ts ! i)" if "i < length ts" for i
    using ts(2,4) that len(1) p(1) by (simp add: nth_append)
  with ts len order d(3) p(1) show ?thesis by (intro exI [of _ ts] exI [of _ p']) auto
qed

lemma json_escape_one_line: "one_line (json_escape s)"
proof -
  have "newline \<notin> set (json_escape_char c)" for c
    by (auto simp: json_escape_char_def newline_def)
  then show ?thesis by (auto simp: json_escape_def one_line_def)
qed

text \<open>The reference library writes JSON on one line.\<close>

lemma int_to_string_line: "one_line (int_to_string i) \<and> int_to_string i \<noteq> []"
proof -
  have "\<not> is_digit newline" by (simp add: is_digit_def newline_def)
  then have "newline \<notin> set (nat_to_string n)" for n using nat_to_string_digits by blast
  then show ?thesis by (simp add: int_to_string_def one_line_def newline_def)
qed

lemma commas_one_line: "one_line (commas ss) \<longleftrightarrow> (\<forall>s \<in> set ss. one_line s)"
  by (induction ss rule: commas.induct) (auto simp: newline_def)

lemma jv_text_line: "one_line (jv_text v) \<and> jv_text v \<noteq> []"
proof (induction v rule: jv_text.induct)
  case (6 m)
  then show ?case by (auto simp: commas_one_line jv_quote_def json_escape_one_line newline_def)
qed (auto simp: commas_one_line int_to_string_line jv_quote_def json_escape_one_line newline_def)

lemma line_writer_reference: "line_writer (handle_json k)"
  unfolding line_writer_def
proof
  fix v
  have "j_write (handle_json k) v = jv_text v @ [newline]"
    by (simp add: handle_json_def Jref_with_def newline_def)
  with jv_text_line [of v] show "\<exists>l. l \<noteq> [] \<and> one_line l \<and> j_write (handle_json k) v \<in> {l, l @ [newline]}"
    by blast
qed

text \<open>The same worker once its answer is on the wire.\<close>

lemma client_text:
  "encode (handle_json 7) (Response_new (handle_json 7) (client_request 7) Error_new) = Inr (
    CHR ''{'' # jv_quote ''Command'' @ '':'' @ jv_quote ''NEWHANDLE'' @ '','' @ jv_quote ''Handle'' @ '':7,'' @
    jv_quote ''ReqID'' @ '':1,'' @ jv_quote ''ResponseData'' @ '':{},'' @ jv_quote ''Status'' @ '':0}'' @ [newline])"
  by code_simp

lemma flushed_step:
  assumes "c_heap c d = Some \<lparr>ch_phase = Serving, ch_worker = w\<rparr>" and "sock_open (w_conn w)"
    and "outbuf (w_conn w) \<noteq> []" and "sends (w_conn w) = [Taken n]" and "length (outbuf (w_conn w)) \<le> n"
    and "w' = w\<lparr>w_conn := (w_conn w)\<lparr>outbuf := [], wire := wire (w_conn w) @ outbuf (w_conn w), sends := []\<rparr>\<rparr>"
  shows "step (handle_json k) \<lparr>sy_control = c, sy_phase = p\<rparr>
    \<lparr>sy_control = put_worker d Serving (w', c_shared c) c, sy_phase = p\<rparr>"
proof -
  obtain x xs where x: "outbuf (w_conn w) = x # xs" using assms(3) by (cases "outbuf (w_conn w)") auto
  then have n: "n \<noteq> 0" using assms(5) by auto
  have "send_loop [Taken n] (outbuf (w_conn w)) = (0, outbuf (w_conn w), [], [])"
    using assms(5) n unfolding x by simp
  then have "selectLoop (handle_env k) (SelectReady False True False) (w, c_shared c) = Inr (True, (w', c_shared c))"
    using assms(2,3,4,6) by (simp add: selectLoop_def setupFdSets_def flushBuffer_def)
  from step.serve [where E = "handle_env k", OF _ assms(1) _ _, of _ "SelectReady False True False" True] this
  show ?thesis by (simp add: handle_env_def)
qed

text \<open>A peer to which the bytes come in two chunks, with a call interrupted between them.\<close>

lemma client_reads_answers_witness:
  "\<exists>s' ch' t p'. (step (handle_json 7))\<^sup>*\<^sup>* \<lparr>sy_control = accepted, sy_phase = Dispatching\<rparr> s' \<and>
     c_heap (sy_control s') 0 = Some ch' \<and>
     take_messages 2 (new_conn [Bytes (take 9 (wire (w_conn (ch_worker ch')))), RecvError Interrupted,
       Bytes (drop 9 (wire (w_conn (ch_worker ch'))))]) = ([t], p') \<and>
     (\<exists>req. decodes (handle_json 7) ''x'' req \<and> answer_line (handle_json 7) req t)"
proof -
  obtain w e where w: "step (handle_json 7) \<lparr>sy_control = accepted, sy_phase = Dispatching\<rparr>
      \<lparr>sy_control = put_worker 0 Serving w accepted, sy_phase = Dispatching\<rparr>"
    and e: "encode (handle_json 7) (Response_new (handle_json 7) (client_request 7) Error_new) = Inr e"
    and out: "w_conn (fst w) = client_conn\<lparr>incoming := [], outbuf := terminated e\<rparr>"
    by (rule opened_step [of 7]) simp_all
  define t where "t = terminated e"
  have len: "9 < length t" "length t \<le> 4096"
    using e unfolding client_text by (auto simp: t_def terminated_def jv_quote_def json_escape_def json_escape_char_def)
  define w' where "w' = (fst w)\<lparr>w_conn := (w_conn (fst w))\<lparr>outbuf := [], wire := t, sends := []\<rparr>\<rparr>"
  define c where "c = put_worker 0 Serving w accepted"
  define s' where "s' = \<lparr>sy_control = put_worker 0 Serving (w', c_shared c) c, sy_phase = Dispatching\<rparr>"
  have "step (handle_json 7) \<lparr>sy_control = c, sy_phase = Dispatching\<rparr> s'"
    unfolding s'_def
    by (rule flushed_step [of c 0 "fst w" 4096]) (use len out in \<open>auto simp: c_def put_worker_def w'_def t_def\<close>)
  with w have run: "(step (handle_json 7))\<^sup>*\<^sup>* \<lparr>sy_control = accepted, sy_phase = Dispatching\<rparr> s'"
    by (auto simp: c_def)
  define ch where "ch = \<lparr>ch_phase = Serving, ch_worker = WorkerDispatch_new 0 client_conn\<rparr>"
  have ch: "c_heap (sy_control \<lparr>sy_control = accepted, sy_phase = Dispatching\<rparr>) 0 = Some ch" "w_conn (ch_worker ch) = client_conn"
    by (simp_all add: accepted_fields ch_def WorkerDispatch_new_def)
  define ch' where "ch' = \<lparr>ch_phase = Serving, ch_worker = w'\<rparr>"
  have ch': "c_heap (sy_control s') 0 = Some ch'" "ch_phase ch' = Serving" "wire (w_conn (ch_worker ch')) = t"
    "outbuf (w_conn (ch_worker ch')) = []" "pending (w_conn (ch_worker ch')) = []"
    using out by (simp_all add: s'_def ch'_def put_worker_def w'_def pending_def todo_def client_conn_def new_conn_def)
  define p where "p = new_conn [Bytes (take 9 t), RecvError Interrupted, Bytes (drop 9 t)]"
  have p: "conn_live p" "inbuf p = []" "newlines p = []" "script_data (incoming p) = wire (w_conn (ch_worker ch'))"
    using len by (auto simp: p_def new_conn_def conn_live_def ch'(3))
  obtain ts p' where ts: "take_messages 2 p = (ts, p')" "length ts + length (pending (w_conn (ch_worker ch'))) = length [''x'']"
    "\<forall>i < length ts. \<exists>req. decodes (handle_json 7) ([''x''] ! i) req \<and> answer_line (handle_json 7) req (ts ! i)"
    using client_reads_answers [OF accepted_reachable run ch(1) ch'(1) line_writer_reference _ _ _ _ p, of "[''x'']" 2]
      ch(2) ch'(2,4) client_pending by auto
  then have "length ts = Suc 0" using ch'(5) by simp
  then obtain t' where "ts = [t']" by (cases ts) auto
  with ts run ch' show ?thesis by (auto simp: p_def)
qed

end
