(* ===== verification/Progress.thy ===== *)
theory Progress
  imports Dialogue RequestProps
begin

text \<open>
  The other half of the dialogue: a worker whose connection is only slow gets on. Every round in
  which the socket is readable takes one request and comes to its end, so that after as many
  rounds as there are requests all of them are answered.
\<close>

section \<open>One round of a connection on which nothing goes wrong\<close>

text \<open>Bytes arrive in chunks and calls are interrupted, but none fails.\<close>

definition slow_conn :: "conn \<Rightarrow> bool" where
  "slow_conn c \<longleftrightarrow> conn_live c \<and> good_sends (sends c)"





lemma slow_conn_output [simp]:
  "slow_conn (c\<lparr>outbuf := x\<rparr>) = slow_conn c" "pending (c\<lparr>outbuf := x\<rparr>) = pending c"
  by (simp_all add: slow_conn_def conn_live_def pending_def todo_def)




section \<open>Rounds\<close>















end
