(* ===== verification/ControlAnswers.thy ===== *)
theory ControlAnswers
  imports Dialogue
begin

text \<open>
  What the control connection gives back: how many responses each command of the control thread
  is answered with. The protocol of a worker, one answer to every request, does not hold here.
\<close>

text \<open>The number of responses to a request.\<close>

definition control_count :: "'j json_api \<Rightarrow> 'j Message \<Rightarrow> 'j control \<Rightarrow> nat" where
  "control_count J req c =
     (if cmd_code (command req) = NEWDATASET
      then (if \<exists>refid. determineType J req [] = Inr (DSTYPE_INVALID, refid) then 2 else 1)
      else if cmd_code (command req) = GOODBYE then (if isCollectingStats c then 1 else 0)
      else if cmd_code (command req) = GETUSAGE then 0
      else 1)"

text \<open>\<open>c'\<close> is \<open>c\<close> with \<open>n\<close> responses to \<open>req\<close> added to the output of the control connection.\<close>

definition control_answered :: "'j json_api \<Rightarrow> 'j Message \<Rightarrow> nat \<Rightarrow> 'j control \<Rightarrow> 'j control \<Rightarrow> bool" where
  "control_answered J req n c c' \<longleftrightarrow> (\<exists>es. length es = n \<and> (\<forall>t \<in> set es. answer_text J req t) \<and>
     c_conn c' = (c_conn c)\<lparr>outbuf := outbuf (c_conn c) @ concat es\<rparr>)"

lemma control_answered_none: "c_conn c' = c_conn c \<Longrightarrow> control_answered J req 0 c c'"
  by (simp add: control_answered_def)

lemma control_answered_trans:
  assumes "control_answered J req m c c1" and "control_answered J req n c1 c2"
  shows "control_answered J req (m + n) c c2"
proof -
  obtain es es' where 1: "length es = m" "\<forall>t \<in> set es. answer_text J req t"
    "c_conn c1 = (c_conn c)\<lparr>outbuf := outbuf (c_conn c) @ concat es\<rparr>"
    "length es' = n" "\<forall>t \<in> set es'. answer_text J req t"
    "c_conn c2 = (c_conn c1)\<lparr>outbuf := outbuf (c_conn c1) @ concat es'\<rparr>"
    using assms unfolding control_answered_def by blast
  then show ?thesis unfolding control_answered_def by (intro exI [of _ "es @ es'"]) auto
qed

lemma control_answered_conn:
  "c_conn c1 = c_conn c \<Longrightarrow> control_answered J req n c1 c' = control_answered J req n c c'"
  "c_conn c2 = c_conn c' \<Longrightarrow> control_answered J req n c c2 = control_answered J req n c c'"
  by (simp_all add: control_answered_def)

lemma control_respond_answers:
  assumes "control_respond J res c = Inr c'" and "answers_to req res"
  shows "control_answered J req 1 c c'"
proof -
  obtain x where w: "writeResponse J res (c_conn c) = Inr x" and c': "c' = c\<lparr>c_conn := x\<rparr>"
    using assms(1) by (auto simp: control_respond_def rbind_eq_Inr)
  obtain e where e: "encode J res = Inr e" using w by (auto simp: writeResponse_def rbind_eq_Inr)
  then have "e \<noteq> []" "x = (c_conn c)\<lparr>outbuf := outbuf (c_conn c) @ terminated e\<rparr>"
    using w by (auto simp: writeResponse_def terminated_def require_def split: if_splits)
  moreover from this e assms(2) have "answer_text J req (terminated e)" unfolding answer_text_def by blast
  ultimately show ?thesis using c' unfolding control_answered_def by (intro exI [of _ "[terminated e]"]) simp
qed

text \<open>A response after steps that leave the control connection alone, and before others.\<close>

lemma control_respond_between:
  "control_respond J res c1 = Inr c2 \<Longrightarrow> answers_to req res \<Longrightarrow> c_conn c1 = c_conn c \<Longrightarrow> c_conn c' = c_conn c2 \<Longrightarrow>
    control_answered J req 1 c c'"
  using control_respond_answers control_answered_conn by metis

lemma cancel_worker_conn: "cancel_worker d c = Inr c' \<Longrightarrow> c_conn c' = c_conn c"
  by (auto simp: cancel_worker_def split: option.splits)

section \<open>One command\<close>

lemma create_new_ds_answers:
  assumes "create_new_ds J req c = Inr c'"
  shows "control_answered J req (if \<exists>refid. determineType J req [] = Inr (DSTYPE_INVALID, refid) then 2 else 1) c c'"
proof -
  obtain t refid ds where t: "determineType J req [] = Inr (t, refid)" and ds: "fromType J t req = Inr ds"
    using assms by (auto simp: create_new_ds_def rbind_eq_Inr Let_def)
  obtain c1 where c1: "(if t = DSTYPE_INVALID then control_respond J (invalid_dataset J req) c else Inr c) = Inr c1"
    and c': "control_respond J (needs_id J req) c1 = Inr c'"
    using assms unfolding create_new_ds_eq [OF t ds] by (auto simp: rbind_eq_Inr)
  have second: "control_answered J req 1 c1 c'"
    by (rule control_respond_answers [OF c']) (simp add: needs_id_def)
  show ?thesis
  proof (cases "t = DSTYPE_INVALID")
    case True
    then have "control_answered J req 1 c c1"
      using c1 by (auto intro: control_respond_answers [simplified] simp: invalid_dataset_def)
    from control_answered_trans [OF this second] True t show ?thesis by (simp add: numeral_2_eq_2)
  next
    case False
    with second c1 t show ?thesis by simp
  qed
qed

lemma goodbye_answers:
  assumes "dispatch_goodbye J req c = Inr c'"
  shows "control_answered J req (if isCollectingStats c then 1 else 0) c c'"
proof (cases "isCollectingStats c")
  case True
  then obtain i where i: "coll c = Some i" using assms by (auto simp: dispatch_goodbye_def split: option.splits)
  define u where "u = StopCollector (c_collectors c ! i)"
  obtain d where "control_respond J (setResponseData d (Response_new J req Error_new))
      (c\<lparr>c_collectors := (c_collectors c)[i := u]\<rparr>) = Inr c'"
    using assms True i by (auto simp: dispatch_goodbye_def u_def Let_def rbind_eq_Inr)
  from control_respond_between [OF this, of req c c'] True show ?thesis by simp
qed (use assms in \<open>simp add: dispatch_goodbye_def control_answered_none\<close>)

lemma cancel_answers:
  assumes "dispatch_cancel J req c = Inr c'"
  shows "control_answered J req 1 c c'"
proof -
  obtain w m where wm: "h2wmap_at (handle_id req) (c_shared c) = (w, m)" by (cases "h2wmap_at (handle_id req) (c_shared c)")
  obtain res c1 where "control_respond J res c1 = Inr c'" "answers_to req res" "c_conn c1 = c_conn c"
    using assms wm
    by (cases w) (fastforce simp: dispatch_cancel_def rbind_eq_Inr dest!: cancel_worker_conn)+
  then show ?thesis by (rule control_respond_between) simp
qed

lemma info_answers:
  assumes "dispatch_info M req c = Inr c'"
  shows "control_answered (me_json M) req 1 c c'"
proof -
  obtain p d c2 where r: "control_respond (me_json M) (setResponseData d (Response_new (me_json M) req Error_new))
      (c\<lparr>c_shared := (c_shared c)\<lparr>g_pFactor := p\<rparr>\<rparr>) = Inr c2" and c': "c' = start_collector (me_json M) c2"
    using assms by (auto simp: dispatch_info_def Let_def rbind_eq_Inr)
  show ?thesis by (rule control_respond_between [OF r]) (simp_all add: c' start_collector_def)
qed

lemma ttl_answers:
  assumes "dispatch_ttl J req c = Inr c'"
  shows "control_answered J req 1 c c'"
proof -
  obtain res c1 where r: "control_respond J res c1 = Inr c'" "answers_to req res" "c_conn c1 = c_conn c"
    using assms by (fastforce simp: dispatch_ttl_def rbind_eq_Inr Let_def split: if_splits)
  then show ?thesis by (rule control_respond_between) simp
qed

lemma upload_answers:
  assumes "dispatch_upload M req c = Inr c'"
  shows "control_answered (me_json M) req 1 c c'"
  using assms by (auto simp: dispatch_upload_def rbind_eq_Inr Let_def intro: control_respond_answers [simplified])

lemmas command_answers = create_new_ds_answers goodbye_answers cancel_answers info_answers ttl_answers upload_answers

text \<open>
  C37: how often the control thread answers. Every command it carries out is answered by one
  response with the request's command and numbers, except for three: \<open>NEWDATASET\<close> with an unknown
  type is answered twice, \<open>GETUSAGE\<close> never, and \<open>GOODBYE\<close> only when statistics are collected. Nothing else
  is written, and only \<open>GOODBYE\<close> ends the session.
\<close>

theorem control_answers:
  assumes "dispatchCommand M req c = Inr (go, c')"
  shows "(\<exists>es. length es = control_count (me_json M) req c \<and>
      (\<forall>t \<in> set es. \<exists>res e. answers_to req res \<and> encode (me_json M) res = Inr e \<and> t = terminated e) \<and>
      c_conn c' = (c_conn c)\<lparr>outbuf := outbuf (c_conn c) @ concat es\<rparr>) \<and>
    (go \<longleftrightarrow> cmd_code (command req) \<noteq> GOODBYE)"
proof -
  define J where "J = me_json M"
  define k where "k = cmd_code (command req)"
  consider "k = NEWDATASET" | "k = GOODBYE" | "k = CANCEL" | "k = INFO" | "k = TTL" | "k = GETUSAGE" | "k = UPLOADLOGS"
    | "k \<notin> {NEWDATASET, GOODBYE, CANCEL, INFO, TTL, GETUSAGE, UPLOADLOGS}" by auto
  then have "control_answered J req (control_count J req c) c c' \<and> (go \<longleftrightarrow> k \<noteq> GOODBYE)"
  proof cases
    case 1
    with assms have "create_new_ds J req c = Inr c'" "go" by (auto simp: dispatchCommand_def J_def k_def rbind_eq_Inr)
    from command_answers(1) [OF this(1)] this(2) 1 show ?thesis by (simp add: control_count_def k_def)
  next
    case 2
    with assms have "dispatch_goodbye J req c = Inr c'" "\<not> go" by (auto simp: dispatchCommand_def J_def k_def rbind_eq_Inr)
    from command_answers(2) [OF this(1)] this(2) 2 show ?thesis by (simp add: control_count_def k_def)
  next
    case 3
    with assms have "dispatch_cancel J req c = Inr c'" "go" by (auto simp: dispatchCommand_def J_def k_def rbind_eq_Inr)
    from command_answers(3) [OF this(1)] this(2) 3 show ?thesis by (simp add: control_count_def k_def)
  next
    case 4
    with assms have "dispatch_info M req c = Inr c'" "go" by (auto simp: dispatchCommand_def k_def rbind_eq_Inr)
    from command_answers(4) [OF this(1)] this(2) 4 show ?thesis by (simp add: control_count_def k_def J_def)
  next
    case 5
    with assms have "dispatch_ttl J req c = Inr c'" "go" by (auto simp: dispatchCommand_def J_def k_def rbind_eq_Inr)
    from command_answers(5) [OF this(1)] this(2) 5 show ?thesis by (simp add: control_count_def k_def)
  next
    case 6
    with assms have "c' = start_collector J c" "go" by (simp_all add: dispatchCommand_def J_def k_def)
    with 6 show ?thesis by (simp add: control_count_def k_def control_answered_none start_collector_def)
  next
    case 7
    with assms have "dispatch_upload M req c = Inr c'" "go" by (auto simp: dispatchCommand_def k_def rbind_eq_Inr)
    from command_answers(6) [OF this(1)] this(2) 7 show ?thesis by (simp add: control_count_def k_def J_def)
  next
    case 8
    with assms have "control_respond J (Response_new J req (Error_of SUBSYSf_SDKD SDKD_ENOIMPL [])) c = Inr c'" "go"
      by (auto simp: dispatchCommand_def J_def k_def rbind_eq_Inr Let_def)
    from control_respond_answers [OF this(1), of req] this(2) 8 show ?thesis by (simp add: control_count_def k_def)
  qed
  then show ?thesis unfolding control_answered_def answer_text_def J_def k_def by blast
qed

text \<open>A dataset of an unknown type gets two answers.\<close>

lemma control_answers_witness:
  "\<exists>c' es. dispatchCommand (example_main 7) (example_request NEWDATASET [(CBSDKD_MSGFLD_DSREQ_DSTYPE, JStr ''DSTYPE_NONE''), (''DS'', JObj [])]) accepted = Inr (True, c') \<and>
     length es = 2 \<and> outbuf (c_conn c') = concat es"
proof -
  define req where "req = example_request NEWDATASET [(CBSDKD_MSGFLD_DSREQ_DSTYPE, JStr ''DSTYPE_NONE''), (''DS'', JObj [])]"
  have t: "determineType (handle_json 7) req [] = Inr (DSTYPE_INVALID, [])"
    unfolding req_def handle_json_def by code_simp
  have f: "fromType (handle_json 7) DSTYPE_INVALID req = Inr None" by (simp add: fromType_def)
  have w: "writer (handle_json 7)" by (rule handle_json_object)
  obtain e1 where e1: "\<And>c. control_respond (handle_json 7) (invalid_dataset (handle_json 7) req) c = Inr (control_output (terminated e1) c)"
    using control_respond_ok [OF w, of "invalid_dataset (handle_json 7) req"] by blast
  obtain e2 where e2: "\<And>c. control_respond (handle_json 7) (needs_id (handle_json 7) req) c = Inr (control_output (terminated e2) c)"
    using control_respond_ok [OF w, of "needs_id (handle_json 7) req"] by blast
  define c' where "c' = control_output (terminated e2) (control_output (terminated e1) accepted)"
  have "create_new_ds (handle_json 7) req accepted = Inr c'"
    by (simp add: create_new_ds_eq [OF t f] e1 e2 c'_def)
  then have d: "dispatchCommand (example_main 7) req accepted = Inr (True, c')"
    by (simp add: dispatchCommand_def example_main_def req_def)
  have n: "control_count (me_json (example_main 7)) req accepted = 2"
    using t by (simp add: control_count_def example_main_def req_def)
  have o': "outbuf (c_conn accepted) = []"
    by (simp add: accepted_def new_worker_def example_start_def system_start_def MainDispatch_new_def new_conn_def Let_def)
  from control_answers [OF d] n o' d show ?thesis unfolding req_def by (auto simp: Let_def)
qed

end
