(* ===== verification/Deviations.thy ===== *)
theory Deviations
  imports SystemProps
begin

text \<open>
  Behaviours of single operations that differ from what their surroundings suggest, each on the
  operation's own definition.
\<close>

section \<open>Requests that arrive together\<close>

text \<open>
  A round of a worker that does not read leaves the messages it has already received where they
  are: only when the socket has something to read again is the next one looked at.
\<close>

lemma flush_keeps_newlines: "flushBuffer c = (r, c') \<Longrightarrow> newlines c' = newlines c"
  by (auto simp: flushBuffer_def Let_def split: if_splits prod.splits)

lemma received_request_waits:
  assumes "selectLoop E (SelectReady exc wr False) s = Inr (go, s')"
  shows "newlines (w_conn (fst s')) = newlines (w_conn (fst s))"
  using assms flush_keeps_newlines
  by (auto simp: selectLoop_def rbind_eq_Inr Let_def split: if_splits prod.splits)

lemma one_message_a_round:
  assumes "newlines c = l # ls" and "l \<noteq> []"
  shows "getRawMessage c = (IO_OK, l, c\<lparr>newlines := ls\<rparr>)"
  using assms by (subst getRawMessage_def, subst get_raw.simps) simp

section \<open>Datasets\<close>

text \<open>A plain string item of an inline dataset keeps the value of the item before it.\<close>

lemma inline_value_kept:
  assumes "jitem J items (sint idx) = Inr x" and "\<not> j_isArray J x" and "jasString J x = Inr k"
  shows "DatasetInlineIterator_init_data J items idx it = Inr (it\<lparr>curk := k\<rparr>)"
  using assms by (simp add: DatasetInlineIterator_init_data_def)

section \<open>Handles\<close>

text \<open>Ending or cancelling a handle never removes a certificate file.\<close>

lemma certificate_stays: "snd (cancelCurrentHandle wk) = None"
  by (simp add: cancelCurrentHandle_def cancelCurrent_def Let_def)

text \<open>Once a cluster is open every other one counts as open too, and nothing is opened.\<close>

lemma ensureCluster_ignores_origin: "cluster_initialized m \<Longrightarrow> ensureCluster env o' b m = (None, m)"
  by (simp add: ensureCluster_def)

section \<open>Queries\<close>

text \<open>Without a text for it the flag is what the memory held.\<close>

lemma prepared_uninitialised: "parse_boolalpha u [] = u"
  by (simp add: parse_boolalpha_def)

section \<open>The control connection\<close>

text \<open>A long enough argument makes the command overrun its buffer.\<close>

lemma upload_overruns:
  assumes "j_get (me_json M) pl CBSDKD_MSGFLD_S3_BUCKET = Some b" and "j_asCString (me_json M) b = Some bs"
    and "j_get (me_json M) pl CBSDKD_MSGFLD_S3_ACCESSS = Some a" and "j_asCString (me_json M) a = Some as"
    and "j_get (me_json M) pl CBSDKD_MSGFLD_S3_SECRET = Some s" and "j_asCString (me_json M) s = Some ss"
    and "1024 \<le> length (c_string bs)"
  shows "uploadLogs M pl = Inl BadAccess"
  using assms by (simp add: uploadLogs_def jfield_def upload_command_def)

text \<open>
  The collector of an earlier request stays in the list and alive whatever collectors are started and
  stopped later.
\<close>

lemma earlier_collector_lost:
  assumes "i < length (c_collectors s)" and "thr_alive (c_collectors s ! i)"
    and "dispatch_goodbye J req (start_collector J s) = Inr s'"
  shows "thr_alive (c_collectors s' ! i)"
  using assms
  by (auto simp: dispatch_goodbye_def start_collector_def control_respond_def rbind_eq_Inr Let_def nth_append)

end
