(* ===== verification/Spec2Isabelle.thy ===== *)
theory Spec2Isabelle
  imports Protocol LoaderItems IOProps RequestProps SystemProps Sessions Platform OsThreads DSTest Demo Progress
    ControlAnswers Deviations
begin

text \<open>
  A model of sdkd, the daemon that drives the C++ SDK of a document database for a test
  controller. All files named below are under \<open>src/\<close>.

  \<^bold>\<open>The program.\<close> The daemon listens on a socket. The first connection of a session is the
  control connection, served by the main thread (\<open>MainDispatch\<close>, \<open>Control.cpp\<close>); every later
  one gets a worker thread (\<open>WorkerDispatch\<close>, \<open>Worker.cpp\<close>). Both read JSON requests, one a line,
  and write JSON responses (\<open>IODispatch.cpp\<close>). A worker opens at most one \<open>Handle\<close>; further
  requests name an operation and a dataset. The operation walks the dataset, submits one
  request per item to the cluster client, collects the replies in batches, and reports the
  outcome of a \<open>ResultSet\<close> with timing windows. The control thread cancels operations through
  the map from handle numbers to workers, which the workers keep up to date.

  \<^bold>\<open>Theories and code.\<close>
  \<^item> \<open>Prelude\<close>: code that can throw, trap or use a dead object is a sum, \<open>Inl\<close> the way it stops;
    \<open>rbind\<close> sequences it. Decimal strings and \<open>std::map\<close> as a sorted association list.
  \<^item> \<open>Protostrings\<close>, \<open>Errors\<close>, \<open>Messages\<close>, \<open>Protocol\<close>: \<open>protostrings.h\<close>, \<open>Error.h\<close>, \<open>Message\<close>,
    \<open>Request\<close>, \<open>Response\<close> and the command table, and what decoding and answering promise.
  \<^item> \<open>Json\<close>, \<open>Json_Ref\<close>: the JSON library is a submodule, so its operations are a record \<open>J\<close> every
    definition that reads or writes JSON takes. The locales \<open>json_object\<close> and \<open>json_array\<close> are its
    documented laws; \<open>Json_Ref\<close> interprets them on a datatype, on which the examples evaluate.
  \<^item> \<open>Datasets\<close>, \<open>Iterators\<close>, \<open>DatasetItems\<close>, \<open>InlineItems\<close>: \<open>Dataset.h\<close>, \<open>Dataset.cpp\<close> and the file of each kind.
    The iterators are interpretations of the locale \<open>dataset_iterator\<close>, inside which a \<open>for\<close> loop
    is proved to be a traversal of the list of items.
  \<^item> \<open>Results\<close>, \<open>ResultStats\<close>, \<open>Reports\<close>: \<open>ResultSet.h\<close>, \<open>ResultSet.cpp\<close>.
  \<^item> \<open>World\<close>, \<open>Sinks\<close>: the cluster client, the clock, random numbers and the test of the cancel flag
    as an environment indexed by the number of the event, the futures in flight, and the locale
    \<open>sink\<close> of the handlers replies are drained into.
  \<^item> \<open>HandleOpts\<close>, \<open>SingleFloat\<close>, \<open>Routing\<close>, \<open>RoutingItems\<close>: the options of a handle, routing of keys to
    collections (with its single precision division) and the creation of collections.
  \<^item> \<open>Handle\<close>, \<open>HandleItems\<close>, \<open>HandleProps\<close>, \<open>Frames\<close>: the bulk operations of \<open>Handle.cpp\<close>, as
    interpretations of the locale \<open>item_operation\<close>.
  \<^item> \<open>Loaders\<close>, \<open>LoaderItems\<close>, \<open>Executors\<close>, \<open>ExecutorItems\<close>: the loaders and the query executors of
    SQL, full-text, analytics and view queries; the loops of the executors are interpretations
    of the locale \<open>query_body\<close>.
  \<^item> \<open>IOProto\<close>, \<open>IOProps\<close>: framing and buffering. The kernel's side of a socket is a script of what
    the next calls of \<open>recv\<close>, \<open>send\<close> and \<open>select\<close> return.
  \<^item> \<open>Registry\<close>, \<open>Worker\<close>, \<open>WorkerItems\<close>, \<open>WorkerProps\<close>: the shared maps, a worker's loop and the
    dispatch of every request. \<open>RequestProps\<close> follows one request through all components, and says
    which requests always come to their end.
  \<^item> \<open>Usage\<close>, \<open>Control\<close>: the usage collector and the control thread. Workers live in a heap whose
    entry is gone once they are deleted; using one then is \<open>BadAccess\<close>. The destructor cancels and collects, waits for the callback of
    \<open>cluster->close\<close> and joins the threads of the client.
  \<^item> \<open>System\<close>, \<open>Registration\<close>, \<open>SystemProps\<close>: the interleaving of all threads as an inductive step
    relation, an abstract registry, and the refinement between them. What the control thread does is
    a sequence of three moves (\<open>control_move\<close>), on which the invariants rest.
  \<^item> \<open>Dialogue\<close>, \<open>Progress\<close>: a worker's connection from the point of view of its client. The specification
    (\<open>dialogue\<close>) knows lines, requests and answers, not buffers, rounds or threads; \<open>passes\<close> relates two
    states of a connection by the lines taken from it and the texts added to its output.
    \<open>Progress\<close> is its liveness: rounds as a function, and requests with finite work. \<open>ControlAnswers\<close> counts the answers on the control connection.
  \<^item> \<open>Threads\<close>, \<open>ThreadInv\<close>, \<open>ThreadProps\<close>, \<open>Concurrency\<close>: the same threads at the grain of their shared
    accesses. The parts of \<open>Control.cpp\<close>, \<open>Worker.cpp\<close> and \<open>Collections.cpp\<close> that lock, unlock or touch
    memory of another thread are lists of instructions; any thread may take the next one; a
    thread that locks waits for the mutex, and one that gets a future waits for its callback,
    which a thread of the client calls in a step of its own, late or never. \<open>ThreadInv\<close> is an assertion on the code each thread still
    has to run, \<open>ThreadProps\<close> the refinement to the abstract registry of \<open>Registration\<close>.
  \<^item> \<open>Startup\<close>, \<open>Sessions\<close>, \<open>Logging\<close>: \<open>Main.cpp\<close>, \<open>Daemon.cpp\<close>, \<open>sockutil.c\<close>, \<open>logging.cpp\<close> and
    \<open>contrib/debug\<close>.
  \<^item> \<open>Platform\<close>, \<open>OsThreads\<close>: the timers, threads and mutexes of \<open>ThreadUnix.cpp\<close> and \<open>ThreadWin32.cpp\<close> as
    interpretations of the locales \<open>timer\<close>, \<open>thread_class\<close> and \<open>mutex_class\<close>, which are what the daemon
    relies on of \<open>Thread.h\<close>. The system calls are arguments (\<open>pthread_calls\<close> and its like); what is
    documented of them are the locales \<open>posix_system\<close> and \<open>windows_system\<close>. And the clock of \<open>win32-gettimeofday.c\<close>.
  \<^item> \<open>DSTest\<close>, \<open>Demo\<close>: the test program \<open>DSTest.cpp\<close> and the first three tests of \<open>demo.cpp\<close>, with the
    locale \<open>json_index\<close> for the array members the last of them assigns. \<open>Deviations\<close>: single behaviours that differ from what
    their surroundings suggest.

  \<^bold>\<open>What is proved.\<close>
  \<^item> Requests: decoding, the command table, one terminated answer to every processed request with
    its command and numbers, and a bulk get from the fields of its request to its report.
  \<^item> Operations: every item visited is submitted once and in order and its reply is counted once;
    nothing is in flight at the end; batches stay below \<open>IterWait\<close>; cancelling stops the walk.
    The loaders store every document, or stop at the first check that fails and send nothing after
    it. What one round of each executor does, and that the loops end when they are cancelled.
  \<^item> Results: each outcome is in one counter and one window, that of the time it is recorded at; rank
    and definedness of the percentile; what a reader finds in the report: every status with its
    counter, every window with its figures.
  \<^item> Datasets and routing: the items of each kind, which specifications are refused, when seeded keys
    are distinct, the values of an inline dataset, routing against a reference; creation stops
    at its first error, and when it succeeds keys are routed to what was created.
  \<^item> Sockets: messages are the lines of the received bytes however they are cut into pieces;
    flushing neither loses nor reorders bytes and ends when the socket takes them.
  \<^item> Connections: between any two states of the daemon what passed over a worker's connection is a
    dialogue, in which the \<open>i\<close>-th text answers the \<open>i\<close>-th line, however the bytes were cut and
    whatever the other threads did; a client that frames what it receives the same way gets
    exactly these answers, one a line. On sockets that are only slow, requests with finite work are
    all answered after as many rounds as there are requests, and each of these rounds ends. Each control command has its number of answers.
  \<^item> Daemon: every step is a sequence of steps of the abstract registry, in every interleaving; a
    registered number other than zero belongs to an existing worker, so that cancelling it is
    safe; zero is registered for ever. The destructor returns exactly when every worker has been
    reported gone, the cluster is closed and the threads of the client have ended.
  \<^item> Threads: no thread uses a deleted worker or handle and no two are in the section of one
    mutex; a thread that waits for a mutex waits for one that releases it, by itself or once the
    client has called it back; one thread at a time opens the cluster, the bucket is opened at most
    once, and nothing is opened after the flag is set; a cancelled operation ends at its next test;
    a mutex class with the laws of \<open>mutex_class\<close> does what the model's lock table says. Left open by the code, and shown by runs: a cancellation
    between reading a request and starting it is lost (\<open>cancel_lost\<close>), two workers may both create
    the collections (\<open>collections_created_twice\<close>), the control thread reads the map without its
    mutex (\<open>registry_race\<close>), the cluster is opened again when only the bucket could not be opened
    (\<open>cluster_reopened\<close>), a callback that does not come blocks all handles (\<open>callback_awaited\<close>), and
    handle number zero leads to the use of a deleted worker (\<open>zero_crashes\<close>).
  \<^item> Tests: the repository's own tests of the iterators and of messages pass on the model.
  \<^item> Process: \<open>main\<close> returns only for a daemon that is not persistent, after one session; the port
    file is written once.

  \<^bold>\<open>Bounds and fuel.\<close> A loop over a continuous dataset and the loop of an executor end only when
  another thread cancels, so they take fuel, and running out is an error of its own, never a
  result. A finite dataset needs more fuel than it has items; a cancelled loop more than the
  number of rounds before the flag is seen; the theorems state these bounds and that the
  operation then returns. A handle's options are \<open>routable\<close> when they use no collections or have at
    least one; with none the routing divides by zero (\<open>getCollection_reference\<close>). A report of any
    window needs a percentile factor from 50 to 100; \<open>percentile_safe_iff\<close> says which others do for
    a given window. The blocking flush and the reading of a socket end with their
  scripts. Words have the width of the code (\<open>unsigned\<close> 32, \<open>unsigned long\<close> 64, conversions to
  \<open>int\<close> as the wrap-around of two's complement); the \<open>int\<close> counters of operations are unbounded,
  which is right below \<open>2^31\<close> operations. Uninitialised memory a constructor leaves is an
  argument \<open>u\<close> over which the theorems are universal.

  \<^bold>\<open>Assumptions on the threads.\<close> There are two grains. In \<open>System\<close> one round of a loop is one step
  and an operation inside a round meets other threads only through the cancel flag, whose value
  at each test is arbitrary, and the callbacks a round waits for come within it; this is the model with the whole behaviour of a round. In \<open>Threads\<close> one
  shared access is one step and the rest of a round (parsing, building a response, walking a
  dataset) is left out: what arrives, how a call to the cluster ends and whether an operation has
  more to do are choices of the run. The invariants of \<open>Threads\<close> are for clients that do not use handle
  number zero (\<open>0 \<notin> K\<close>), for which they do not hold. Accesses are taken to be sequentially
  consistent. The factor of the percentile is read once a round; in the code it is a static
  variable every new \<open>ResultSet\<close> sets from \<open>g_pFactor\<close>. Only the control thread deletes workers.
  \<open>Thread::isAlive\<close> may answer anything for a thread that has ended, but a thread that has not is
  reported alive (\<open>truthful\<close>); \<open>reports_truthful\<close> in \<open>OsThreads\<close> derives that from what is documented of
  the system calls.

  \<^bold>\<open>Not modelled.\<close> The cluster client and what its threads run, of which only the callbacks are
  steps of the model, the JSON parser and the parser of long
  options (not part of the repository: arguments of the model); what system calls return (also
  arguments); the tests of a handle and of the dispatcher in \<open>demo.cpp\<close> (they use \<open>Handle::connect\<close>,
  \<open>putRawMessage\<close> and \<open>lcb_get_version\<close>, which do not exist any more); \<open>win_stdint.h\<close>
  (third-party); class declarations and commented-out code; the text of JSON numbers that stand
  for a \<open>double\<close>.
\<close>

end
